theory Spec2Isabelle
  imports Complex_Main
begin

section \<open>The driver \<^verbatim>\<open>gdal_trace_outline.cc\<close>\<close>

text \<open>
  The development embeds the driver of the raster-to-outline tool: its option loop, the
  checks it makes before it reads anything, the function \<^verbatim>\<open>calc_ring_from_mask\<close>
  and the class loop of \<^verbatim>\<open>main\<close>. The functions that the driver calls and that live
  in other translation units (the tracer, the beveler, the pincher, the point reducer, the
  rasterizer, the coordinate mappers, GDAL, OGR and libc) are parameters. Each call that
  opens or reads the input, works on the mask or the multipolygon, or opens or writes an
  output is recorded, with its arguments, in a call log, so that a statement about what is
  invoked, on which data and in which order is a statement about that log. What the driver
  prints, the closing of the outputs and the creation of the OGR fields are not recorded;
  queries without effect (the raster count, the area of a ring, the splitting of a
  multipolygon) are read from the parameters.
\<close>

subsection \<open>C doubles and their comparisons\<close>

text \<open>
  A \<^verbatim>\<open>double\<close> is a finite value, an infinity or a NaN. The driver only ever
  compares doubles; a comparison with a NaN operand is false.
\<close>

datatype double = Finite real | PosInf | NegInf | NaN

fun dless :: "double \<Rightarrow> double \<Rightarrow> bool" where
  "dless NaN b = False"
| "dless a NaN = False"
| "dless (Finite a) (Finite b) = (a < b)"
| "dless (Finite a) PosInf = True"
| "dless (Finite a) NegInf = False"
| "dless PosInf b = False"
| "dless NegInf NegInf = False"
| "dless NegInf b = True"

definition dgreater :: "double \<Rightarrow> double \<Rightarrow> bool" where
  "dgreater a b = dless b a"

definition dgeq :: "double \<Rightarrow> double \<Rightarrow> bool" where
  "dgeq a b = (a \<noteq> NaN \<and> b \<noteq> NaN \<and> \<not> dless a b)"

subsection \<open>Data\<close>

text \<open>
  Rings and multipolygons as the driver uses them: it reads \<^verbatim>\<open>rings\<close>,
  \<^verbatim>\<open>pts.size()\<close>, \<^verbatim>\<open>is_hole\<close> and \<^verbatim>\<open>parent_id\<close>, and never looks
  inside a point, so the point type is a parameter.
\<close>

record 'p ring =
  pts :: "'p list"
  is_hole :: bool
  parent_id :: int

record 'p Mpoly =
  rings :: "'p ring list"

text \<open>
  Modelled from the spec: the type \<open>BitGrid\<close> (\<^verbatim>\<open>mask.h\<close> is not among the
  sources), a dense mask of width \<open>w\<close> and height \<open>h\<close> with one bit per pixel, by
  rows. \<open>BitGrid_new\<close> is the constructor \<^verbatim>\<open>BitGrid(w, h)\<close>. The driver never
  reads a bit: it receives a mask from a reader, hands it to the stages, and replaces it by
  \<^verbatim>\<open>BitGrid(0, 0)\<close> once it is traced.
\<close>

record BitGrid =
  grid_w :: nat
  grid_h :: nat
  grid_rows :: "bool list list"

definition BitGrid_new :: "nat \<Rightarrow> nat \<Rightarrow> BitGrid" where
  "BitGrid_new w h = \<lparr>grid_w = w, grid_h = h, grid_rows = replicate h (replicate w False)\<rparr>"

datatype error = Usage | Fatal string

datatype out_cs = CS_UNKNOWN | CS_XY | CS_EN | CS_LL

record geom_output =
  out_cs :: out_cs
  wkt_fn :: "string option"
  wkb_fn :: "string option"
  ogr_fn :: "string option"
  ogr_fmt :: "string option"

text \<open>The local variables of \<^verbatim>\<open>main\<close> that the option loop sets.\<close>

record config =
  input_raster_fn :: "string option"
  classify :: bool
  debug_report :: "string option"
  inspect_bandids :: "int list"
  split_polys :: bool
  cur_out_cs :: out_cs
  cur_ogr_fmt :: string
  geom_outputs :: "geom_output list"
  mask_out_fn :: "string option"
  major_ring_only :: bool
  no_donuts :: bool
  min_ring_area :: int
  reduction_tolerance :: double
  do_erosion :: bool
  do_invert :: bool
  llproj_toler :: double
  bevel_size :: double
  do_pinch_excursions :: bool
  VERBOSE :: nat

definition initial_config :: config where
  "initial_config =
     \<lparr>input_raster_fn = None, classify = False, debug_report = None, inspect_bandids = [],
      split_polys = False, cur_out_cs = CS_UNKNOWN, cur_ogr_fmt = ''ESRI Shapefile'',
      geom_outputs = [], mask_out_fn = None, major_ring_only = False, no_donuts = False,
      min_ring_area = 0, reduction_tolerance = Finite 2, do_erosion = False,
      do_invert = False, llproj_toler = Finite 1, bevel_size = Finite (1 / 10),
      do_pinch_excursions = False, VERBOSE = 0\<rparr>"

subsection \<open>The option loop\<close>

text \<open>
  \<^verbatim>\<open>strtol\<close> and \<^verbatim>\<open>strtod\<close> are libc's: each returns the value and the
  unparsed rest of the string (\<^verbatim>\<open>endptr\<close>); \<^verbatim>\<open>*endptr\<close> is non-zero exactly
  when the rest is not empty.
\<close>

record libc =
  strtol :: "string \<Rightarrow> int \<times> string"
  strtod :: "string \<Rightarrow> double \<times> string"

text \<open>The conversion of a \<^verbatim>\<open>long\<close> to \<^verbatim>\<open>int\<close> (\<^verbatim>\<open>int bandid = strtol(...)\<close>).\<close>

definition long_to_int :: "int \<Rightarrow> int" where
  "long_to_int v = (v + 2 ^ 31) mod 2 ^ 32 - 2 ^ 31"

definition add_geom_output :: "geom_output list \<Rightarrow> out_cs \<Rightarrow> error + geom_output list" where
  "add_geom_output list cs =
     (if cs = CS_UNKNOWN then
        Inl (Fatal ''must specify output coordinate system with -out-cs option before specifying output'')
      else Inr (list @ [\<lparr>out_cs = cs, wkt_fn = None, wkb_fn = None, ogr_fn = None, ogr_fmt = None\<rparr>]))"

definition set_last :: "(geom_output \<Rightarrow> geom_output) \<Rightarrow> geom_output list \<Rightarrow> geom_output list" where
  "set_last f list = (case rev list of [] \<Rightarrow> [] | go # before \<Rightarrow> rev (f go # before))"

definition starts_with_dash :: "string \<Rightarrow> bool" where
  "starts_with_dash arg = (case arg of [] \<Rightarrow> False | ch # cs \<Rightarrow> ch = CHR ''-'')"

text \<open>
  One pass of the option loop on the argument \<open>arg\<close>. \<open>nxt\<close> is the argument after
  it, if there is one (\<^verbatim>\<open>argp == argc\<close> is \<open>nxt = None\<close>); the value is the new
  configuration and whether the pass took \<open>nxt\<close> as the value of the option
  (\<^verbatim>\<open>argv[argp++]\<close>).
\<close>

definition parse_option :: "libc \<Rightarrow> config \<Rightarrow> string \<Rightarrow> string option \<Rightarrow> error + config \<times> bool" where
  "parse_option lc c arg nxt =
    (if starts_with_dash arg then
       if arg = ''-v'' then Inr (c\<lparr>VERBOSE := VERBOSE c + 1\<rparr>, False)
       else if arg = ''-classify'' then Inr (c\<lparr>classify := True\<rparr>, False)
       else if arg = ''-report'' then
         (case nxt of None \<Rightarrow> Inl Usage
          | Some v \<Rightarrow> Inr (c\<lparr>debug_report := Some v\<rparr>, True))
       else if arg = ''-b'' then
         (case nxt of None \<Rightarrow> Inl Usage
          | Some v \<Rightarrow>
              (case strtol lc v of (bandid, endptr) \<Rightarrow>
                 if endptr \<noteq> [] then Inl Usage
                 else Inr (c\<lparr>inspect_bandids := inspect_bandids c @ [long_to_int bandid]\<rparr>, True)))
       else if arg = ''-erosion'' then Inr (c\<lparr>do_erosion := True\<rparr>, False)
       else if arg = ''-invert'' then Inr (c\<lparr>do_invert := True\<rparr>, False)
       else if arg = ''-split-polys'' then Inr (c\<lparr>split_polys := True\<rparr>, False)
       else if arg = ''-wkt-out'' then
         (case nxt of None \<Rightarrow> Inl Usage
          | Some v \<Rightarrow>
              (case add_geom_output (geom_outputs c) (cur_out_cs c) of
                 Inl e \<Rightarrow> Inl e
               | Inr list \<Rightarrow>
                   Inr (c\<lparr>geom_outputs := set_last (\<lambda>go. go\<lparr>wkt_fn := Some v\<rparr>) list\<rparr>, True)))
       else if arg = ''-wkb-out'' then
         (case nxt of None \<Rightarrow> Inl Usage
          | Some v \<Rightarrow>
              (case add_geom_output (geom_outputs c) (cur_out_cs c) of
                 Inl e \<Rightarrow> Inl e
               | Inr list \<Rightarrow>
                   Inr (c\<lparr>geom_outputs := set_last (\<lambda>go. go\<lparr>wkb_fn := Some v\<rparr>) list\<rparr>, True)))
       else if arg = ''-ogr-out'' then
         (case nxt of None \<Rightarrow> Inl Usage
          | Some v \<Rightarrow>
              (case add_geom_output (geom_outputs c) (cur_out_cs c) of
                 Inl e \<Rightarrow> Inl e
               | Inr list \<Rightarrow>
                   Inr (c\<lparr>geom_outputs :=
                          set_last (\<lambda>go. go\<lparr>ogr_fmt := Some (cur_ogr_fmt c), ogr_fn := Some v\<rparr>) list\<rparr>,
                        True)))
       else if arg = ''-ogr-fmt'' then
         (case nxt of None \<Rightarrow> Inl Usage
          | Some v \<Rightarrow> Inr (c\<lparr>cur_ogr_fmt := v\<rparr>, True))
       else if arg = ''-out-cs'' then
         (case nxt of None \<Rightarrow> Inl Usage
          | Some cs \<Rightarrow>
              if cs = ''xy'' then Inr (c\<lparr>cur_out_cs := CS_XY\<rparr>, True)
              else if cs = ''en'' then Inr (c\<lparr>cur_out_cs := CS_EN\<rparr>, True)
              else if cs = ''ll'' then Inr (c\<lparr>cur_out_cs := CS_LL\<rparr>, True)
              else Inl (Fatal (''unrecognized value for -out-cs option ('' @ cs @ '')'')))
       else if arg = ''-mask-out'' then
         (case nxt of None \<Rightarrow> Inl Usage
          | Some v \<Rightarrow> Inr (c\<lparr>mask_out_fn := Some v\<rparr>, True))
       else if arg = ''-major-ring'' then Inr (c\<lparr>major_ring_only := True\<rparr>, False)
       else if arg = ''-no-donuts'' then Inr (c\<lparr>no_donuts := True\<rparr>, False)
       else if arg = ''-min-ring-area'' then
         (case nxt of None \<Rightarrow> Inl Usage
          | Some v \<Rightarrow>
              (case strtol lc v of (area, endptr) \<Rightarrow>
                 if endptr \<noteq> [] then Inl Usage
                 else Inr (c\<lparr>min_ring_area := area\<rparr>, True)))
       else if arg = ''-dp-toler'' then
         (case nxt of None \<Rightarrow> Inl Usage
          | Some v \<Rightarrow>
              (case strtod lc v of (toler, endptr) \<Rightarrow>
                 if endptr \<noteq> [] then Inl Usage
                 else Inr (c\<lparr>reduction_tolerance := toler\<rparr>, True)))
       else if arg = ''-bevel-size'' then
         (case nxt of None \<Rightarrow> Inl Usage
          | Some v \<Rightarrow>
              (case strtod lc v of (bevel, endptr) \<Rightarrow>
                 if endptr \<noteq> [] then Inl Usage
                 else if dless bevel (Finite 0) \<or> dgeq bevel (Finite 1) then
                   Inl (Fatal ''-bevel-size must be in the range 0 <= bevel < 1'')
                 else Inr (c\<lparr>bevel_size := bevel\<rparr>, True)))
       else if arg = ''-pinch-excursions'' then Inr (c\<lparr>do_pinch_excursions := True\<rparr>, False)
       else if arg = ''-llproj-toler'' then
         (case nxt of None \<Rightarrow> Inl Usage
          | Some v \<Rightarrow>
              (case strtod lc v of (toler, endptr) \<Rightarrow>
                 if endptr \<noteq> [] then Inl Usage
                 else Inr (c\<lparr>llproj_toler := toler\<rparr>, True)))
       else if arg = ''-h'' \<or> arg = ''--help'' then Inl Usage
       else Inl (Fatal (''unrecognized option: '' @ arg))
     else
       (case input_raster_fn c of
          Some fn \<Rightarrow> Inl Usage
        | None \<Rightarrow> Inr (c\<lparr>input_raster_fn := Some arg\<rparr>, False)))"

text \<open>The loop \<^verbatim>\<open>while(argp < argc)\<close> on the arguments from \<^verbatim>\<open>argp\<close> on.\<close>

fun parse_args :: "libc \<Rightarrow> config \<Rightarrow> string list \<Rightarrow> error + config" where
  "parse_args lc c [] = Inr c"
| "parse_args lc c [arg] =
     (case parse_option lc c arg None of
        Inl e \<Rightarrow> Inl e
      | Inr (c', took) \<Rightarrow> Inr c')"
| "parse_args lc c (arg # v # rest) =
     (case parse_option lc c arg (Some v) of
        Inl e \<Rightarrow> Inl e
      | Inr (c', took) \<Rightarrow> if took then parse_args lc c' rest else parse_args lc c' (v # rest))"

subsection \<open>The world outside and the call log\<close>

text \<open>
  What the driver obtains from GDAL, OGR and the file system: whether a call succeeds,
  and the data it returns. \<^verbatim>\<open>init_geo_options\<close> and \<^verbatim>\<open>init_ndv_options\<close>
  remove their own options from the argument vector; the second also yields the number of
  no-data ranges given on the command line.
\<close>

type_synonym color = "int \<times> int \<times> int \<times> int"

record georef =
  georef_w :: nat
  georef_h :: nat
  fwd_affine :: bool
  fwd_xform :: bool

record world =
  c_lib :: libc
  init_geo_options :: "string list \<Rightarrow> string list"
  init_ndv_options :: "string list \<Rightarrow> nat \<times> string list"
  GDALOpen :: "string \<Rightarrow> bool"
  GDALGetRasterCount :: nat
  init_georef :: georef
  usage_array :: "nat \<Rightarrow> bool"
  color_table :: "(nat \<Rightarrow> color option) option"
  get_bitgrid_for_dataset :: "int list \<Rightarrow> BitGrid"
  get_bitgrid_for_8bit_raster :: "nat \<Rightarrow> BitGrid"
  fopen :: "string \<Rightarrow> bool"
  OGRGetDriverByName :: "string \<Rightarrow> bool"
  OGR_Dr_CreateDataSource :: "string \<Rightarrow> bool"
  OGR_DS_CreateLayer :: "string \<Rightarrow> bool"

text \<open>The functions of the geometry core that the driver calls.\<close>

record 'p stages =
  BitGrid_invert :: "BitGrid \<Rightarrow> BitGrid"
  BitGrid_erode :: "BitGrid \<Rightarrow> BitGrid"
  trace_mask :: "BitGrid \<Rightarrow> nat \<Rightarrow> nat \<Rightarrow> int \<Rightarrow> bool \<Rightarrow> 'p Mpoly"
  ring_area :: "'p ring \<Rightarrow> double"
  bevel_self_intersections :: "'p Mpoly \<Rightarrow> double \<Rightarrow> 'p Mpoly"
  pinch_excursions2 :: "'p Mpoly \<Rightarrow> 'p Mpoly"
  compute_reduced_pointset :: "'p Mpoly \<Rightarrow> double \<Rightarrow> 'p Mpoly"
  split_mpoly_to_polys :: "'p Mpoly \<Rightarrow> 'p Mpoly list"
  xy2en :: "'p Mpoly \<Rightarrow> 'p Mpoly"
  xy2ll_with_interp :: "'p Mpoly \<Rightarrow> double \<Rightarrow> 'p Mpoly"

text \<open>
  One entry of the call log for each call that leaves the driver, with the arguments the
  driver passes. The three \<open>Write\<close> entries stand for the export of a geometry to an
  output, given by its index in the output list.
\<close>

datatype 'p call =
    Call_GDALOpen string
  | Call_create_plot nat nat
  | Call_read_dataset_8bit int
  | Call_get_bitgrid_for_dataset "int list"
  | Call_fopen string
  | Call_OGRGetDriverByName string
  | Call_OGR_Dr_CreateDataSource string
  | Call_OGR_DS_CreateLayer string
  | Call_get_bitgrid_for_8bit_raster nat
  | Call_invert BitGrid
  | Call_erode BitGrid
  | Call_trace_mask BitGrid nat nat int bool
  | Call_bevel_self_intersections "'p Mpoly" double
  | Call_pinch_excursions2 "'p Mpoly"
  | Call_mask_from_mpoly "'p Mpoly" nat nat string
  | Call_compute_reduced_pointset "'p Mpoly" double
  | Call_debug_plot_mpoly "'p Mpoly"
  | Call_xy2en "'p Mpoly"
  | Call_xy2ll_with_interp "'p Mpoly" double
  | Write_wkt nat "'p Mpoly"
  | Write_wkb nat "'p Mpoly"
  | Write_ogr nat "nat option" "color option" "'p Mpoly"
  | Call_write_plot string

text \<open>
  A computation yields the calls it made and either the error that ended the process
  (\<^verbatim>\<open>usage\<close> and \<^verbatim>\<open>fatal_error\<close> exit) or its value.
\<close>

type_synonym ('p, 'a) run = "'p call list \<times> (error + 'a)"

definition ret :: "'a \<Rightarrow> ('p, 'a) run" where
  "ret v = ([], Inr v)"

definition fatal_error :: "string \<Rightarrow> ('p, 'a) run" where
  "fatal_error msg = ([], Inl (Fatal msg))"

definition call :: "'p call \<Rightarrow> 'a \<Rightarrow> ('p, 'a) run" where
  "call ev v = ([ev], Inr v)"

definition and_then :: "('p, 'a) run \<Rightarrow> ('a \<Rightarrow> ('p, 'b) run) \<Rightarrow> ('p, 'b) run" where
  "and_then m f =
     (case m of
        (calls, Inl e) \<Rightarrow> (calls, Inl e)
      | (calls, Inr v) \<Rightarrow> (case f v of (calls', r) \<Rightarrow> (calls @ calls', r)))"

subsection \<open>\<^verbatim>\<open>calc_ring_from_mask\<close>\<close>

text \<open>The search for the ring of biggest area: the loop, with its two variables.\<close>

fun biggest_loop :: "('p ring \<Rightarrow> double) \<Rightarrow> 'p ring list \<Rightarrow> nat \<Rightarrow> double \<times> nat \<Rightarrow> double \<times> nat" where
  "biggest_loop area [] i acc = acc"
| "biggest_loop area (r # rs) i (biggest_area, best_idx) =
     (if dgreater (area r) biggest_area then biggest_loop area rs (i + 1) (area r, i)
      else biggest_loop area rs (i + 1) (biggest_area, best_idx))"

text \<open>
  The block that keeps only the biggest ring (lines 625 to 642): it is entered only with
  \<^verbatim>\<open>major_ring_only\<close> and more than one ring.
\<close>

definition take_major_ring :: "'p stages \<Rightarrow> 'p Mpoly \<Rightarrow> ('p, 'p Mpoly) run" where
  "take_major_ring st mp =
     (case biggest_loop (ring_area st) (rings mp) 0 (Finite 0, 0) of
        (biggest_area, best_idx) \<Rightarrow>
          if parent_id (rings mp ! best_idx) \<ge> 0 then
            fatal_error ''largest ring should not have a parent''
          else ret \<lparr>rings = [rings mp ! best_idx]\<rparr>)"

definition major_ring_pass :: "'p stages \<Rightarrow> bool \<Rightarrow> 'p Mpoly \<Rightarrow> ('p, 'p Mpoly) run" where
  "major_ring_pass st major_ring_only' mp =
     (if major_ring_only' \<and> length (rings mp) > 1 then take_major_ring st mp else ret mp)"

text \<open>The last block (lines 660 to 664): the call of the beveler, under its guard.\<close>

definition bevel_pass :: "'p stages \<Rightarrow> 'p Mpoly \<Rightarrow> double \<Rightarrow> ('p, 'p Mpoly) run" where
  "bevel_pass st mp bevel_size' =
     (if rings mp \<noteq> [] \<and> dgreater bevel_size' (Finite 0) then
        call (Call_bevel_self_intersections mp bevel_size')
          (bevel_self_intersections st mp bevel_size')
      else ret mp)"

definition calc_ring_from_mask ::
  "'p stages \<Rightarrow> BitGrid \<Rightarrow> nat \<Rightarrow> nat \<Rightarrow> bool \<Rightarrow> bool \<Rightarrow> int \<Rightarrow> double \<Rightarrow> ('p, 'p Mpoly) run" where
  "calc_ring_from_mask st msk w h major_ring_only' no_donuts' min_ring_area' bevel_size' =
     (let no_donuts' = (if major_ring_only' then True else no_donuts') in
      and_then (call (Call_trace_mask msk w h min_ring_area' no_donuts')
                  (trace_mask st msk w h min_ring_area' no_donuts')) (\<lambda>mp.
      and_then (major_ring_pass st major_ring_only' mp) (\<lambda>mp.
      bevel_pass st mp bevel_size')))"

subsection \<open>The body of the class loop\<close>

text \<open>
  The export of one shape to one output (the body of the innermost loop): the shape is
  copied, the copy is mapped to the coordinate system of the output, and the result is
  written. The class field of an OGR feature is set in classify mode, its colour fields
  when the band has a colour table with an entry for the class.
\<close>

definition write_geom :: "config \<Rightarrow> world \<Rightarrow> nat \<Rightarrow> nat \<Rightarrow> geom_output \<Rightarrow> 'p Mpoly \<Rightarrow> 'p call list" where
  "write_geom c wd class_id go_idx go proj_poly =
     (if wkt_fn go \<noteq> None then [Write_wkt go_idx proj_poly] else []) @
     (if wkb_fn go \<noteq> None then [Write_wkb go_idx proj_poly] else []) @
     (if ogr_fn go \<noteq> None then
        [Write_ogr go_idx (if classify c then Some class_id else None)
           (if classify c then
              (case color_table wd of None \<Rightarrow> None | Some tab \<Rightarrow> tab class_id)
            else None)
           proj_poly]
      else [])"

definition export_geom ::
  "config \<Rightarrow> world \<Rightarrow> 'p stages \<Rightarrow> nat \<Rightarrow> 'p Mpoly \<Rightarrow> nat \<Rightarrow> geom_output \<Rightarrow> ('p, unit) run" where
  "export_geom c wd st class_id poly_in go_idx go =
     and_then
       (case out_cs go of
          CS_XY \<Rightarrow> ret poly_in
        | CS_EN \<Rightarrow> call (Call_xy2en poly_in) (xy2en st poly_in)
        | CS_LL \<Rightarrow> call (Call_xy2ll_with_interp poly_in (llproj_toler c))
                    (xy2ll_with_interp st poly_in (llproj_toler c))
        | CS_UNKNOWN \<Rightarrow> fatal_error ''bad val for out_cs'') (\<lambda>proj_poly.
     (write_geom c wd class_id go_idx go proj_poly, Inr ()))"

fun write_shape ::
  "config \<Rightarrow> world \<Rightarrow> 'p stages \<Rightarrow> nat \<Rightarrow> 'p Mpoly \<Rightarrow> nat \<Rightarrow> geom_output list \<Rightarrow> ('p, unit) run" where
  "write_shape c wd st class_id poly_in go_idx [] = ret ()"
| "write_shape c wd st class_id poly_in go_idx (go # gos) =
     and_then (export_geom c wd st class_id poly_in go_idx go) (\<lambda>u.
     write_shape c wd st class_id poly_in (go_idx + 1) gos)"

fun write_shapes ::
  "config \<Rightarrow> world \<Rightarrow> 'p stages \<Rightarrow> nat \<Rightarrow> 'p Mpoly list \<Rightarrow> ('p, nat) run" where
  "write_shapes c wd st class_id [] = ret 0"
| "write_shapes c wd st class_id (poly_in # shapes) =
     and_then (write_shape c wd st class_id poly_in 0 (geom_outputs c)) (\<lambda>u.
     and_then (write_shapes c wd st class_id shapes) (\<lambda>n. ret (n + 1)))"

text \<open>
  The blocks of one pass of the class loop, in the order of the source. First the part
  that yields the multipolygon in pixel coordinates: \<^verbatim>\<open>mask.invert()\<close>,
  \<^verbatim>\<open>mask.erode()\<close>, \<^verbatim>\<open>calc_ring_from_mask\<close> and the pinching of excursions
  (lines 437 to 453).
\<close>

definition pinch_pass :: "config \<Rightarrow> 'p stages \<Rightarrow> 'p Mpoly \<Rightarrow> ('p, 'p Mpoly) run" where
  "pinch_pass c st feature_poly =
     (if rings feature_poly \<noteq> [] \<and> do_pinch_excursions c then
        call (Call_pinch_excursions2 feature_poly) (pinch_excursions2 st feature_poly)
      else ret feature_poly)"

definition pixel_poly :: "config \<Rightarrow> world \<Rightarrow> 'p stages \<Rightarrow> BitGrid \<Rightarrow> ('p, 'p Mpoly) run" where
  "pixel_poly c wd st msk =
     and_then (if do_invert c then call (Call_invert msk) (BitGrid_invert st msk)
               else ret msk) (\<lambda>msk.
     and_then (if do_erosion c then call (Call_erode msk) (BitGrid_erode st msk)
               else ret msk) (\<lambda>msk.
     and_then (calc_ring_from_mask st msk (georef_w (init_georef wd)) (georef_h (init_georef wd))
                 (major_ring_only c) (no_donuts c) (min_ring_area c) (bevel_size c)) (\<lambda>feature_poly.
     pinch_pass c st feature_poly)))"

text \<open>The mask export (lines 455 to 457).\<close>

definition mask_out_pass :: "config \<Rightarrow> world \<Rightarrow> 'p Mpoly \<Rightarrow> ('p, unit) run" where
  "mask_out_pass c wd feature_poly =
     (case mask_out_fn c of
        Some fn \<Rightarrow> call (Call_mask_from_mpoly feature_poly (georef_w (init_georef wd))
                          (georef_h (init_georef wd)) fn) ()
      | None \<Rightarrow> ret ())"

text \<open>The point reduction (lines 459 to 462).\<close>

definition reduce_pass :: "config \<Rightarrow> 'p stages \<Rightarrow> 'p Mpoly \<Rightarrow> ('p, 'p Mpoly) run" where
  "reduce_pass c st feature_poly =
     (if rings feature_poly \<noteq> [] \<and> dgreater (reduction_tolerance c) (Finite 0) then
        call (Call_compute_reduced_pointset feature_poly (reduction_tolerance c))
          (compute_reduced_pointset st feature_poly (reduction_tolerance c))
      else ret feature_poly)"

text \<open>
  The output stage (lines 464 to 545); the value is the number of shapes written.
\<close>

definition output_pass :: "config \<Rightarrow> world \<Rightarrow> 'p stages \<Rightarrow> nat \<Rightarrow> 'p Mpoly \<Rightarrow> ('p, nat) run" where
  "output_pass c wd st class_id feature_poly =
     (if rings feature_poly \<noteq> [] then
        and_then (if debug_report c \<noteq> None \<and> \<not> do_pinch_excursions c then
                    call (Call_debug_plot_mpoly feature_poly) ()
                  else ret ()) (\<lambda>u.
        if geom_outputs c \<noteq> [] \<and> rings feature_poly \<noteq> [] then
          write_shapes c wd st class_id
            (if split_polys c then split_mpoly_to_polys st feature_poly else [feature_poly])
        else ret 0)
      else ret 0)"

definition process_mask :: "config \<Rightarrow> world \<Rightarrow> 'p stages \<Rightarrow> nat \<Rightarrow> BitGrid \<Rightarrow> ('p, nat) run" where
  "process_mask c wd st class_id msk =
     and_then (pixel_poly c wd st msk) (\<lambda>feature_poly.
     and_then (mask_out_pass c wd feature_poly) (\<lambda>u.
     and_then (reduce_pass c st feature_poly) (\<lambda>feature_poly.
     output_pass c wd st class_id feature_poly)))"

subsection \<open>\<^verbatim>\<open>main\<close>\<close>

text \<open>The checks between the option loop and \<^verbatim>\<open>GDALOpen\<close>; the value is the file name.\<close>

definition check_options :: "nat \<Rightarrow> config \<Rightarrow> error + string" where
  "check_options nranges c =
     (case input_raster_fn c of
        None \<Rightarrow> Inl (Fatal ''must specify filename of image'')
      | Some fn \<Rightarrow>
          if major_ring_only c \<and> min_ring_area c \<noteq> 0 then
            Inl (Fatal ''-major-ring and -min-ring-area options cannot both be used at the same time'')
          else if major_ring_only c \<and> no_donuts c then
            Inl (Fatal ''-major-ring and -no-donuts options cannot both be used at the same time'')
          else if classify c \<and> nranges \<noteq> 0 then
            Inl (Fatal ''-classify option is not compatible with NDV options'')
          else if classify c \<and> do_invert c then
            Inl (Fatal ''-classify option is not compatible with -invert option'')
          else if classify c \<and> mask_out_fn c \<noteq> None then
            Inl (Fatal ''-classify option is not compatible with -mask-out option'')
          else Inr fn)"

text \<open>The loop over the outputs that checks the transforms each one needs.\<close>

fun check_georef :: "georef \<Rightarrow> geom_output list \<Rightarrow> error + unit" where
  "check_georef g [] = Inr ()"
| "check_georef g (go # gos) =
     (if (out_cs go = CS_EN \<or> out_cs go = CS_LL) \<and> \<not> fwd_affine g then
        Inl (Fatal ''missing affine transform'')
      else if out_cs go = CS_LL \<and> \<not> fwd_xform g then
        Inl (Fatal ''missing coordinate transform'')
      else check_georef g gos)"

definition open_output :: "world \<Rightarrow> geom_output \<Rightarrow> ('p, unit) run" where
  "open_output wd go =
     and_then (case wkt_fn go of
                 None \<Rightarrow> ret ()
               | Some fn \<Rightarrow> and_then (call (Call_fopen fn) (fopen wd fn)) (\<lambda>fh.
                   if fh then ret () else fatal_error ''cannot open output file for WKT'')) (\<lambda>u.
     and_then (case wkb_fn go of
                 None \<Rightarrow> ret ()
               | Some fn \<Rightarrow> and_then (call (Call_fopen fn) (fopen wd fn)) (\<lambda>fh.
                   if fh then ret () else fatal_error ''cannot open output file for WKB'')) (\<lambda>u.
     case ogr_fn go of
       None \<Rightarrow> ret ()
     | Some fn \<Rightarrow>
         (case ogr_fmt go of
            None \<Rightarrow> fatal_error ''no OGR format was specified''
          | Some fmt \<Rightarrow>
              and_then (call (Call_OGRGetDriverByName fmt) (OGRGetDriverByName wd fmt)) (\<lambda>drv.
              if \<not> drv then fatal_error (''cannot get OGR driver ('' @ fmt @ '')'')
              else
                and_then (call (Call_OGR_Dr_CreateDataSource fn)
                            (OGR_Dr_CreateDataSource wd fn)) (\<lambda>ds.
                if \<not> ds then fatal_error ''cannot create OGR data source''
                else
                  and_then (call (Call_OGR_DS_CreateLayer fn) (OGR_DS_CreateLayer wd fn)) (\<lambda>layer.
                  if \<not> layer then fatal_error ''cannot create OGR layer'' else ret ()))))))"

fun open_outputs :: "world \<Rightarrow> geom_output list \<Rightarrow> ('p, unit) run" where
  "open_outputs wd [] = ret ()"
| "open_outputs wd (go # gos) = and_then (open_output wd go) (\<lambda>u. open_outputs wd gos)"

text \<open>
  The loop over the class ids, with its variables \<^verbatim>\<open>mask\<close> and
  \<^verbatim>\<open>num_shapes_written\<close>. Without \<^verbatim>\<open>-classify\<close> only class 0 is processed,
  on the mask read from the dataset.
\<close>

fun class_loop ::
  "config \<Rightarrow> world \<Rightarrow> 'p stages \<Rightarrow> BitGrid \<Rightarrow> nat \<Rightarrow> nat list \<Rightarrow> ('p, nat) run" where
  "class_loop c wd st msk num_shapes_written [] = ret num_shapes_written"
| "class_loop c wd st msk num_shapes_written (class_id # ids) =
     (if classify c then
        if \<not> usage_array wd class_id then class_loop c wd st msk num_shapes_written ids
        else
          and_then (call (Call_get_bitgrid_for_8bit_raster class_id)
                      (get_bitgrid_for_8bit_raster wd class_id)) (\<lambda>msk.
          and_then (process_mask c wd st class_id msk) (\<lambda>n.
          class_loop c wd st (BitGrid_new 0 0) (num_shapes_written + n) ids))
      else if class_id \<noteq> 0 then class_loop c wd st msk num_shapes_written ids
      else
        and_then (process_mask c wd st class_id msk) (\<lambda>n.
        class_loop c wd st (BitGrid_new 0 0) (num_shapes_written + n) ids))"

text \<open>
  The work of \<^verbatim>\<open>main\<close> once the options are accepted, from \<^verbatim>\<open>GDALOpen\<close> on.
\<close>

definition run_outline :: "config \<Rightarrow> world \<Rightarrow> 'p stages \<Rightarrow> string \<Rightarrow> ('p, int) run" where
  "run_outline c wd st fn =
     and_then (call (Call_GDALOpen fn) (GDALOpen wd fn)) (\<lambda>ds.
     if \<not> ds then fatal_error ''open failed''
     else
       let bandids =
         (if inspect_bandids c = [] then
            map int [1..<Suc (if classify c then 1 else GDALGetRasterCount wd)]
          else inspect_bandids c)
       in
       and_then ([], check_georef (init_georef wd) (geom_outputs c)) (\<lambda>u.
       and_then (case debug_report c of
                   None \<Rightarrow> ret ()
                 | Some report \<Rightarrow> call (Call_create_plot (georef_w (init_georef wd))
                                      (georef_h (init_georef wd))) ()) (\<lambda>u.
       and_then (if classify c then
                   (case bandids of
                      [band] \<Rightarrow> call (Call_read_dataset_8bit band) (BitGrid_new 0 0)
                    | _ \<Rightarrow> fatal_error ''only one band may be used in classify mode'')
                 else call (Call_get_bitgrid_for_dataset bandids)
                        (get_bitgrid_for_dataset wd bandids)) (\<lambda>msk.
       and_then (open_outputs wd (geom_outputs c)) (\<lambda>u.
       and_then (class_loop c wd st msk 0 [0..<256]) (\<lambda>num_shapes_written.
       and_then (case debug_report c of
                   None \<Rightarrow> ret ()
                 | Some report \<Rightarrow> call (Call_write_plot report) ()) (\<lambda>u.
       ret 0)))))))"

text \<open>
  \<^verbatim>\<open>main\<close> on the arguments after the program name. A run ends in \<open>Inl\<close> when
  \<^verbatim>\<open>usage\<close> or \<^verbatim>\<open>fatal_error\<close> exits the process, in \<open>Inr 0\<close> when
  \<^verbatim>\<open>main\<close> returns.
\<close>

definition main :: "world \<Rightarrow> 'p stages \<Rightarrow> string list \<Rightarrow> ('p, int) run" where
  "main wd st argv =
     (if argv = [] then ([], Inl Usage)
      else
        (case init_ndv_options wd (init_geo_options wd argv) of
           (nranges, args) \<Rightarrow>
             (case parse_args (c_lib wd) initial_config args of
                Inl e \<Rightarrow> ([], Inl e)
              | Inr c \<Rightarrow>
                  (case check_options nranges c of
                     Inl e \<Rightarrow> ([], Inl e)
                   | Inr fn \<Rightarrow> run_outline c wd st fn))))"

subsection \<open>Reading the call log\<close>

text \<open>
  The component that a call belongs to. The calls to GDAL, OGR, the file system and the
  debug plot belong to none.
\<close>

datatype stage =
  MaskBuilder | BitGridOp | ContourTracer | Beveler | ExcursionPincher | Rasterizer
  | Simplifier | CoordinateMapper | Writer

fun stage_of :: "'p call \<Rightarrow> stage option" where
  "stage_of (Call_read_dataset_8bit band) = Some MaskBuilder"
| "stage_of (Call_get_bitgrid_for_dataset bands) = Some MaskBuilder"
| "stage_of (Call_get_bitgrid_for_8bit_raster v) = Some MaskBuilder"
| "stage_of (Call_invert g) = Some BitGridOp"
| "stage_of (Call_erode g) = Some BitGridOp"
| "stage_of (Call_trace_mask g w h a nd) = Some ContourTracer"
| "stage_of (Call_bevel_self_intersections mp b) = Some Beveler"
| "stage_of (Call_pinch_excursions2 mp) = Some ExcursionPincher"
| "stage_of (Call_mask_from_mpoly mp w h fn) = Some Rasterizer"
| "stage_of (Call_compute_reduced_pointset mp tol) = Some Simplifier"
| "stage_of (Call_xy2en mp) = Some CoordinateMapper"
| "stage_of (Call_xy2ll_with_interp mp tol) = Some CoordinateMapper"
| "stage_of (Write_wkt i mp) = Some Writer"
| "stage_of (Write_wkb i mp) = Some Writer"
| "stage_of (Write_ogr i cls col mp) = Some Writer"
| "stage_of ev = None"

definition stages_of :: "'p call list \<Rightarrow> stage list" where
  "stages_of calls = List.map_filter stage_of calls"

text \<open>The stages that transform the multipolygon of a mask.\<close>

fun is_pipeline_stage :: "stage \<Rightarrow> bool" where
  "is_pipeline_stage ContourTracer = True"
| "is_pipeline_stage Beveler = True"
| "is_pipeline_stage ExcursionPincher = True"
| "is_pipeline_stage Simplifier = True"
| "is_pipeline_stage CoordinateMapper = True"
| "is_pipeline_stage s = False"

text \<open>
  The order of the stages in the design overview: tracer, pincher, simplifier, beveler,
  mapper, then the writers.
\<close>

fun overview_rank :: "stage \<Rightarrow> nat" where
  "overview_rank ContourTracer = 0"
| "overview_rank ExcursionPincher = 1"
| "overview_rank Simplifier = 2"
| "overview_rank Beveler = 3"
| "overview_rank CoordinateMapper = 4"
| "overview_rank s = 5"

text \<open>
  The order of the stages in the driver: the operations on the bit grid, tracer, beveler,
  pincher, rasterizer, simplifier, and last the output stage, where mapping and writing
  alternate from one output to the next.
\<close>

fun driver_rank :: "stage \<Rightarrow> nat" where
  "driver_rank MaskBuilder = 0"
| "driver_rank BitGridOp = 0"
| "driver_rank ContourTracer = 1"
| "driver_rank Beveler = 2"
| "driver_rank ExcursionPincher = 3"
| "driver_rank Rasterizer = 4"
| "driver_rank Simplifier = 5"
| "driver_rank CoordinateMapper = 6"
| "driver_rank Writer = 6"

fun is_transform_stage :: "stage \<Rightarrow> bool" where
  "is_transform_stage ContourTracer = True"
| "is_transform_stage Beveler = True"
| "is_transform_stage ExcursionPincher = True"
| "is_transform_stage Simplifier = True"
| "is_transform_stage s = False"

text \<open>Within the export of one shape to one output, the mapping comes before the writing.\<close>

fun export_rank :: "stage \<Rightarrow> nat" where
  "export_rank CoordinateMapper = 0"
| "export_rank s = 1"

text \<open>The \<^verbatim>\<open>no_donuts\<close> argument of a call of the tracer.\<close>

fun no_donuts_arg :: "'p call \<Rightarrow> bool option" where
  "no_donuts_arg (Call_trace_mask g w h a nd) = Some nd"
| "no_donuts_arg ev = None"

text \<open>
  The ring at index \<open>i\<close> is the first ring of largest area: no ring has a bigger area,
  and every ring before it has a smaller one.
\<close>

definition is_first_largest :: "('p ring \<Rightarrow> double) \<Rightarrow> 'p ring list \<Rightarrow> nat \<Rightarrow> bool" where
  "is_first_largest area rs i =
     (i < length rs \<and> (\<forall>j < length rs. dgeq (area (rs ! i)) (area (rs ! j))) \<and>
      (\<forall>j < i. dless (area (rs ! j)) (area (rs ! i))))"

text \<open>A call of a coordinate mapper that a call of the rasterizer follows.\<close>

definition mapper_then_rasterizer :: "stage \<Rightarrow> stage \<Rightarrow> bool" where
  "mapper_then_rasterizer a b = (a = CoordinateMapper \<and> b = Rasterizer)"

text \<open>
  An output asks for a transform that the raster lacks: longitude and latitude without
  the projected-to-geographic transform, or projected or geographic coordinates without
  the affine transform.
\<close>

definition lacks_transform :: "georef \<Rightarrow> geom_output \<Rightarrow> bool" where
  "lacks_transform g go =
     (out_cs go = CS_LL \<and> \<not> fwd_xform g \<or>
      (out_cs go = CS_EN \<or> out_cs go = CS_LL) \<and> \<not> fwd_affine g)"

subsection \<open>One pass of the class loop, call by call\<close>

text \<open>
  The calls that one pass of the class loop is to make, written as a list: the operations
  on the mask, the tracer, the beveler, the pincher, the rasterizer, the point reduction
  and the output stage, each under its condition and each on the multipolygon that the
  stage before it returned. The theorems compare the log of \<open>process_mask\<close> with this
  list.
\<close>

text \<open>
  The mask that reaches the tracer, inverted and eroded as the options ask, and the calls
  that produce it.
\<close>

definition traced_mask :: "config \<Rightarrow> 'p stages \<Rightarrow> BitGrid \<Rightarrow> BitGrid" where
  "traced_mask c st msk =
     (let m = (if do_invert c then BitGrid_invert st msk else msk) in
      if do_erosion c then BitGrid_erode st m else m)"

definition mask_calls :: "config \<Rightarrow> 'p stages \<Rightarrow> BitGrid \<Rightarrow> 'p call list" where
  "mask_calls c st msk =
     (if do_invert c then [Call_invert msk] else []) @
     (if do_erosion c then [Call_erode (if do_invert c then BitGrid_invert st msk else msk)]
      else [])"

text \<open>
  The call of the tracer on that mask with a given value of the hole suppression flag,
  and the multipolygon that the tracer returns for it.
\<close>

definition tracer_call :: "config \<Rightarrow> world \<Rightarrow> 'p stages \<Rightarrow> BitGrid \<Rightarrow> bool \<Rightarrow> 'p call" where
  "tracer_call c wd st msk suppress_holes =
     Call_trace_mask (traced_mask c st msk) (georef_w (init_georef wd)) (georef_h (init_georef wd))
       (min_ring_area c) suppress_holes"

definition traced :: "config \<Rightarrow> world \<Rightarrow> 'p stages \<Rightarrow> BitGrid \<Rightarrow> bool \<Rightarrow> 'p Mpoly" where
  "traced c wd st msk suppress_holes =
     trace_mask st (traced_mask c st msk) (georef_w (init_georef wd)) (georef_h (init_georef wd))
       (min_ring_area c) suppress_holes"

text \<open>
  The three stages that follow the tracer. Each has the condition under which it is
  applied and the multipolygon that leaves it: the beveler works on a multipolygon with
  rings when the bevel size is positive, the pincher on one with rings when
  \<^verbatim>\<open>-pinch-excursions\<close> is given, the point reduction on one with rings when the
  tolerance is positive.
\<close>

definition bevel_on :: "config \<Rightarrow> 'p Mpoly \<Rightarrow> bool" where
  "bevel_on c mp = (rings mp \<noteq> [] \<and> dgreater (bevel_size c) (Finite 0))"

definition bevelled :: "config \<Rightarrow> 'p stages \<Rightarrow> 'p Mpoly \<Rightarrow> 'p Mpoly" where
  "bevelled c st mp =
     (if bevel_on c mp then bevel_self_intersections st mp (bevel_size c) else mp)"

definition pinch_on :: "config \<Rightarrow> 'p Mpoly \<Rightarrow> bool" where
  "pinch_on c mp = (rings mp \<noteq> [] \<and> do_pinch_excursions c)"

definition pinched :: "config \<Rightarrow> 'p stages \<Rightarrow> 'p Mpoly \<Rightarrow> 'p Mpoly" where
  "pinched c st mp = (if pinch_on c mp then pinch_excursions2 st mp else mp)"

definition reduce_on :: "config \<Rightarrow> 'p Mpoly \<Rightarrow> bool" where
  "reduce_on c mp = (rings mp \<noteq> [] \<and> dgreater (reduction_tolerance c) (Finite 0))"

definition reduced :: "config \<Rightarrow> 'p stages \<Rightarrow> 'p Mpoly \<Rightarrow> 'p Mpoly" where
  "reduced c st mp =
     (if reduce_on c mp then compute_reduced_pointset st mp (reduction_tolerance c) else mp)"

text \<open>
  The export of a shape to an output: the call of the mapper that the coordinate system
  of the output asks for (none for \<open>xy\<close>), the shape it returns, and then the writes of
  that shape.
\<close>

definition mapper_calls :: "config \<Rightarrow> geom_output \<Rightarrow> 'p Mpoly \<Rightarrow> 'p call list" where
  "mapper_calls c go shape =
     (case out_cs go of
        CS_EN \<Rightarrow> [Call_xy2en shape]
      | CS_LL \<Rightarrow> [Call_xy2ll_with_interp shape (llproj_toler c)]
      | CS_XY \<Rightarrow> []
      | CS_UNKNOWN \<Rightarrow> [])"

definition mapped :: "config \<Rightarrow> 'p stages \<Rightarrow> geom_output \<Rightarrow> 'p Mpoly \<Rightarrow> 'p Mpoly" where
  "mapped c st go shape =
     (case out_cs go of
        CS_EN \<Rightarrow> xy2en st shape
      | CS_LL \<Rightarrow> xy2ll_with_interp st shape (llproj_toler c)
      | CS_XY \<Rightarrow> shape
      | CS_UNKNOWN \<Rightarrow> shape)"

definition export_calls ::
  "config \<Rightarrow> world \<Rightarrow> 'p stages \<Rightarrow> nat \<Rightarrow> 'p Mpoly \<Rightarrow> nat \<times> geom_output \<Rightarrow> 'p call list" where
  "export_calls c wd st class_id shape igo =
     (case igo of (go_idx, go) \<Rightarrow>
        mapper_calls c go shape @ write_geom c wd class_id go_idx go (mapped c st go shape))"

text \<open>
  The output stage on a multipolygon: nothing without rings; otherwise the debug plot when
  it is asked for, and then every shape exported to every output in turn. The value is the
  number of shapes.
\<close>

definition shapes_of :: "config \<Rightarrow> 'p stages \<Rightarrow> 'p Mpoly \<Rightarrow> 'p Mpoly list" where
  "shapes_of c st mp = (if split_polys c then split_mpoly_to_polys st mp else [mp])"

definition output_calls :: "config \<Rightarrow> world \<Rightarrow> 'p stages \<Rightarrow> nat \<Rightarrow> 'p Mpoly \<Rightarrow> 'p call list" where
  "output_calls c wd st class_id mp =
     (if rings mp = [] then []
      else
        (if debug_report c \<noteq> None \<and> \<not> do_pinch_excursions c then [Call_debug_plot_mpoly mp]
         else []) @
        concat (map (\<lambda>shape. concat (map (export_calls c wd st class_id shape)
                                      (enumerate 0 (geom_outputs c))))
                  (shapes_of c st mp)))"

definition shapes_written :: "config \<Rightarrow> 'p stages \<Rightarrow> 'p Mpoly \<Rightarrow> nat" where
  "shapes_written c st mp =
     (if rings mp \<noteq> [] \<and> geom_outputs c \<noteq> [] then length (shapes_of c st mp) else 0)"

text \<open>Every output has a coordinate system.\<close>

definition outputs_known :: "config \<Rightarrow> bool" where
  "outputs_known c = (\<forall>go \<in> set (geom_outputs c). out_cs go \<noteq> CS_UNKNOWN)"

subsection \<open>The tracer and the rasterizer of the design\<close>

text \<open>
  The driver hands the mask to \<^verbatim>\<open>trace_mask\<close> and the multipolygon to
  \<^verbatim>\<open>mask_from_mpoly\<close>; neither function is among the sources. This section models
  both from the design document, on rings whose points are grid points, that is, pairs of
  integers.
\<close>

text \<open>
  Modelled from the spec: the reading of a pixel of a \<open>BitGrid\<close>
  (\<^verbatim>\<open>mask.h\<close> is not among the sources). A bit grid has one bit per
  pixel, by rows; the tracer treats everything beyond the grid border as background, so a
  pixel out of range reads as background.
\<close>

definition is_fg :: "BitGrid \<Rightarrow> int \<Rightarrow> int \<Rightarrow> bool" where
  "is_fg g x y =
     (0 \<le> x \<and> x < int (grid_w g) \<and> 0 \<le> y \<and> y < int (grid_h g) \<and> grid_rows g ! nat y ! nat x)"

text \<open>
  Modelled from the spec: the tracer (\<^verbatim>\<open>mask-tracer.cc\<close> is not
  among the sources) walks pixel edges on the grid lines. An edge of the walk is a grid
  point and the heading in which the edge leaves it; \<open>y\<close> grows downwards, as
  rows do.
\<close>

datatype heading = East | South | West | North

type_synonym edge = "(int \<times> int) \<times> heading"

text \<open>
  Modelled from the spec: the grid point where a pixel edge of the walk ends.
\<close>

fun edge_end :: "edge \<Rightarrow> int \<times> int" where
  "edge_end ((a, b), East) = (a + 1, b)"
| "edge_end ((a, b), South) = (a, b + 1)"
| "edge_end ((a, b), West) = (a - 1, b)"
| "edge_end ((a, b), North) = (a, b - 1)"

text \<open>
  Modelled from the spec: each foreground pixel is a unit square, and a pixel edge belongs
  to the boundary when it lies between a foreground pixel and a background pixel (or the
  grid border). The edges are directed with a consistent winding: the foreground pixel is
  always on the same side of the walk.
\<close>

fun is_boundary :: "BitGrid \<Rightarrow> edge \<Rightarrow> bool" where
  "is_boundary g ((a, b), East) = (is_fg g a b \<and> \<not> is_fg g a (b - 1))"
| "is_boundary g ((a, b), South) = (is_fg g (a - 1) b \<and> \<not> is_fg g a b)"
| "is_boundary g ((a, b), West) = (is_fg g (a - 1) (b - 1) \<and> \<not> is_fg g (a - 1) b)"
| "is_boundary g ((a, b), North) = (is_fg g a (b - 1) \<and> \<not> is_fg g (a - 1) (b - 1))"

text \<open>
  Modelled from the spec: the two turns of the walk at a grid point.
\<close>

fun turn_ccw :: "heading \<Rightarrow> heading" where
  "turn_ccw East = North" | "turn_ccw North = West" | "turn_ccw West = South" | "turn_ccw South = East"

fun turn_cw :: "heading \<Rightarrow> heading" where
  "turn_cw East = South" | "turn_cw South = West" | "turn_cw West = North" | "turn_cw North = East"

text \<open>
  Modelled from the spec: the walk of a boundary goes from one boundary edge to the
  boundary edge that leaves its end point. Where two boundaries meet at a point (two
  pixels that touch only diagonally), the walk takes the turn that joins the two pixels in
  one ring, which then revisits the point.
\<close>

definition next_edge :: "BitGrid \<Rightarrow> edge \<Rightarrow> edge" where
  "next_edge g e =
     (let q = edge_end e; d = snd e in
      if is_boundary g (q, turn_ccw d) then (q, turn_ccw d)
      else if is_boundary g (q, d) then (q, d)
      else (q, turn_cw d))"

text \<open>
  Modelled from the spec: the pixel edges of a grid, row by row.
\<close>

definition all_headings :: "heading list" where
  "all_headings = [East, South, West, North]"

definition grid_edges :: "BitGrid \<Rightarrow> edge list" where
  "grid_edges g =
     map (\<lambda>((b, a), d). ((a, b), d))
       (List.product (List.product [0..int (grid_h g)] [0..int (grid_w g)]) all_headings)"

text \<open>
  Modelled from the spec: the boundary edges of a mask, in scan order.
\<close>

definition boundary_edges :: "BitGrid \<Rightarrow> edge list" where
  "boundary_edges g = filter (is_boundary g) (grid_edges g)"

text \<open>
  Modelled from the spec: the walk that produces the closed boundary loops. It follows the
  boundary from edge to edge, taking each edge from the edges not yet walked; when the
  edge that follows is not among them the loop is complete (that edge is then the first
  edge of the loop, lemma \<open>walk_closes\<close>), and the walk goes on from the first
  edge not yet walked.
\<close>

function walk_loops :: "BitGrid \<Rightarrow> edge \<Rightarrow> edge list \<Rightarrow> edge list \<Rightarrow> edge list list" where
  "walk_loops g cur loop unused =
     (if next_edge g cur \<in> set unused then
        walk_loops g (next_edge g cur) (loop @ [next_edge g cur]) (remove1 (next_edge g cur) unused)
      else (case unused of [] \<Rightarrow> [loop] | e # rest \<Rightarrow> loop # walk_loops g e [e] rest))"
  by pat_completeness auto
termination
  by (relation "measure (\<lambda>(g, cur, loop, unused). length unused)")
     (auto simp: length_remove1 intro: diff_less dest: length_pos_if_in_set)

declare walk_loops.simps [simp del]

text \<open>
  Modelled from the spec: the closed boundary loops of a mask.
\<close>

definition trace_loops :: "BitGrid \<Rightarrow> edge list list" where
  "trace_loops g = (case boundary_edges g of [] \<Rightarrow> [] | e # rest \<Rightarrow> walk_loops g e [e] rest)"

text \<open>
  Modelled from the spec: the shoelace formula. \<open>signed_area2\<close> is twice the
  signed area of a ring of grid points, \<open>area2\<close> twice its unsigned area.
\<close>

fun shoelace :: "(int \<times> int) list \<Rightarrow> (int \<times> int) \<Rightarrow> int" where
  "shoelace [] p0 = 0"
| "shoelace [p] p0 = fst p * snd p0 - fst p0 * snd p"
| "shoelace (p # q # ps) p0 = fst p * snd q - fst q * snd p + shoelace (q # ps) p0"

definition signed_area2 :: "(int \<times> int) list \<Rightarrow> int" where
  "signed_area2 ps = (case ps of [] \<Rightarrow> 0 | p0 # qs \<Rightarrow> shoelace ps p0)"

definition area2 :: "(int \<times> int) ring \<Rightarrow> int" where
  "area2 r = \<bar>signed_area2 (pts r)\<bar>"

text \<open>
  Modelled from the spec: the containment test of the rasterizer
  (\<^verbatim>\<open>polygon-rasterizer.cc\<close> is not among the sources). The segment
  from \<open>p\<close> to \<open>q\<close> crosses the half-line that leaves the centre
  of pixel \<open>(x, y)\<close> towards growing \<open>x\<close>; with points on the grid
  the test is exact in integers.
\<close>

definition crosses :: "int \<times> int \<Rightarrow> int \<times> int \<Rightarrow> int \<Rightarrow> int \<Rightarrow> bool" where
  "crosses p q x y =
     (case (p, q) of ((a, b), (c, d)) \<Rightarrow>
        (b \<le> y) \<noteq> (d \<le> y) \<and>
        (if b < d then 0 < (2 * a - 2 * x - 1) * (d - b) + (2 * y + 1 - 2 * b) * (c - a)
         else (2 * a - 2 * x - 1) * (d - b) + (2 * y + 1 - 2 * b) * (c - a) < 0))"

text \<open>
  Modelled from the spec: a ring is a closed sequence of points, the first point
  connecting to the last; its segments join each point to the next one around the ring.
\<close>

definition ring_segments :: "'p list \<Rightarrow> ('p \<times> 'p) list" where
  "ring_segments ps = zip ps (rotate1 ps)"

text \<open>
  Modelled from the spec: the number of segments of a ring that the half-line of a pixel
  crosses; the pixel is inside the ring when the number is odd.
\<close>

definition crossings :: "(int \<times> int) list \<Rightarrow> int \<Rightarrow> int \<Rightarrow> nat" where
  "crossings ps x y = length (filter (\<lambda>(p, q). crosses p q x y) (ring_segments ps))"

definition inside_ring :: "(int \<times> int) ring \<Rightarrow> int \<Rightarrow> int \<Rightarrow> bool" where
  "inside_ring r x y = odd (crossings (pts r) x y)"

text \<open>
  Modelled from the spec: \<open>fill(mpoly, w, h)\<close>, the rasterizer. A pixel is
  foreground when it is inside an odd number of the rings of the multipolygon.
\<close>

definition fill :: "(int \<times> int) Mpoly \<Rightarrow> nat \<Rightarrow> nat \<Rightarrow> BitGrid" where
  "fill mp w h =
     \<lparr>grid_w = w, grid_h = h,
      grid_rows = map (\<lambda>y. map (\<lambda>x.
        odd (length (filter (\<lambda>r. inside_ring r (int x) (int y)) (rings mp)))) [0..<w]) [0..<h]\<rparr>"

text \<open>
  Modelled from the spec: the representative point of a hole, the background pixel at the
  first edge of its loop.
\<close>

fun bg_side :: "edge \<Rightarrow> int \<times> int" where
  "bg_side ((a, b), East) = (a, b - 1)"
| "bg_side ((a, b), South) = (a, b)"
| "bg_side ((a, b), West) = (a - 1, b)"
| "bg_side ((a, b), North) = (a - 1, b - 1)"

text \<open>
  Modelled from the spec: each loop becomes a ring, its points the grid points of the
  walk. The orientation of the walk classifies it: with the winding of
  \<open>is_boundary\<close> the signed area of an exterior ring is positive, that of a
  hole negative.
\<close>

definition loop_ring :: "edge list \<Rightarrow> (int \<times> int) ring" where
  "loop_ring loop =
     \<lparr>pts = map fst loop, is_hole = (signed_area2 (map fst loop) < 0), parent_id = - 1\<rparr>"

text \<open>
  Modelled from the spec: among candidate parents, the one of smallest area.
\<close>

fun pick_smallest :: "(int \<times> int) ring list \<Rightarrow> nat \<Rightarrow> nat list \<Rightarrow> nat" where
  "pick_smallest rs best [] = best"
| "pick_smallest rs best (j # js) =
     pick_smallest rs (if area2 (rs ! j) < area2 (rs ! best) then j else best) js"

text \<open>
  Modelled from the spec: nesting. The parent of a hole is the exterior ring of smallest
  area that contains the representative point of the hole; \<open>- 1\<close> stands for
  no parent.
\<close>

definition find_parent :: "(int \<times> int) ring list \<Rightarrow> int \<times> int \<Rightarrow> int" where
  "find_parent rs p =
     (case filter (\<lambda>j. \<not> is_hole (rs ! j) \<and> inside_ring (rs ! j) (fst p) (snd p)) [0..<length rs] of
        [] \<Rightarrow> - 1
      | j # js \<Rightarrow> int (pick_smallest rs j js))"

text \<open>
  Modelled from the spec: the rings of the loops, the holes with their parents; exterior
  rings have no parent.
\<close>

definition assemble_rings :: "edge list list \<Rightarrow> (int \<times> int) ring list" where
  "assemble_rings loops =
     map (\<lambda>loop.
       if is_hole (loop_ring loop) then
         (loop_ring loop)\<lparr>parent_id := find_parent (map loop_ring loops) (bg_side (hd loop))\<rparr>
       else loop_ring loop) loops"

text \<open>
  Modelled from the spec: the filters. A ring whose unsigned area is less than
  \<open>min_area\<close> is dropped, and so is a hole whose parent is dropped; with
  \<open>suppress_holes\<close> only the rings without parent are kept.
\<close>

definition keep_ring :: "(int \<times> int) ring list \<Rightarrow> int \<Rightarrow> bool \<Rightarrow> nat \<Rightarrow> bool" where
  "keep_ring rs min_area suppress_holes i =
     (2 * min_area \<le> area2 (rs ! i) \<and>
      (parent_id (rs ! i) < 0 \<or> 2 * min_area \<le> area2 (rs ! nat (parent_id (rs ! i)))) \<and>
      (suppress_holes \<longrightarrow> parent_id (rs ! i) < 0))"

text \<open>
  Modelled from the spec: the rings that are kept are renumbered, and the parent
  references follow.
\<close>

definition new_index :: "nat list \<Rightarrow> int \<Rightarrow> int" where
  "new_index kept p = (if p < 0 then - 1 else int (length (takeWhile (\<lambda>i. i \<noteq> nat p) kept)))"

definition filter_rings :: "(int \<times> int) ring list \<Rightarrow> int \<Rightarrow> bool \<Rightarrow> (int \<times> int) ring list" where
  "filter_rings rs min_area suppress_holes =
     (let kept = filter (keep_ring rs min_area suppress_holes) [0..<length rs]
      in map (\<lambda>i. (rs ! i)\<lparr>parent_id := new_index kept (parent_id (rs ! i))\<rparr>) kept)"

text \<open>
  Modelled from the spec: \<open>trace(mask, min_ring_area, suppress_holes)\<close>, the
  tracer.
\<close>

definition trace :: "BitGrid \<Rightarrow> int \<Rightarrow> bool \<Rightarrow> (int \<times> int) Mpoly" where
  "trace g min_area suppress_holes =
     \<lparr>rings = filter_rings (assemble_rings (trace_loops g)) min_area suppress_holes\<rparr>"

text \<open>
  Modelled from the spec: a bit grid of dimensions \<open>w\<close> by \<open>h\<close>
  has \<open>h\<close> rows of \<open>w\<close> bits.
\<close>

definition has_dims :: "BitGrid \<Rightarrow> nat \<Rightarrow> nat \<Rightarrow> bool" where
  "has_dims g w h =
     (grid_w g = w \<and> grid_h g = h \<and> length (grid_rows g) = h \<and>
      (\<forall>row \<in> set (grid_rows g). length row = w))"

subsection \<open>A sample world\<close>

text \<open>
  A small concrete world on which the driver can be run: parsers for short decimal
  numerals in the place of libc's, a raster \<^verbatim>\<open>dem.tif\<close> of 4 by 3 pixels with an affine
  transform and no transform to longitude and latitude, and stand-ins for the stages that
  work on rings of integer points and can be told apart by what they do to a point.
\<close>

definition digit_val :: "char \<Rightarrow> nat option" where
  "digit_val ch =
     (if 48 \<le> (of_char ch :: nat) \<and> (of_char ch :: nat) \<le> 57 then Some (of_char ch - 48)
      else None)"

fun read_digits :: "string \<Rightarrow> nat \<Rightarrow> nat \<Rightarrow> nat \<times> nat \<times> string" where
  "read_digits [] v k = (v, k, [])"
| "read_digits (ch # cs) v k =
     (case digit_val ch of
        None \<Rightarrow> (v, k, ch # cs)
      | Some d \<Rightarrow> read_digits cs (10 * v + d) (k + 1))"

definition read_sign :: "string \<Rightarrow> int \<times> string" where
  "read_sign s =
     (case s of
        [] \<Rightarrow> (1, s)
      | ch # cs \<Rightarrow> if ch = CHR ''-'' then (- 1, cs) else if ch = CHR ''+'' then (1, cs) else (1, s))"

definition sample_strtol :: "string \<Rightarrow> int \<times> string" where
  "sample_strtol s =
     (case read_sign s of (sgn', s1) \<Rightarrow>
        (case read_digits s1 0 0 of (v, k, rest) \<Rightarrow>
           if k = 0 then (0, s) else (sgn' * int v, rest)))"

definition sample_strtod :: "string \<Rightarrow> double \<times> string" where
  "sample_strtod s =
     (case read_sign s of (sgn', s1) \<Rightarrow>
        (case read_digits s1 0 0 of (v, k, rest) \<Rightarrow>
           if k = 0 then (Finite 0, s)
           else
             (case rest of
                [] \<Rightarrow> (Finite (of_int (sgn' * int v)), rest)
              | ch # cs \<Rightarrow>
                  if ch = CHR ''.'' then
                    (case read_digits cs 0 0 of (f, j, rest') \<Rightarrow>
                       (Finite (of_int sgn' * (of_nat v + of_nat f / 10 ^ j)), rest'))
                  else (Finite (of_int (sgn' * int v)), rest))))"

definition sample_libc :: libc where
  "sample_libc = \<lparr>strtol = sample_strtol, strtod = sample_strtod\<rparr>"

definition sample_mask :: BitGrid where
  "sample_mask =
     \<lparr>grid_w = 4, grid_h = 3,
      grid_rows = [[True, True, True, False], [True, False, True, False], [True, True, True, False]]\<rparr>"

definition sample_world :: world where
  "sample_world =
     \<lparr>c_lib = sample_libc,
      init_geo_options = (\<lambda>args. args),
      init_ndv_options = (\<lambda>args. (0, args)),
      GDALOpen = (\<lambda>fn. fn = ''dem.tif''),
      GDALGetRasterCount = 1,
      init_georef = \<lparr>georef_w = 4, georef_h = 3, fwd_affine = True, fwd_xform = False\<rparr>,
      usage_array = (\<lambda>v. v = 1 \<or> v = 7),
      color_table = None,
      get_bitgrid_for_dataset = (\<lambda>bands. sample_mask),
      get_bitgrid_for_8bit_raster = (\<lambda>v. sample_mask),
      fopen = (\<lambda>fn. True),
      OGRGetDriverByName = (\<lambda>fmt. fmt = ''ESRI Shapefile''),
      OGR_Dr_CreateDataSource = (\<lambda>fn. True),
      OGR_DS_CreateLayer = (\<lambda>fn. True)\<rparr>"

definition map_points :: "('p \<Rightarrow> 'p) \<Rightarrow> 'p Mpoly \<Rightarrow> 'p Mpoly" where
  "map_points f mp = \<lparr>rings = map (\<lambda>r. r\<lparr>pts := map f (pts r)\<rparr>) (rings mp)\<rparr>"

definition sample_outer :: "(int \<times> int) ring" where
  "sample_outer = \<lparr>pts = [(0, 0), (3, 0), (3, 3), (0, 3)], is_hole = False, parent_id = - 1\<rparr>"

definition sample_hole :: "(int \<times> int) ring" where
  "sample_hole = \<lparr>pts = [(1, 1), (1, 2), (2, 2), (2, 1)], is_hole = True, parent_id = 0\<rparr>"

definition sample_area :: "(int \<times> int) ring \<Rightarrow> double" where
  "sample_area r = (case pts r of [] \<Rightarrow> Finite 0 | p0 # ps \<Rightarrow> Finite (\<bar>of_int (shoelace (pts r) p0)\<bar> / 2))"

definition sample_stages :: "(int \<times> int) stages" where
  "sample_stages =
     \<lparr>BitGrid_invert = (\<lambda>g. g\<lparr>grid_rows := map (map Not) (grid_rows g)\<rparr>),
      BitGrid_erode = (\<lambda>g. g),
      trace_mask = (\<lambda>msk w h area nd.
        if \<not> (\<exists>row \<in> set (grid_rows msk). True \<in> set row) then \<lparr>rings = []\<rparr>
        else if nd then \<lparr>rings = [sample_outer]\<rparr>
        else \<lparr>rings = [sample_outer, sample_hole]\<rparr>),
      ring_area = sample_area,
      bevel_self_intersections = (\<lambda>mp b. map_points (\<lambda>(x, y). (2 * x, 2 * y)) mp),
      pinch_excursions2 = (\<lambda>mp. map_points (\<lambda>(x, y). (x + 1, y)) mp),
      compute_reduced_pointset = (\<lambda>mp tol. \<lparr>rings = map (\<lambda>r. r\<lparr>pts := take 3 (pts r)\<rparr>) (rings mp)\<rparr>),
      split_mpoly_to_polys = (\<lambda>mp. map (\<lambda>r. \<lparr>rings = [r]\<rparr>) (rings mp)),
      xy2en = (\<lambda>mp. map_points (\<lambda>(x, y). (500000 + 30 * x, 7000000 - 30 * y)) mp),
      xy2ll_with_interp = (\<lambda>mp tol. map_points (\<lambda>(x, y). (x - 150, 60 - y)) mp)\<rparr>"

subsection \<open>Auxiliary notions for the proofs\<close>

definition ranked :: "(stage \<Rightarrow> nat) \<Rightarrow> nat \<Rightarrow> nat \<Rightarrow> stage list \<Rightarrow> bool" where
  "ranked r lo hi ss = (sorted_wrt (\<lambda>a b. r a \<le> r b) ss \<and> (\<forall>s \<in> set ss. lo \<le> r s \<and> r s \<le> hi))"

definition strictly_ranked :: "(stage \<Rightarrow> nat) \<Rightarrow> nat \<Rightarrow> nat \<Rightarrow> stage list \<Rightarrow> bool" where
  "strictly_ranked r lo hi ss = (sorted_wrt (\<lambda>a b. r a < r b) ss \<and> (\<forall>s \<in> set ss. lo \<le> r s \<and> r s < hi))"

definition transform_stages :: "'p call list \<Rightarrow> stage list" where
  "transform_stages calls = filter is_transform_stage (stages_of calls)"

text \<open>
  For the proof of the round trip: the loops that close on themselves and the invariant
  of the walk, the boundary edges that the half-line of a pixel crosses, and the columns
  to the right of a pixel where its row changes between background and foreground.
\<close>

definition crosses_edge :: "int \<Rightarrow> int \<Rightarrow> edge \<Rightarrow> bool" where
  "crosses_edge x y e = crosses (fst e) (edge_end e) x y"

definition change_edge :: "BitGrid \<Rightarrow> int \<Rightarrow> int \<Rightarrow> edge" where
  "change_edge g y a = (if is_fg g (a - 1) y then ((a, y), South) else ((a, y + 1), North))"

definition changes_right :: "BitGrid \<Rightarrow> int \<Rightarrow> int \<Rightarrow> int set" where
  "changes_right g y x = {a. x < a \<and> is_fg g (a - 1) y \<noteq> is_fg g a y}"

definition closed_loop :: "BitGrid \<Rightarrow> edge list \<Rightarrow> bool" where
  "closed_loop g loop =
     (loop \<noteq> [] \<and> successively (\<lambda>a b. b = next_edge g a) loop \<and> next_edge g (last loop) = hd loop)"

definition walk_inv :: "BitGrid \<Rightarrow> edge \<Rightarrow> edge list \<Rightarrow> edge list \<Rightarrow> bool" where
  "walk_inv g cur loop unused =
     (loop \<noteq> [] \<and> last loop = cur \<and> successively (\<lambda>a b. b = next_edge g a) loop \<and>
      distinct (loop @ unused) \<and> (\<forall>e \<in> set (loop @ unused). is_boundary g e) \<and>
      (\<forall>e. is_boundary g e \<and> e \<notin> set (loop @ unused) \<longrightarrow> next_edge g e \<notin> set (loop @ unused)))"

definition sample_config :: config where
  "sample_config =
     initial_config\<lparr>input_raster_fn := Some ''dem.tif'', do_pinch_excursions := True,
       mask_out_fn := Some ''mask.pbm'', cur_out_cs := CS_EN,
       geom_outputs := [\<lparr>out_cs = CS_EN, wkt_fn = Some ''outline.wkt'', wkb_fn = None,
                          ogr_fn = None, ogr_fmt = None\<rparr>]\<rparr>"

definition empty_mask :: BitGrid where
  "empty_mask = BitGrid_new 4 3"

text \<open>The multipolygon that the sample run hands to the rasterizer.\<close>

definition sample_pixel_poly :: "(int \<times> int) Mpoly" where
  "sample_pixel_poly =
     \<lparr>rings =
        [\<lparr>pts = [(1, 0), (7, 0), (7, 6), (1, 6)], is_hole = False, parent_id = - 1\<rparr>,
         \<lparr>pts = [(3, 2), (3, 4), (5, 4), (5, 2)], is_hole = True, parent_id = 0\<rparr>]\<rparr>"

text \<open>The outer sample ring, recorded as the child of ring 0.\<close>

definition nested_outer :: "(int \<times> int) ring" where
  "nested_outer = sample_outer\<lparr>parent_id := 0\<rparr>"

text \<open>A tracer that returns the hole and then the outer ring recorded as a child.\<close>

definition nested_stages :: "(int \<times> int) stages" where
  "nested_stages = sample_stages\<lparr>trace_mask := (\<lambda>msk w h min_area suppress_holes.
     \<lparr>rings = [sample_hole, nested_outer]\<rparr>)\<rparr>"

text \<open>
  For the round trip on the sample: the stages with the tracer of the design, a
  configuration with \<^verbatim>\<open>-bevel-size 0\<close> and \<^verbatim>\<open>-mask-out\<close>, and a mask of two rows
  whose pixels touch only diagonally.
\<close>

definition design_stages :: "(int \<times> int) stages" where
  "design_stages = sample_stages\<lparr>trace_mask := (\<lambda>msk w h min_ring_area' no_donuts'.
     trace msk min_ring_area' no_donuts')\<rparr>"

definition round_trip_config :: config where
  "round_trip_config =
     initial_config\<lparr>input_raster_fn := Some ''dem.tif'', bevel_size := Finite 0,
       mask_out_fn := Some ''mask.pbm''\<rparr>"

definition diagonal_mask :: BitGrid where
  "diagonal_mask =
     \<lparr>grid_w = 3, grid_h = 2, grid_rows = [[True, False, True], [False, True, False]]\<rparr>"
section \<open>Properties of the driver\<close>

subsection \<open>Runs and their call logs\<close>

lemma and_then_ret [simp]: "and_then (ret v) f = f v"
  by (simp add: and_then_def ret_def split: prod.splits)

lemma and_then_fatal [simp]: "and_then (fatal_error m) f = fatal_error m"
  by (simp add: and_then_def fatal_error_def)

lemma and_then_call [simp]: "and_then (call ev v) f = (ev # fst (f v), snd (f v))"
  by (simp add: and_then_def call_def split: prod.splits)

lemma fst_and_then:
  "fst (and_then m f) = fst m @ (case snd m of Inl e \<Rightarrow> [] | Inr v \<Rightarrow> fst (f v))"
  by (cases m) (simp add: and_then_def split: sum.splits prod.splits)

lemma snd_and_then:
  "snd (and_then m f) = (case snd m of Inl e \<Rightarrow> Inl e | Inr v \<Rightarrow> snd (f v))"
  by (cases m) (simp add: and_then_def split: sum.splits prod.splits)

lemma fst_ret [simp]: "fst (ret v) = []" and snd_ret [simp]: "snd (ret v) = Inr v"
  by (simp_all add: ret_def)

lemma fst_fatal [simp]: "fst (fatal_error m) = []"
  and snd_fatal [simp]: "snd (fatal_error m) = Inl (Fatal m)"
  by (simp_all add: fatal_error_def)

lemma fst_call [simp]: "fst (call ev v) = [ev]" and snd_call [simp]: "snd (call ev v) = Inr v"
  by (simp_all add: call_def)

lemma stages_of_Nil [simp]: "stages_of [] = []"
  by (simp add: stages_of_def map_filter_simps)

lemma stages_of_Cons:
  "stages_of (ev # calls) = (case stage_of ev of None \<Rightarrow> [] | Some s \<Rightarrow> [s]) @ stages_of calls"
  by (simp add: stages_of_def map_filter_simps split: option.splits)

lemma stages_of_append [simp]: "stages_of (xs @ ys) = stages_of xs @ stages_of ys"
  by (simp add: stages_of_def map_filter_def)

lemma stages_and_then:
  "stages_of (fst (and_then m f)) =
     stages_of (fst m) @ (case snd m of Inl e \<Rightarrow> [] | Inr v \<Rightarrow> stages_of (fst (f v)))"
  by (simp add: fst_and_then split: sum.splits)

lemma ranked_Nil [simp]: "ranked r lo hi []"
  by (simp add: ranked_def)

lemma ranked_single: "lo \<le> r s \<Longrightarrow> r s \<le> hi \<Longrightarrow> ranked r lo hi [s]"
  by (simp add: ranked_def)

lemma ranked_append:
  "ranked r lo mid xs \<Longrightarrow> ranked r mid hi ys \<Longrightarrow> lo \<le> mid \<Longrightarrow> mid \<le> hi \<Longrightarrow>
   ranked r lo hi (xs @ ys)"
  by (fastforce simp: ranked_def sorted_wrt_append)

lemma ranked_and_then:
  assumes "ranked r lo mid (stages_of (fst m))"
    and "\<And>v. ranked r mid hi (stages_of (fst (f v)))"
    and "lo \<le> mid" and "mid \<le> hi"
  shows "ranked r lo hi (stages_of (fst (and_then m f)))"
proof (cases "snd m")
  case (Inl e)
  have "ranked r lo hi (stages_of (fst m) @ [])"
    using assms(1,3,4) by (intro ranked_append[where mid = mid]) simp_all
  with Inl show ?thesis by (simp add: stages_and_then)
next
  case (Inr v)
  with ranked_append[OF assms(1) assms(2)[of v] assms(3,4)] show ?thesis
    by (simp add: stages_and_then)
qed

lemma strictly_ranked_Nil [simp]: "strictly_ranked r lo hi []"
  by (simp add: strictly_ranked_def)

lemma strictly_ranked_append:
  "strictly_ranked r lo mid xs \<Longrightarrow> strictly_ranked r mid hi ys \<Longrightarrow> lo \<le> mid \<Longrightarrow> mid \<le> hi \<Longrightarrow>
   strictly_ranked r lo hi (xs @ ys)"
  by (fastforce simp: strictly_ranked_def sorted_wrt_append)

lemma transform_stages_and_then:
  "transform_stages (fst (and_then m f)) =
     transform_stages (fst m) @ (case snd m of Inl e \<Rightarrow> [] | Inr v \<Rightarrow> transform_stages (fst (f v)))"
  by (simp add: transform_stages_def stages_and_then split: sum.splits)

lemma strictly_ranked_and_then:
  assumes "strictly_ranked r lo mid (transform_stages (fst m))"
    and "\<And>v. strictly_ranked r mid hi (transform_stages (fst (f v)))"
    and "lo \<le> mid" and "mid \<le> hi"
  shows "strictly_ranked r lo hi (transform_stages (fst (and_then m f)))"
proof (cases "snd m")
  case (Inl e)
  have "strictly_ranked r lo hi (transform_stages (fst m) @ [])"
    using assms(1,3,4) by (intro strictly_ranked_append[where mid = mid]) simp_all
  with Inl show ?thesis by (simp add: transform_stages_and_then)
next
  case (Inr v)
  with strictly_ranked_append[OF assms(1) assms(2)[of v] assms(3,4)] show ?thesis
    by (simp add: transform_stages_and_then)
qed

lemma ranked_single_iff [simp]: "ranked r lo hi [s] \<longleftrightarrow> lo \<le> r s \<and> r s \<le> hi"
  by (simp add: ranked_def)

lemma ranked_const: "(\<forall>s \<in> set ss. r s = k) \<Longrightarrow> lo \<le> k \<Longrightarrow> k \<le> hi \<Longrightarrow> ranked r lo hi ss"
  unfolding ranked_def by (induction ss) auto

lemma ranked_call:
  "(case stage_of ev of None \<Rightarrow> True | Some s \<Rightarrow> lo \<le> r s \<and> r s \<le> hi) \<Longrightarrow>
   ranked r lo hi (stages_of (fst (call ev v)))"
  by (simp add: stages_of_Cons split: option.splits)

lemma ranked_ret [simp]: "ranked r lo hi (stages_of (fst (ret v)))"
  by simp

lemma ranked_fatal [simp]: "ranked r lo hi (stages_of (fst (fatal_error m)))"
  by simp

lemma take_major_ring_calls [simp]: "fst (take_major_ring st mp) = []"
  by (simp add: take_major_ring_def split: prod.splits)

lemma major_ring_pass_calls [simp]: "fst (major_ring_pass st mr mp) = []"
  by (simp add: major_ring_pass_def)

lemma stages_bevel_pass:
  "stages_of (fst (bevel_pass st mp b)) =
     (if rings mp \<noteq> [] \<and> dgreater b (Finite 0) then [Beveler] else [])"
  by (simp add: bevel_pass_def stages_of_Cons)

lemma stages_calc_ring:
  "stages_of (fst (calc_ring_from_mask st msk w h mr nd a b)) =
     ContourTracer #
     (case snd (major_ring_pass st mr (trace_mask st msk w h a (if mr then True else nd))) of
        Inl e \<Rightarrow> []
      | Inr mp \<Rightarrow> if rings mp \<noteq> [] \<and> dgreater b (Finite 0) then [Beveler] else [])"
  by (simp add: calc_ring_from_mask_def Let_def stages_of_Cons stages_and_then stages_bevel_pass
      split: sum.splits)

lemma stages_pinch_pass:
  "stages_of (fst (pinch_pass c st fp)) =
     (if rings fp \<noteq> [] \<and> do_pinch_excursions c then [ExcursionPincher] else [])"
  by (simp add: pinch_pass_def stages_of_Cons)

lemma stages_mask_out_pass:
  "stages_of (fst (mask_out_pass c wd fp)) = (if mask_out_fn c \<noteq> None then [Rasterizer] else [])"
  by (simp add: mask_out_pass_def stages_of_Cons split: option.splits)

lemma stages_reduce_pass:
  "stages_of (fst (reduce_pass c st fp)) =
     (if rings fp \<noteq> [] \<and> dgreater (reduction_tolerance c) (Finite 0) then [Simplifier] else [])"
  by (simp add: reduce_pass_def stages_of_Cons)

lemma stages_write_geom: "set (stages_of (write_geom c wd cid i go pp)) \<subseteq> {Writer}"
  by (simp add: write_geom_def stages_of_Cons)

lemma ranked_write_geom:
  "lo \<le> r Writer \<Longrightarrow> r Writer \<le> hi \<Longrightarrow> ranked r lo hi (stages_of (write_geom c wd cid i go pp))"
  using stages_write_geom[of c wd cid i go pp]
  by (intro ranked_const[where k = "r Writer"]) auto

lemma ranked_export_geom:
  assumes "lo \<le> r CoordinateMapper" "r CoordinateMapper \<le> r Writer" "r Writer \<le> hi"
  shows "ranked r lo hi (stages_of (fst (export_geom c wd st cid poly i go)))"
  unfolding export_geom_def
proof (rule ranked_and_then[where mid = "r Writer"])
  show "ranked r lo (r Writer)
     (stages_of (fst (case out_cs go of
          CS_UNKNOWN \<Rightarrow> fatal_error ''bad val for out_cs''
        | CS_XY \<Rightarrow> ret poly
        | CS_EN \<Rightarrow> call (Call_xy2en poly) (xy2en st poly)
        | CS_LL \<Rightarrow> call (Call_xy2ll_with_interp poly (llproj_toler c))
                    (xy2ll_with_interp st poly (llproj_toler c)))))"
    using assms by (cases "out_cs go") (simp_all add: stages_of_Cons)
  show "ranked r (r Writer) hi (stages_of (fst (write_geom c wd cid i go v, Inr ())))" for v
    using assms by (simp add: ranked_write_geom)
  show "lo \<le> r Writer" "r Writer \<le> hi" using assms by simp_all
qed

lemma ranked_write_shape: "ranked driver_rank 6 6 (stages_of (fst (write_shape c wd st cid poly i gos)))"
  by (induction gos arbitrary: i) (auto intro!: ranked_and_then[where mid = 6] ranked_export_geom)

lemma ranked_write_shapes: "ranked driver_rank 6 6 (stages_of (fst (write_shapes c wd st cid shapes)))"
  by (induction shapes) (auto intro!: ranked_and_then[where mid = 6] ranked_write_shape)

lemma ranked_output_pass: "ranked driver_rank 6 6 (stages_of (fst (output_pass c wd st cid fp)))"
  unfolding output_pass_def
  by (auto intro!: ranked_and_then[where mid = 6] ranked_write_shapes simp: stages_of_Cons
      simp del: write_shapes.simps)

lemma ranked_calc_ring: "ranked driver_rank 1 2 (stages_of (fst (calc_ring_from_mask st msk w h mr nd a b)))"
  by (simp add: stages_calc_ring ranked_def split: sum.splits)

lemma ranked_mono: "ranked r lo hi ss \<Longrightarrow> lo' \<le> lo \<Longrightarrow> hi \<le> hi' \<Longrightarrow> ranked r lo' hi' ss"
  by (fastforce simp: ranked_def)

lemma ranked_pinch_pass: "ranked driver_rank 3 3 (stages_of (fst (pinch_pass c st fp)))"
  by (simp add: stages_pinch_pass)

lemma ranked_pixel_poly: "ranked driver_rank 0 3 (stages_of (fst (pixel_poly c wd st msk)))"
  unfolding pixel_poly_def
proof (rule ranked_and_then[where mid = 0])
  show "ranked driver_rank 0 0
     (stages_of (fst (if do_invert c then call (Call_invert msk) (BitGrid_invert st msk) else ret msk)))"
    by (simp add: stages_of_Cons)
  show "ranked driver_rank 0 3
     (stages_of (fst (and_then
        (if do_erosion c then call (Call_erode v) (BitGrid_erode st v) else ret v) (\<lambda>msk.
        and_then
          (calc_ring_from_mask st msk (georef_w (init_georef wd)) (georef_h (init_georef wd))
             (major_ring_only c) (no_donuts c) (min_ring_area c) (bevel_size c))
          (pinch_pass c st)))))" for v
  proof (rule ranked_and_then[where mid = 0])
    show "ranked driver_rank 0 0
       (stages_of (fst (if do_erosion c then call (Call_erode v) (BitGrid_erode st v) else ret v)))"
      by (simp add: stages_of_Cons)
    show "ranked driver_rank 0 3
       (stages_of (fst (and_then
          (calc_ring_from_mask st v' (georef_w (init_georef wd)) (georef_h (init_georef wd))
             (major_ring_only c) (no_donuts c) (min_ring_area c) (bevel_size c))
          (pinch_pass c st))))" for v'
      by (rule ranked_and_then[where mid = 3])
         (auto intro: ranked_mono[OF ranked_calc_ring] ranked_pinch_pass)
  qed simp_all
qed simp_all

lemma ranked_process_mask: "ranked driver_rank 0 6 (stages_of (fst (process_mask c wd st cid msk)))"
  unfolding process_mask_def
proof (rule ranked_and_then[where mid = 3])
  show "ranked driver_rank 0 3 (stages_of (fst (pixel_poly c wd st msk)))"
    by (rule ranked_pixel_poly)
  show "ranked driver_rank 3 6
     (stages_of (fst (and_then (mask_out_pass c wd v) (\<lambda>u.
        and_then (reduce_pass c st v) (output_pass c wd st cid)))))" for v
  proof (rule ranked_and_then[where mid = 4])
    show "ranked driver_rank 3 4 (stages_of (fst (mask_out_pass c wd v)))"
      by (simp add: stages_mask_out_pass)
    show "ranked driver_rank 4 6 (stages_of (fst (and_then (reduce_pass c st v) (output_pass c wd st cid))))" for u :: unit
      by (rule ranked_and_then[where mid = 6])
         (auto simp: stages_reduce_pass intro: ranked_output_pass)
  qed simp_all
qed simp_all

lemma strictly_ranked_single_iff [simp]: "strictly_ranked r lo hi [s] \<longleftrightarrow> lo \<le> r s \<and> r s < hi"
  by (simp add: strictly_ranked_def)

lemma transform_stages_Nil [simp]: "transform_stages [] = []"
  by (simp add: transform_stages_def)

lemma ranked_no_transform:
  "ranked driver_rank 6 6 (stages_of calls) \<Longrightarrow> transform_stages calls = []"
proof -
  assume b: "ranked driver_rank 6 6 (stages_of calls)"
  have "\<not> is_transform_stage s" if "s \<in> set (stages_of calls)" for s
  proof -
    from b that have "driver_rank s = 6" by (auto simp: ranked_def)
    then show ?thesis by (cases s) simp_all
  qed
  then show ?thesis by (simp add: transform_stages_def)
qed

lemma strictly_ranked_calc_ring:
  "strictly_ranked driver_rank 1 3 (transform_stages (fst (calc_ring_from_mask st msk w h mr nd a b)))"
  by (simp add: transform_stages_def stages_calc_ring strictly_ranked_def split: sum.splits)

lemma strictly_ranked_mono:
  "strictly_ranked r lo hi ss \<Longrightarrow> lo' \<le> lo \<Longrightarrow> hi \<le> hi' \<Longrightarrow> strictly_ranked r lo' hi' ss"
  by (fastforce simp: strictly_ranked_def)

lemma strictly_ranked_pixel_poly:
  "strictly_ranked driver_rank 0 4 (transform_stages (fst (pixel_poly c wd st msk)))"
  unfolding pixel_poly_def
proof (rule strictly_ranked_and_then[where mid = 0])
  show "strictly_ranked driver_rank 0 0
     (transform_stages (fst (if do_invert c then call (Call_invert msk) (BitGrid_invert st msk) else ret msk)))"
    by (simp add: transform_stages_def stages_of_Cons)
  show "strictly_ranked driver_rank 0 4
     (transform_stages (fst (and_then
        (if do_erosion c then call (Call_erode v) (BitGrid_erode st v) else ret v) (\<lambda>msk.
        and_then
          (calc_ring_from_mask st msk (georef_w (init_georef wd)) (georef_h (init_georef wd))
             (major_ring_only c) (no_donuts c) (min_ring_area c) (bevel_size c))
          (pinch_pass c st)))))" for v
  proof (rule strictly_ranked_and_then[where mid = 0])
    show "strictly_ranked driver_rank 0 0
       (transform_stages (fst (if do_erosion c then call (Call_erode v) (BitGrid_erode st v) else ret v)))"
      by (simp add: transform_stages_def stages_of_Cons)
    show "strictly_ranked driver_rank 0 4
       (transform_stages (fst (and_then
          (calc_ring_from_mask st v' (georef_w (init_georef wd)) (georef_h (init_georef wd))
             (major_ring_only c) (no_donuts c) (min_ring_area c) (bevel_size c))
          (pinch_pass c st))))" for v'
    proof (rule strictly_ranked_and_then[where mid = 3])
      show "strictly_ranked driver_rank 0 3
         (transform_stages (fst (calc_ring_from_mask st v' (georef_w (init_georef wd))
            (georef_h (init_georef wd)) (major_ring_only c) (no_donuts c) (min_ring_area c)
            (bevel_size c))))"
        by (rule strictly_ranked_mono[OF strictly_ranked_calc_ring]) simp_all
      show "strictly_ranked driver_rank 3 4 (transform_stages (fst (pinch_pass c st fp)))" for fp
        by (simp add: transform_stages_def stages_pinch_pass)
    qed simp_all
  qed simp_all
qed simp_all

lemma strictly_ranked_process_mask:
  "strictly_ranked driver_rank 0 6 (transform_stages (fst (process_mask c wd st cid msk)))"
  unfolding process_mask_def
proof (rule strictly_ranked_and_then[where mid = 4])
  show "strictly_ranked driver_rank 0 4 (transform_stages (fst (pixel_poly c wd st msk)))"
    by (rule strictly_ranked_pixel_poly)
  show "strictly_ranked driver_rank 4 6
     (transform_stages (fst (and_then (mask_out_pass c wd v) (\<lambda>u.
        and_then (reduce_pass c st v) (output_pass c wd st cid)))))" for v
  proof (rule strictly_ranked_and_then[where mid = 4])
    show "strictly_ranked driver_rank 4 4 (transform_stages (fst (mask_out_pass c wd v)))"
      by (simp add: transform_stages_def stages_mask_out_pass)
    show "strictly_ranked driver_rank 4 6
       (transform_stages (fst (and_then (reduce_pass c st v) (output_pass c wd st cid))))" for u :: unit
    proof (rule strictly_ranked_and_then[where mid = 6])
      show "strictly_ranked driver_rank 4 6 (transform_stages (fst (reduce_pass c st v)))"
        by (simp add: transform_stages_def stages_reduce_pass)
      show "strictly_ranked driver_rank 6 6 (transform_stages (fst (output_pass c wd st cid fp)))" for fp
        by (simp add: ranked_no_transform[OF ranked_output_pass])
    qed simp_all
  qed simp_all
qed simp_all

subsection \<open>The guard of the beveler\<close>


lemma bevel_pass_zero: "bevel_pass st mp (Finite 0) = ([], Inr mp)"
  by (simp add: bevel_pass_def dgreater_def ret_def)

lemma bevel_pass_empty: "rings mp = [] \<Longrightarrow> bevel_pass st mp b = ([], Inr mp)"
  by (simp add: bevel_pass_def ret_def)

lemma major_ring_pass_empty: "rings mp = [] \<Longrightarrow> major_ring_pass st mr mp = ret mp"
  by (simp add: major_ring_pass_def)

text \<open>
  Claim C3. With a bevel size of 0 the beveling block returns its multipolygon unchanged
  and makes no call, and so \<^verbatim>\<open>calc_ring_from_mask\<close> never calls the beveler; and
  whatever the bevel size, the beveler is not called on a multipolygon without rings.
\<close>

theorem bevel_zero_disabled:
  "bevel_pass st mp (Finite 0) = ([], Inr mp) \<and>
   (rings mp = [] \<longrightarrow> bevel_pass st mp b = ([], Inr mp)) \<and>
   Beveler \<notin> set (stages_of (fst (calc_ring_from_mask st msk w h mr nd a (Finite 0)))) \<and>
   (rings (trace_mask st msk w h a (if mr then True else nd)) = [] \<longrightarrow>
      Beveler \<notin> set (stages_of (fst (calc_ring_from_mask st msk w h mr nd a b))))"
  by (simp add: bevel_pass_zero bevel_pass_empty stages_calc_ring major_ring_pass_empty dgreater_def
      split: sum.splits)

text \<open>
  On the sample: no beveler call with size 0 or on the empty mask, one with the default
  size 0.1 on the sample mask.
\<close>

theorem bevel_zero_disabled_witness:
  "bevel_pass sample_stages \<lparr>rings = [sample_outer]\<rparr> (Finite 0) = ([], Inr \<lparr>rings = [sample_outer]\<rparr>) \<and>
   rings \<lparr>rings = ([] :: (int \<times> int) ring list)\<rparr> = [] \<and>
   bevel_pass sample_stages \<lparr>rings = []\<rparr> (Finite (1 / 10)) = ([], Inr \<lparr>rings = []\<rparr>) \<and>
   Beveler \<notin> set (stages_of (fst (calc_ring_from_mask sample_stages sample_mask 4 3 False False 0 (Finite 0)))) \<and>
   rings (trace_mask sample_stages empty_mask 4 3 0 False) = [] \<and>
   Beveler \<notin> set (stages_of (fst (calc_ring_from_mask sample_stages empty_mask 4 3 False False 0 (Finite (1 / 10))))) \<and>
   Beveler \<in> set (stages_of (fst (calc_ring_from_mask sample_stages sample_mask 4 3 False False 0 (Finite (1 / 10)))))"
proof -
  have e: "rings (trace_mask sample_stages empty_mask 4 3 0 (if False then True else False)) = []"
    by code_simp
  have p: "Beveler \<in> set (stages_of (fst (calc_ring_from_mask sample_stages sample_mask 4 3 False False 0 (Finite (1 / 10)))))"
    by code_simp
  from bevel_zero_disabled[of sample_stages "\<lparr>rings = [sample_outer]\<rparr>" "Finite (1 / 10)" sample_mask 4 3 False False 0]
    bevel_zero_disabled[of sample_stages "\<lparr>rings = []\<rparr>" "Finite (1 / 10)" empty_mask 4 3 False False 0]
    e p
  show ?thesis by simp
qed

subsection \<open>The guard of the point reduction\<close>


lemma reduce_pass_zero: "reduction_tolerance c = Finite 0 \<Longrightarrow> reduce_pass c st fp = ret fp"
  by (simp add: reduce_pass_def dgreater_def)

lemma ranked_avoid: "ranked r lo hi ss \<Longrightarrow> r s < lo \<or> hi < r s \<Longrightarrow> s \<notin> set ss"
  by (auto simp: ranked_def)

text \<open>
  Claim C4. With a reduction tolerance of 0 the reduction block returns its multipolygon
  unchanged and makes no call: the multipolygon that the output stage receives is the one
  that the preceding stage produced, and the simplifier is not called in the pass.
\<close>

theorem reduction_zero_is_noop:
  assumes "reduction_tolerance c = Finite 0"
  shows "reduce_pass c st feature_poly = ([], Inr feature_poly) \<and>
    process_mask c wd st class_id msk =
      and_then (pixel_poly c wd st msk) (\<lambda>feature_poly.
      and_then (mask_out_pass c wd feature_poly) (\<lambda>u.
      output_pass c wd st class_id feature_poly)) \<and>
    Simplifier \<notin> set (stages_of (fst (process_mask c wd st class_id msk)))"
proof -
  have r: "reduce_pass c st fp = ret fp" for fp
    using assms by (rule reduce_pass_zero)
  have p: "process_mask c wd st class_id msk =
      and_then (pixel_poly c wd st msk) (\<lambda>feature_poly.
      and_then (mask_out_pass c wd feature_poly) (\<lambda>u.
      output_pass c wd st class_id feature_poly))"
    by (simp add: process_mask_def r)
  have "ranked driver_rank 0 6 (stages_of (fst (and_then (pixel_poly c wd st msk) (\<lambda>feature_poly.
      and_then (mask_out_pass c wd feature_poly) (\<lambda>u.
      output_pass c wd st class_id feature_poly)))))"
    using ranked_process_mask[of c wd st class_id msk] by (simp add: p)
  have s: "Simplifier \<notin> set (stages_of (fst (pixel_poly c wd st msk)))"
    by (rule ranked_avoid[OF ranked_pixel_poly]) simp
  have t: "Simplifier \<notin> set (stages_of (fst (output_pass c wd st class_id fp)))" for fp
    by (rule ranked_avoid[OF ranked_output_pass]) simp
  have "Simplifier \<notin> set (stages_of (fst (process_mask c wd st class_id msk)))"
    unfolding p using s t
    by (auto simp: stages_and_then stages_mask_out_pass split: sum.splits)
  with p show ?thesis by (simp add: r ret_def)
qed

text \<open>
  On the sample: no simplifier call with tolerance 0, one with the default tolerance 2.
\<close>

theorem reduction_zero_is_noop_witness:
  "reduction_tolerance (sample_config\<lparr>reduction_tolerance := Finite 0\<rparr>) = Finite 0 \<and>
   reduce_pass (sample_config\<lparr>reduction_tolerance := Finite 0\<rparr>) sample_stages \<lparr>rings = [sample_outer]\<rparr>
     = ([], Inr \<lparr>rings = [sample_outer]\<rparr>) \<and>
   Simplifier \<notin> set (stages_of (fst (process_mask (sample_config\<lparr>reduction_tolerance := Finite 0\<rparr>)
      sample_world sample_stages 0 sample_mask))) \<and>
   Simplifier \<in> set (stages_of (fst (process_mask sample_config sample_world sample_stages 0 sample_mask)))"
proof -
  have h: "reduction_tolerance (sample_config\<lparr>reduction_tolerance := Finite 0\<rparr>) = Finite 0"
    by simp
  have p: "Simplifier \<in> set (stages_of (fst (process_mask sample_config sample_world sample_stages 0 sample_mask)))"
    by code_simp
  note t = reduction_zero_is_noop[OF h, of sample_stages "\<lparr>rings = [sample_outer]\<rparr>"
      sample_world 0 sample_mask]
  from t have a: "reduce_pass (sample_config\<lparr>reduction_tolerance := Finite 0\<rparr>) sample_stages
      \<lparr>rings = [sample_outer]\<rparr> = ([], Inr \<lparr>rings = [sample_outer]\<rparr>)"
    by (rule conjunct1)
  from t have b: "Simplifier \<notin> set (stages_of (fst (process_mask
      (sample_config\<lparr>reduction_tolerance := Finite 0\<rparr>) sample_world sample_stages 0 sample_mask)))"
    by (elim conjE)
  from h a b p show ?thesis by (intro conjI)
qed

subsection \<open>The arguments of the tracer\<close>


lemma map_filter_and_then:
  "List.map_filter g (fst (and_then m f)) =
     List.map_filter g (fst m) @ (case snd m of Inl e \<Rightarrow> [] | Inr v \<Rightarrow> List.map_filter g (fst (f v)))"
  by (simp add: fst_and_then map_filter_def split: sum.splits)

lemma no_donuts_args_empty:
  "stage_of ev \<noteq> Some ContourTracer \<Longrightarrow> no_donuts_arg ev = None"
  by (cases ev) simp_all

lemma map_filter_none: "(\<forall>x \<in> set xs. g x = None) \<Longrightarrow> List.map_filter g xs = []"
  by (induction xs) (simp_all add: map_filter_simps)

lemma stage_in_stages: "ev \<in> set calls \<Longrightarrow> stage_of ev = Some s \<Longrightarrow> s \<in> set (stages_of calls)"
  by (induction calls) (auto simp: stages_of_Cons split: option.splits)

lemma no_tracer_no_args:
  "ContourTracer \<notin> set (stages_of calls) \<Longrightarrow> List.map_filter no_donuts_arg calls = []"
  by (rule map_filter_none) (auto intro: no_donuts_args_empty dest: stage_in_stages)

lemma no_donuts_calc_ring:
  "List.map_filter no_donuts_arg (fst (calc_ring_from_mask st msk w h mr nd a b)) =
     [if mr then True else nd]"
proof -
  have "List.map_filter no_donuts_arg (fst (bevel_pass st mp b)) = []" for mp
    by (simp add: bevel_pass_def map_filter_simps)
  then show ?thesis
    by (simp add: calc_ring_from_mask_def Let_def map_filter_and_then map_filter_simps
        split: sum.splits)
qed

subsection \<open>The range check of the bevel size\<close>

lemma parse_option_no_value:
  "parse_option lc c arg None = Inr (c', took) \<Longrightarrow> \<not> took \<and> parse_option lc c arg nxt = Inr (c', False)"
  unfolding parse_option_def
  by (cases nxt; cases "starts_with_dash arg"; cases "input_raster_fn c")
     (simp_all split: if_splits)

lemma parse_args_append:
  "parse_args lc c pre = Inr c' \<Longrightarrow> parse_args lc c (pre @ post) = parse_args lc c' post"
proof (induction lc c pre rule: parse_args.induct)
  case (1 lc c)
  then show ?case by simp
next
  case (2 lc c arg)
  then obtain took where o: "parse_option lc c arg None = Inr (c', took)"
    by (auto split: sum.splits)
  show ?case
  proof (cases post)
    case Nil
    with 2 show ?thesis by simp
  next
    case (Cons v vs)
    from parse_option_no_value[OF o, of "Some v"] Cons show ?thesis by simp
  qed
next
  case (3 lc c arg v rest)
  then show ?case by (auto split: sum.splits if_splits)
qed


lemma main_unfold:
  "argv \<noteq> [] \<Longrightarrow> parse_args (c_lib wd) initial_config (snd (init_ndv_options wd (init_geo_options wd argv))) = Inr c \<Longrightarrow>
   main wd st argv =
     (case check_options (fst (init_ndv_options wd (init_geo_options wd argv))) c of
        Inl e \<Rightarrow> ([], Inl e)
      | Inr fn \<Rightarrow> run_outline c wd st fn)"
  by (cases "init_ndv_options wd (init_geo_options wd argv)") (simp add: main_def)

lemma main_parse_error:
  "argv \<noteq> [] \<Longrightarrow> parse_args (c_lib wd) initial_config (snd (init_ndv_options wd (init_geo_options wd argv))) = Inl e \<Longrightarrow>
   main wd st argv = ([], Inl e)"
  by (cases "init_ndv_options wd (init_geo_options wd argv)") (simp add: main_def)

lemma parse_bevel_size:
  "strtod lc v = (b, []) \<Longrightarrow>
   parse_args lc c (''-bevel-size'' # v # rest) =
     (if dless b (Finite 0) \<or> dgeq b (Finite 1) then
        Inl (Fatal ''-bevel-size must be in the range 0 <= bevel < 1'')
      else parse_args lc (c\<lparr>bevel_size := b\<rparr>) rest)"
  by (simp add: parse_option_def starts_with_dash_def)

lemma dgeq_not_dless: "dgeq b x \<Longrightarrow> \<not> dless b x"
  by (simp add: dgeq_def)

lemma dless_not_dgeq: "dless b x \<Longrightarrow> \<not> dgeq b x"
  by (simp add: dgeq_def)

text \<open>
  Claim C5. When the option loop, having accepted the options before it, comes to
  \<^verbatim>\<open>-bevel-size\<close> with a value that \<^verbatim>\<open>strtod\<close> reads as \<open>b\<close>: if \<open>b < 0\<close> or
  \<open>b \<ge> 1\<close> the run ends with the error message of the range check and an empty call log
  (nothing was opened, read or written); if \<open>0 \<le> b < 1\<close> the check passes and the loop
  goes on with the remaining arguments and the bevel size \<open>b\<close>.
\<close>

theorem bevel_size_range_check:
  assumes "argv \<noteq> []"
    and "snd (init_ndv_options wd (init_geo_options wd argv)) = pre @ ''-bevel-size'' # v # rest"
    and "parse_args (c_lib wd) initial_config pre = Inr c"
    and "strtod (c_lib wd) v = (b, [])"
  shows "(dless b (Finite 0) \<or> dgeq b (Finite 1) \<longrightarrow>
           main wd st argv = ([], Inl (Fatal ''-bevel-size must be in the range 0 <= bevel < 1''))) \<and>
         (dgeq b (Finite 0) \<and> dless b (Finite 1) \<longrightarrow>
           parse_args (c_lib wd) initial_config (pre @ ''-bevel-size'' # v # rest) =
           parse_args (c_lib wd) (c\<lparr>bevel_size := b\<rparr>) rest)"
proof -
  have p: "parse_args (c_lib wd) initial_config (pre @ ''-bevel-size'' # v # rest) =
     (if dless b (Finite 0) \<or> dgeq b (Finite 1) then
        Inl (Fatal ''-bevel-size must be in the range 0 <= bevel < 1'')
      else parse_args (c_lib wd) (c\<lparr>bevel_size := b\<rparr>) rest)"
    by (simp only: parse_args_append[OF assms(3)] parse_bevel_size[OF assms(4)])
  show ?thesis
  proof (intro conjI impI)
    assume "dless b (Finite 0) \<or> dgeq b (Finite 1)"
    with p have "parse_args (c_lib wd) initial_config
        (snd (init_ndv_options wd (init_geo_options wd argv))) =
        Inl (Fatal ''-bevel-size must be in the range 0 <= bevel < 1'')"
      by (simp add: assms(2))
    from main_parse_error[OF assms(1) this]
    show "main wd st argv = ([], Inl (Fatal ''-bevel-size must be in the range 0 <= bevel < 1''))" .
  next
    assume "dgeq b (Finite 0) \<and> dless b (Finite 1)"
    then have "\<not> (dless b (Finite 0) \<or> dgeq b (Finite 1))"
      by (auto dest: dgeq_not_dless dless_not_dgeq)
    with p show "parse_args (c_lib wd) initial_config (pre @ ''-bevel-size'' # v # rest) =
        parse_args (c_lib wd) (c\<lparr>bevel_size := b\<rparr>) rest"
      by simp
  qed
qed

text \<open>
  On the sample: \<^verbatim>\<open>-bevel-size 1.5\<close> is rejected, \<^verbatim>\<open>-bevel-size 0.25\<close> is accepted.
\<close>

theorem bevel_size_range_check_witness:
  "dgeq (Finite (3 / 2)) (Finite 1) \<and>
   main sample_world sample_stages [''dem.tif'', ''-bevel-size'', ''1.5'', ''-v''] =
     ([], Inl (Fatal ''-bevel-size must be in the range 0 <= bevel < 1'')) \<and>
   dgeq (Finite (1 / 4)) (Finite 0) \<and> dless (Finite (1 / 4)) (Finite 1) \<and>
   parse_args sample_libc initial_config ([''dem.tif''] @ ''-bevel-size'' # ''0.25'' # [''-v'']) =
     parse_args sample_libc (initial_config\<lparr>input_raster_fn := Some ''dem.tif'', bevel_size := Finite (1 / 4)\<rparr>) [''-v'']"
proof -
  have a: "[''dem.tif'', ''-bevel-size'', ''1.5'', ''-v''] \<noteq> ([] :: string list)"
    "[''dem.tif'', ''-bevel-size'', ''0.25'', ''-v''] \<noteq> ([] :: string list)"
    by simp_all
  have s1: "snd (init_ndv_options sample_world (init_geo_options sample_world
      [''dem.tif'', ''-bevel-size'', ''1.5'', ''-v''])) = [''dem.tif''] @ ''-bevel-size'' # ''1.5'' # [''-v'']"
    by (simp add: sample_world_def)
  have s2: "snd (init_ndv_options sample_world (init_geo_options sample_world
      [''dem.tif'', ''-bevel-size'', ''0.25'', ''-v''])) = [''dem.tif''] @ ''-bevel-size'' # ''0.25'' # [''-v'']"
    by (simp add: sample_world_def)
  have p: "parse_args (c_lib sample_world) initial_config [''dem.tif''] =
      Inr (initial_config\<lparr>input_raster_fn := Some ''dem.tif''\<rparr>)"
    by (simp add: parse_option_def starts_with_dash_def initial_config_def)
  have d1: "strtod (c_lib sample_world) ''1.5'' = (Finite (3 / 2), [])"
    by (simp add: sample_world_def sample_libc_def sample_strtod_def read_sign_def digit_val_def)
  have d2: "strtod (c_lib sample_world) ''0.25'' = (Finite (1 / 4), [])"
    by (simp add: sample_world_def sample_libc_def sample_strtod_def read_sign_def digit_val_def)
  have r1: "dgeq (Finite (3 / 2)) (Finite 1)" by (simp add: dgeq_def)
  have r2: "dgeq (Finite (1 / 4)) (Finite 0) \<and> dless (Finite (1 / 4)) (Finite 1)"
    by (simp add: dgeq_def)
  have l: "c_lib sample_world = sample_libc" by (simp add: sample_world_def)
  from bevel_size_range_check[OF a(1) s1 p d1, of sample_stages] r1
  have t1: "main sample_world sample_stages [''dem.tif'', ''-bevel-size'', ''1.5'', ''-v''] =
     ([], Inl (Fatal ''-bevel-size must be in the range 0 <= bevel < 1''))"
    by blast
  from bevel_size_range_check[OF a(2) s2 p d2, of sample_stages] r2
  have t2: "parse_args (c_lib sample_world) initial_config ([''dem.tif''] @ ''-bevel-size'' # ''0.25'' # [''-v'']) =
     parse_args (c_lib sample_world) (initial_config\<lparr>input_raster_fn := Some ''dem.tif'', bevel_size := Finite (1 / 4)\<rparr>) [''-v'']"
    by blast
  from r1 r2 t1 t2[unfolded l] show ?thesis by blast
qed

subsection \<open>Outputs that need a missing transform\<close>

lemma check_georef_lacks:
  "go \<in> set gos \<Longrightarrow> lacks_transform g go \<Longrightarrow>
   check_georef g gos = Inl (Fatal ''missing affine transform'') \<or>
   check_georef g gos = Inl (Fatal ''missing coordinate transform'')"
  by (induction gos) (auto simp: lacks_transform_def)

lemma and_then_Inl [simp]: "and_then (calls, Inl e) f = (calls, Inl e)"
  by (simp add: and_then_def)

lemma and_then_Inr: "and_then (calls, Inr v) f = (calls @ fst (f v), snd (f v))"
  by (simp add: and_then_def split: prod.splits)

lemma run_outline_georef_error:
  "check_georef (init_georef wd) (geom_outputs c) = Inl e \<Longrightarrow>
   run_outline c wd st fn =
     ([Call_GDALOpen fn], Inl (if GDALOpen wd fn then e else Fatal ''open failed''))"
  by (simp add: run_outline_def Let_def fatal_error_def)

text \<open>
  Claim C7. If the options are accepted and some configured output asks for a transform
  that the raster lacks, the run ends with a fatal error, its call log holds no call of
  the mask builder or of any stage, and the check of the transforms fails with one of its
  two messages.
\<close>

theorem missing_transform_rejected:
  assumes "argv \<noteq> []"
    and "parse_args (c_lib wd) initial_config
           (snd (init_ndv_options wd (init_geo_options wd argv))) = Inr c"
    and "go \<in> set (geom_outputs c)"
    and "lacks_transform (init_georef wd) go"
  shows "(\<exists>m. snd (main wd st argv) = Inl (Fatal m)) \<and>
         stages_of (fst (main wd st argv)) = [] \<and>
         (check_georef (init_georef wd) (geom_outputs c) = Inl (Fatal ''missing affine transform'') \<or>
          check_georef (init_georef wd) (geom_outputs c) = Inl (Fatal ''missing coordinate transform''))"
proof -
  note g = check_georef_lacks[OF assms(3,4)]
  then obtain m where m: "check_georef (init_georef wd) (geom_outputs c) = Inl (Fatal m)"
    by blast
  have "(\<exists>m. snd (main wd st argv) = Inl (Fatal m)) \<and> stages_of (fst (main wd st argv)) = []"
  proof (cases "check_options (fst (init_ndv_options wd (init_geo_options wd argv))) c")
    case (Inl e)
    then obtain m' where "e = Fatal m'"
      by (auto simp: check_options_def split: option.splits if_splits)
    with Inl show ?thesis by (simp add: main_unfold[OF assms(1,2)])
  next
    case (Inr fn)
    then show ?thesis
      by (simp add: main_unfold[OF assms(1,2)] run_outline_georef_error[OF m] stages_of_Cons)
  qed
  with g show ?thesis by blast
qed


text \<open>
  On the sample, whose raster has no transform to longitude and latitude:
  \<^verbatim>\<open>-out-cs ll\<close> is rejected right after the raster is opened.
\<close>

theorem missing_transform_rejected_witness:
  "[''dem.tif'', ''-out-cs'', ''ll'', ''-wkt-out'', ''outline.wkt''] \<noteq> ([] :: string list) \<and>
   lacks_transform (init_georef sample_world)
     \<lparr>out_cs = CS_LL, wkt_fn = Some ''outline.wkt'', wkb_fn = None, ogr_fn = None, ogr_fmt = None\<rparr> \<and>
   (\<exists>m. snd (main sample_world sample_stages
      [''dem.tif'', ''-out-cs'', ''ll'', ''-wkt-out'', ''outline.wkt'']) = Inl (Fatal m)) \<and>
   stages_of (fst (main sample_world sample_stages
      [''dem.tif'', ''-out-cs'', ''ll'', ''-wkt-out'', ''outline.wkt''])) = [] \<and>
   main sample_world sample_stages [''dem.tif'', ''-out-cs'', ''ll'', ''-wkt-out'', ''outline.wkt''] =
     ([Call_GDALOpen ''dem.tif''], Inl (Fatal ''missing coordinate transform''))"
proof -
  let ?go = "\<lparr>out_cs = CS_LL, wkt_fn = Some ''outline.wkt'', wkb_fn = None, ogr_fn = None,
      ogr_fmt = None\<rparr>"
  let ?c = "initial_config\<lparr>input_raster_fn := Some ''dem.tif'', cur_out_cs := CS_LL,
      geom_outputs := [?go]\<rparr>"
  have a: "[''dem.tif'', ''-out-cs'', ''ll'', ''-wkt-out'', ''outline.wkt''] \<noteq> ([] :: string list)"
    by simp
  have p: "parse_args (c_lib sample_world) initial_config
      (snd (init_ndv_options sample_world (init_geo_options sample_world
        [''dem.tif'', ''-out-cs'', ''ll'', ''-wkt-out'', ''outline.wkt'']))) = Inr ?c"
    by code_simp
  have g: "?go \<in> set (geom_outputs ?c)" by simp
  have l: "lacks_transform (init_georef sample_world) ?go"
    by (simp add: lacks_transform_def sample_world_def)
  have e: "main sample_world sample_stages
      [''dem.tif'', ''-out-cs'', ''ll'', ''-wkt-out'', ''outline.wkt''] =
     ([Call_GDALOpen ''dem.tif''], Inl (Fatal ''missing coordinate transform''))"
    by code_simp
  from missing_transform_rejected[OF a p g l, of sample_stages] a l e
  show ?thesis by blast
qed

subsection \<open>Options that exclude each other\<close>

text \<open>
  Claim C10, as the driver has it. If the options are accepted and \<^verbatim>\<open>-major-ring\<close> is
  set together with \<^verbatim>\<open>-no-donuts\<close> or with a minimum ring area other than 0, the run
  ends with a fatal error and an empty call log: no raster is opened and nothing is
  written. The test of the driver is on the value of \<^verbatim>\<open>min_ring_area\<close>, not on the
  presence of the option.
\<close>

theorem major_ring_conflicts_rejected:
  assumes "argv \<noteq> []"
    and "parse_args (c_lib wd) initial_config
           (snd (init_ndv_options wd (init_geo_options wd argv))) = Inr c"
    and "major_ring_only c"
    and "min_ring_area c \<noteq> 0 \<or> no_donuts c"
  shows "main wd st argv =
     ([], Inl (Fatal
        (if input_raster_fn c = None then ''must specify filename of image''
         else if min_ring_area c \<noteq> 0 then
           ''-major-ring and -min-ring-area options cannot both be used at the same time''
         else ''-major-ring and -no-donuts options cannot both be used at the same time'')))"
  using assms(3,4)
  by (auto simp: main_unfold[OF assms(1,2)] check_options_def split: option.splits)

text \<open>
  On the sample: both combinations are rejected.
\<close>

theorem major_ring_conflicts_rejected_witness:
  "main sample_world sample_stages
     [''dem.tif'', ''-major-ring'', ''-min-ring-area'', ''5'', ''-out-cs'', ''xy'', ''-wkt-out'', ''outline.wkt''] =
     ([], Inl (Fatal ''-major-ring and -min-ring-area options cannot both be used at the same time'')) \<and>
   main sample_world sample_stages
     [''dem.tif'', ''-no-donuts'', ''-major-ring'', ''-out-cs'', ''xy'', ''-wkt-out'', ''outline.wkt''] =
     ([], Inl (Fatal ''-major-ring and -no-donuts options cannot both be used at the same time''))"
proof -
  let ?go = "\<lparr>out_cs = CS_XY, wkt_fn = Some ''outline.wkt'', wkb_fn = None, ogr_fn = None,
      ogr_fmt = None\<rparr>"
  let ?c1 = "initial_config\<lparr>input_raster_fn := Some ''dem.tif'', major_ring_only := True,
      min_ring_area := 5, cur_out_cs := CS_XY, geom_outputs := [?go]\<rparr>"
  let ?c2 = "initial_config\<lparr>input_raster_fn := Some ''dem.tif'', no_donuts := True,
      major_ring_only := True, cur_out_cs := CS_XY, geom_outputs := [?go]\<rparr>"
  have a: "[''dem.tif'', ''-major-ring'', ''-min-ring-area'', ''5'', ''-out-cs'', ''xy'',
      ''-wkt-out'', ''outline.wkt''] \<noteq> ([] :: string list)"
    "[''dem.tif'', ''-no-donuts'', ''-major-ring'', ''-out-cs'', ''xy'', ''-wkt-out'',
      ''outline.wkt''] \<noteq> ([] :: string list)"
    by simp_all
  have p1: "parse_args (c_lib sample_world) initial_config
      (snd (init_ndv_options sample_world (init_geo_options sample_world
        [''dem.tif'', ''-major-ring'', ''-min-ring-area'', ''5'', ''-out-cs'', ''xy'',
         ''-wkt-out'', ''outline.wkt'']))) = Inr ?c1"
    by code_simp
  have p2: "parse_args (c_lib sample_world) initial_config
      (snd (init_ndv_options sample_world (init_geo_options sample_world
        [''dem.tif'', ''-no-donuts'', ''-major-ring'', ''-out-cs'', ''xy'', ''-wkt-out'',
         ''outline.wkt'']))) = Inr ?c2"
    by code_simp
  have m1: "major_ring_only ?c1" "min_ring_area ?c1 \<noteq> 0 \<or> no_donuts ?c1" by simp_all
  have m2: "major_ring_only ?c2" "min_ring_area ?c2 \<noteq> 0 \<or> no_donuts ?c2" by simp_all
  from major_ring_conflicts_rejected[OF a(1) p1 m1, of sample_stages]
    major_ring_conflicts_rejected[OF a(2) p2 m2, of sample_stages]
  show ?thesis by (simp add: initial_config_def)
qed

text \<open>
  \<^verbatim>\<open>-major-ring\<close> with \<^verbatim>\<open>-min-ring-area 0\<close> is accepted: the run returns 0 and
  writes its outline.
\<close>

theorem major_ring_min_area_zero_counterexample:
  "snd (main sample_world sample_stages
     [''dem.tif'', ''-major-ring'', ''-min-ring-area'', ''0'', ''-out-cs'', ''xy'', ''-wkt-out'', ''outline.wkt'']) = Inr 0 \<and>
   stages_of (fst (main sample_world sample_stages
     [''dem.tif'', ''-major-ring'', ''-min-ring-area'', ''0'', ''-out-cs'', ''xy'', ''-wkt-out'', ''outline.wkt''])) =
     [MaskBuilder, ContourTracer, Beveler, Simplifier, Writer]"
  by code_simp

subsection \<open>The rasterizer and the coordinate mappers\<close>

lemma notin_stages_and_then:
  "s \<notin> set (stages_of (fst m)) \<Longrightarrow> (\<And>v. s \<notin> set (stages_of (fst (f v)))) \<Longrightarrow>
   s \<notin> set (stages_of (fst (and_then m f)))"
  by (auto simp: stages_and_then split: sum.splits)

lemma no_rasterizer_process_mask:
  assumes "mask_out_fn c = None"
  shows "Rasterizer \<notin> set (stages_of (fst (process_mask c wd st cid msk)))"
  unfolding process_mask_def
proof (intro notin_stages_and_then)
  show "Rasterizer \<notin> set (stages_of (fst (pixel_poly c wd st msk)))"
    by (rule ranked_avoid[OF ranked_pixel_poly]) simp
  show "Rasterizer \<notin> set (stages_of (fst (mask_out_pass c wd v)))" for v
    using assms by (simp add: stages_mask_out_pass)
  show "Rasterizer \<notin> set (stages_of (fst (reduce_pass c st v)))" for v
    by (simp add: stages_reduce_pass)
  show "Rasterizer \<notin> set (stages_of (fst (output_pass c wd st cid v)))" for v
    by (rule ranked_avoid[OF ranked_output_pass]) simp
qed

lemma no_rasterizer_class_loop:
  assumes "mask_out_fn c = None"
  shows "Rasterizer \<notin> set (stages_of (fst (class_loop c wd st msk n ids)))"
proof (induction ids arbitrary: msk n)
  case Nil
  show ?case by simp
next
  case (Cons class_id ids)
  have p: "Rasterizer \<notin> set (stages_of (fst (and_then (process_mask c wd st cid m) (\<lambda>k.
      class_loop c wd st (BitGrid_new 0 0) (j + k) ids))))" for m j cid
    by (intro notin_stages_and_then no_rasterizer_process_mask[OF assms] Cons.IH)
  show ?case
    using p Cons.IH by (simp add: stages_of_Cons)
qed

lemma stages_open_output [simp]: "stages_of (fst (open_output wd go)) = []"
  by (simp add: open_output_def stages_and_then stages_of_Cons split: option.splits sum.splits)

lemma stages_open_outputs [simp]: "stages_of (fst (open_outputs wd gos)) = []"
  by (induction gos) (simp_all add: stages_and_then split: sum.splits)

lemma class_loop_skip:
  "\<not> classify c \<Longrightarrow> 0 \<notin> set ids \<Longrightarrow> class_loop c wd st msk n ids = ret n"
  by (induction ids arbitrary: msk n) simp_all

lemma upt_256: "[0..<256] = 0 # [1..<256]"
  by (simp add: upt_conv_Cons)

lemma class_loop_single:
  "\<not> classify c \<Longrightarrow>
   class_loop c wd st msk n [0..<256] =
     and_then (process_mask c wd st 0 msk) (\<lambda>k. ret (n + k))"
  by (simp add: upt_256 class_loop_skip del: upt_Suc)

lemma ranked_class_loop_single:
  "\<not> classify c \<Longrightarrow> ranked driver_rank 0 6 (stages_of (fst (class_loop c wd st msk n [0..<256])))"
  unfolding class_loop_single
  by (rule ranked_and_then[where mid = 6]) (simp_all add: ranked_process_mask)

lemma stages_silent_call:
  "stage_of ev = None \<Longrightarrow> stages_of (fst (and_then (call ev v) f)) = stages_of (fst (f v))"
  by (simp add: stages_of_Cons)

lemma stages_run_outline:
  fixes st :: "'p stages"
  shows "stages_of (fst (run_outline c wd st fn)) = [] \<or>
   stages_of (fst (run_outline c wd st fn)) = [MaskBuilder] \<or>
   (\<exists>msk. stages_of (fst (run_outline c wd st fn)) =
      MaskBuilder # stages_of (fst (class_loop c wd st msk 0 [0..<256])))"
proof -
  define ids :: "nat list" where "ids = [0..<256]"
  define bandids where "bandids =
    (if inspect_bandids c = [] then
       map int [1..<Suc (if classify c then 1 else GDALGetRasterCount wd)]
     else inspect_bandids c)"
  define fin :: "nat \<Rightarrow> ('p, int) run" where "fin = (\<lambda>num_shapes_written.
       and_then (case debug_report c of
                   None \<Rightarrow> ret ()
                 | Some report \<Rightarrow> call (Call_write_plot report) ()) (\<lambda>u.
       ret (0 :: int)))"
  define tail :: "BitGrid \<Rightarrow> ('p, int) run" where "tail = (\<lambda>msk.
       and_then (open_outputs wd (geom_outputs c)) (\<lambda>u.
       and_then (class_loop c wd st msk 0 ids) fin))"
  define rd :: "('p, BitGrid) run" where "rd =
       (if classify c then
          (case bandids of
             [band] \<Rightarrow> call (Call_read_dataset_8bit band) (BitGrid_new 0 0)
           | _ \<Rightarrow> fatal_error ''only one band may be used in classify mode'')
        else call (Call_get_bitgrid_for_dataset bandids) (get_bitgrid_for_dataset wd bandids))"
  define body :: "('p, int) run" where "body =
       and_then ([], check_georef (init_georef wd) (geom_outputs c)) (\<lambda>u.
       and_then (case debug_report c of
                   None \<Rightarrow> ret ()
                 | Some report \<Rightarrow> call (Call_create_plot (georef_w (init_georef wd))
                                      (georef_h (init_georef wd))) ()) (\<lambda>u.
       and_then rd tail))"
  have r: "run_outline c wd st fn =
     and_then (call (Call_GDALOpen fn) (GDALOpen wd fn)) (\<lambda>ds.
     if \<not> ds then fatal_error ''open failed'' else body)"
    unfolding run_outline_def Let_def body_def rd_def tail_def fin_def bandids_def ids_def ..
  have f: "stages_of (fst (fin n)) = []" for n
    by (simp add: fin_def stages_of_Cons split: option.splits)
  have t: "stages_of (fst (tail msk)) = [] \<or>
      stages_of (fst (tail msk)) = stages_of (fst (class_loop c wd st msk 0 ids))" for msk
    by (simp add: tail_def stages_and_then f split: sum.splits)
  have d: "stages_of (fst rd) = [] \<and> (\<exists>e. snd rd = Inl e) \<or>
      stages_of (fst rd) = [MaskBuilder] \<and> (\<exists>msk. snd rd = Inr msk)"
    by (simp add: rd_def stages_of_Cons split: list.splits)
  have rt: "stages_of (fst (and_then rd tail)) = [] \<or>
      stages_of (fst (and_then rd tail)) = [MaskBuilder] \<or>
      (\<exists>msk. stages_of (fst (and_then rd tail)) =
         MaskBuilder # stages_of (fst (class_loop c wd st msk 0 ids)))"
  proof -
    from d consider e where "stages_of (fst rd) = []" "snd rd = Inl e"
      | msk where "stages_of (fst rd) = [MaskBuilder]" "snd rd = Inr msk"
      by blast
    then show ?thesis
    proof cases
      case 1
      then show ?thesis by (simp add: stages_and_then)
    next
      case 2
      then have "stages_of (fst (and_then rd tail)) = MaskBuilder # stages_of (fst (tail msk))"
        by (simp add: stages_and_then)
      with t[of msk] show ?thesis by auto
    qed
  qed
  have b: "stages_of (fst body) = [] \<or> stages_of (fst body) = stages_of (fst (and_then rd tail))"
    by (cases "check_georef (init_georef wd) (geom_outputs c)")
       (simp_all add: body_def and_then_Inr stages_of_Cons split: option.splits)
  have "stages_of (fst (run_outline c wd st fn)) = [] \<or>
      stages_of (fst (run_outline c wd st fn)) = stages_of (fst body)"
    by (simp add: r stages_of_Cons)
  with b rt show ?thesis unfolding ids_def by metis
qed

lemma sorted_no_pair_if_absent:
  "Rasterizer \<notin> set ss \<Longrightarrow> sorted_wrt (\<lambda>a b. \<not> mapper_then_rasterizer a b) ss"
  by (induction ss) (auto simp: mapper_then_rasterizer_def)

lemma sorted_no_pair_if_band:
  "ranked driver_rank lo hi ss \<Longrightarrow> sorted_wrt (\<lambda>a b. \<not> mapper_then_rasterizer a b) ss"
  unfolding ranked_def
  by (elim conjE, erule sorted_wrt_mono_rel[rotated]) (auto simp: mapper_then_rasterizer_def)

lemma main_stages_cases:
  "fst (main wd st argv) = [] \<or>
   (\<exists>c fn nr. check_options nr c = Inr fn \<and> main wd st argv = run_outline c wd st fn)"
  by (cases "init_ndv_options wd (init_geo_options wd argv)")
     (auto simp: main_def split: sum.splits)

lemma check_options_classify:
  "check_options nr c = Inr fn \<Longrightarrow> classify c \<Longrightarrow> mask_out_fn c = None"
  by (simp add: check_options_def split: option.splits if_splits)

lemma no_mapper_then_rasterizer_main:
  "sorted_wrt (\<lambda>a b. \<not> mapper_then_rasterizer a b) (stages_of (fst (main wd st argv)))"
proof -
  from main_stages_cases[of wd st argv] show ?thesis
  proof
    assume "fst (main wd st argv) = []"
    then show ?thesis by simp
  next
    assume "\<exists>c fn nr. check_options nr c = Inr fn \<and> main wd st argv = run_outline c wd st fn"
    then obtain c fn nr where o: "check_options nr c = Inr fn"
      and m: "main wd st argv = run_outline c wd st fn"
      by blast
    from stages_run_outline[of c wd st fn]
    consider "stages_of (fst (run_outline c wd st fn)) = []"
      | "stages_of (fst (run_outline c wd st fn)) = [MaskBuilder]"
      | msk where "stages_of (fst (run_outline c wd st fn)) =
          MaskBuilder # stages_of (fst (class_loop c wd st msk 0 [0..<256]))"
      by blast
    then show ?thesis
    proof cases
      case 1
      then show ?thesis by (simp add: m)
    next
      case 2
      then show ?thesis by (simp add: m)
    next
      case r: 3
      show ?thesis
      proof (cases "classify c")
        case True
        with o have "mask_out_fn c = None" by (rule check_options_classify)
        then have "Rasterizer \<notin> set (stages_of (fst (class_loop c wd st msk 0 [0..<256])))"
          by (rule no_rasterizer_class_loop)
        then have "Rasterizer \<notin> set (stages_of (fst (main wd st argv)))"
          by (simp add: m r)
        then show ?thesis by (rule sorted_no_pair_if_absent)
      next
        case False
        have "ranked driver_rank 0 6 ([MaskBuilder] @ stages_of (fst (class_loop c wd st msk 0 [0..<256])))"
          by (rule ranked_append[where mid = 0]) (simp_all add: ranked_class_loop_single[OF False])
        then have "ranked driver_rank 0 6 (stages_of (fst (main wd st argv)))"
          by (simp add: m r)
        then show ?thesis by (rule sorted_no_pair_if_band)
      qed
    qed
  qed
qed

lemma process_mask_rasterizer_call:
  assumes "mask_out_fn c = Some fn" and "pixel_poly c wd st msk = (pre, Inr fp)"
  shows "\<exists>post. fst (process_mask c wd st cid msk) =
           pre @ Call_mask_from_mpoly fp (georef_w (init_georef wd)) (georef_h (init_georef wd)) fn # post \<and>
         CoordinateMapper \<notin> set (stages_of pre) \<and>
         Rasterizer \<notin> set (stages_of pre) \<and> Rasterizer \<notin> set (stages_of post)"
proof -
  let ?rest = "and_then (reduce_pass c st fp) (output_pass c wd st cid)"
  have p: "fst (process_mask c wd st cid msk) =
      pre @ Call_mask_from_mpoly fp (georef_w (init_georef wd)) (georef_h (init_georef wd)) fn # fst ?rest"
    using assms by (simp add: process_mask_def and_then_Inr mask_out_pass_def)
  have b: "ranked driver_rank 0 3 (stages_of pre)"
    using ranked_pixel_poly[of c wd st msk] assms(2) by simp
  have r: "ranked driver_rank 5 6 (stages_of (fst ?rest))"
    by (rule ranked_and_then[where mid = 5])
       (auto simp: stages_reduce_pass intro: ranked_mono[OF ranked_output_pass])
  have "CoordinateMapper \<notin> set (stages_of pre)" "Rasterizer \<notin> set (stages_of pre)"
    by (rule ranked_avoid[OF b], simp)+
  moreover have "Rasterizer \<notin> set (stages_of (fst ?rest))"
    by (rule ranked_avoid[OF r]) simp
  ultimately show ?thesis using p by blast
qed

text \<open>
  Claim C8. In a whole run no call of the rasterizer comes after a call of a coordinate
  mapper. And in the pass on a mask with \<^verbatim>\<open>-mask-out\<close>, the rasterizer is called
  exactly once, on the multipolygon that the pixel-space part of the pass yields, and no
  mapper is called before it.
\<close>

theorem rasterizer_gets_pixel_space:
  "sorted_wrt (\<lambda>a b. \<not> mapper_then_rasterizer a b) (stages_of (fst (main wd st argv))) \<and>
   (mask_out_fn c = Some fn \<and> pixel_poly c wd st msk = (pre, Inr feature_poly) \<longrightarrow>
      (\<exists>post. fst (process_mask c wd st class_id msk) =
           pre @ Call_mask_from_mpoly feature_poly (georef_w (init_georef wd))
                   (georef_h (init_georef wd)) fn # post \<and>
         CoordinateMapper \<notin> set (stages_of pre) \<and>
         Rasterizer \<notin> set (stages_of pre) \<and> Rasterizer \<notin> set (stages_of post)))"
  using no_mapper_then_rasterizer_main[of wd st argv]
    process_mask_rasterizer_call[of c fn wd st msk pre feature_poly class_id]
  by blast

text \<open>
  On the sample run with \<^verbatim>\<open>-mask-out\<close> and an output in projected coordinates.
\<close>

theorem rasterizer_gets_pixel_space_witness:
  "mask_out_fn sample_config = Some ''mask.pbm'' \<and>
   snd (pixel_poly sample_config sample_world sample_stages sample_mask) = Inr sample_pixel_poly \<and>
   (\<exists>post. fst (process_mask sample_config sample_world sample_stages 0 sample_mask) =
      fst (pixel_poly sample_config sample_world sample_stages sample_mask) @
      Call_mask_from_mpoly sample_pixel_poly 4 3 ''mask.pbm'' # post) \<and>
   stages_of (fst (main sample_world sample_stages
     [''dem.tif'', ''-pinch-excursions'', ''-mask-out'', ''mask.pbm'', ''-out-cs'', ''en'',
      ''-wkt-out'', ''outline.wkt''])) =
     [MaskBuilder, ContourTracer, Beveler, ExcursionPincher, Rasterizer, Simplifier,
      CoordinateMapper, Writer] \<and>
   sorted_wrt (\<lambda>a b. \<not> mapper_then_rasterizer a b)
     [MaskBuilder, ContourTracer, Beveler, ExcursionPincher, Rasterizer, Simplifier,
      CoordinateMapper, Writer]"
proof -
  have m: "mask_out_fn sample_config = Some ''mask.pbm''"
    by (simp add: sample_config_def)
  have s: "snd (pixel_poly sample_config sample_world sample_stages sample_mask) = Inr sample_pixel_poly"
    by code_simp
  then have p: "pixel_poly sample_config sample_world sample_stages sample_mask =
      (fst (pixel_poly sample_config sample_world sample_stages sample_mask), Inr sample_pixel_poly)"
    by (simp add: prod_eq_iff)
  have g: "georef_w (init_georef sample_world) = 4" "georef_h (init_georef sample_world) = 3"
    by (simp_all add: sample_world_def)
  have e: "stages_of (fst (main sample_world sample_stages
     [''dem.tif'', ''-pinch-excursions'', ''-mask-out'', ''mask.pbm'', ''-out-cs'', ''en'',
      ''-wkt-out'', ''outline.wkt''])) =
     [MaskBuilder, ContourTracer, Beveler, ExcursionPincher, Rasterizer, Simplifier,
      CoordinateMapper, Writer]"
    by code_simp
  note t = rasterizer_gets_pixel_space[where wd = sample_world and st = sample_stages
      and c = sample_config and fn = "''mask.pbm''" and msk = sample_mask
      and pre = "fst (pixel_poly sample_config sample_world sample_stages sample_mask)"
      and feature_poly = sample_pixel_poly and class_id = 0
      and argv = "[''dem.tif'', ''-pinch-excursions'', ''-mask-out'', ''mask.pbm'', ''-out-cs'',
        ''en'', ''-wkt-out'', ''outline.wkt'']"]
  from t have t1: "sorted_wrt (\<lambda>a b. \<not> mapper_then_rasterizer a b)
     [MaskBuilder, ContourTracer, Beveler, ExcursionPincher, Rasterizer, Simplifier,
      CoordinateMapper, Writer]"
    unfolding e by (rule conjunct1)
  from t m p have t2: "\<exists>post. fst (process_mask sample_config sample_world sample_stages 0 sample_mask) =
      fst (pixel_poly sample_config sample_world sample_stages sample_mask) @
      Call_mask_from_mpoly sample_pixel_poly 4 3 ''mask.pbm'' # post"
    unfolding g by blast
  from m s t2 e t1 show ?thesis by (intro conjI)
qed

subsection \<open>The stages of one pass, in order\<close>

lemma export_geom_eq:
  "out_cs go \<noteq> CS_UNKNOWN \<Longrightarrow>
   export_geom c wd st cid shape i go = (export_calls c wd st cid shape (i, go), Inr ())"
  by (cases "out_cs go")
     (simp_all add: export_geom_def export_calls_def mapper_calls_def mapped_def)

lemma write_shape_eq:
  "\<forall>go \<in> set gos. out_cs go \<noteq> CS_UNKNOWN \<Longrightarrow>
   write_shape c wd st cid shape i gos =
     (concat (map (export_calls c wd st cid shape) (enumerate i gos)), Inr ())"
proof (induction gos arbitrary: i)
  case Nil
  show ?case by (simp add: ret_def)
next
  case (Cons go gos)
  then show ?case
    by (simp add: export_geom_eq and_then_def)
qed

lemma write_shapes_eq:
  "\<forall>go \<in> set (geom_outputs c). out_cs go \<noteq> CS_UNKNOWN \<Longrightarrow>
   write_shapes c wd st cid shapes =
     (concat (map (\<lambda>shape. concat (map (export_calls c wd st cid shape)
                                    (enumerate 0 (geom_outputs c)))) shapes),
      Inr (length shapes))"
proof (induction shapes)
  case Nil
  show ?case by (simp add: ret_def)
next
  case (Cons shape shapes)
  then show ?case
    by (simp add: write_shape_eq and_then_def ret_def)
qed

lemma output_pass_eq:
  assumes "\<forall>go \<in> set (geom_outputs c). out_cs go \<noteq> CS_UNKNOWN"
  shows "output_pass c wd st cid mp = (output_calls c wd st cid mp, Inr (shapes_written c st mp))"
  using assms
  by (simp add: output_pass_def output_calls_def shapes_written_def shapes_of_def
      write_shapes_eq and_then_def ret_def call_def)

lemma bevel_pass_eq:
  "bevel_pass st mp (bevel_size c) =
     ((if bevel_on c mp then [Call_bevel_self_intersections mp (bevel_size c)] else []),
      Inr (bevelled c st mp))"
  by (simp add: bevel_pass_def bevel_on_def bevelled_def call_def ret_def)

lemma pinch_pass_eq:
  "pinch_pass c st mp =
     ((if pinch_on c mp then [Call_pinch_excursions2 mp] else []), Inr (pinched c st mp))"
  by (simp add: pinch_pass_def pinch_on_def pinched_def call_def ret_def)

lemma reduce_pass_eq:
  "reduce_pass c st mp =
     ((if reduce_on c mp then [Call_compute_reduced_pointset mp (reduction_tolerance c)] else []),
      Inr (reduced c st mp))"
  by (simp add: reduce_pass_def reduce_on_def reduced_def call_def ret_def)

lemma mask_out_pass_eq:
  "mask_out_pass c wd mp =
     ((case mask_out_fn c of
         Some fn \<Rightarrow> [Call_mask_from_mpoly mp (georef_w (init_georef wd)) (georef_h (init_georef wd)) fn]
       | None \<Rightarrow> []), Inr ())"
  by (simp add: mask_out_pass_def call_def ret_def split: option.splits)

lemma major_ring_pass_pair: "major_ring_pass st mr mp = ([], snd (major_ring_pass st mr mp))"
  using major_ring_pass_calls[of st mr mp] by (cases "major_ring_pass st mr mp") simp

lemma calc_ring_eq:
  "calc_ring_from_mask st msk w h mr nd a (bevel_size c) =
     (case snd (major_ring_pass st mr (trace_mask st msk w h a (mr \<or> nd))) of
        Inl e \<Rightarrow> ([Call_trace_mask msk w h a (mr \<or> nd)], Inl e)
      | Inr mp \<Rightarrow>
          (Call_trace_mask msk w h a (mr \<or> nd) #
             (if bevel_on c mp then [Call_bevel_self_intersections mp (bevel_size c)] else []),
           Inr (bevelled c st mp)))"
proof -
  have nd: "(if mr then True else nd) = (mr \<or> nd)" by simp
  show ?thesis
    unfolding calc_ring_from_mask_def Let_def nd
    apply (subst major_ring_pass_pair)
    apply (simp add: bevel_pass_eq and_then_Inr and_then_Inl split: sum.splits)
    done
qed

lemma prepare_eq:
  "and_then (if do_invert c then call (Call_invert msk) (BitGrid_invert st msk) else ret msk) (\<lambda>m.
     and_then (if do_erosion c then call (Call_erode m) (BitGrid_erode st m) else ret m) f) =
   (mask_calls c st msk @ fst (f (traced_mask c st msk)), snd (f (traced_mask c st msk)))"
  by (simp add: mask_calls_def traced_mask_def)

lemma pixel_poly_eq:
  "pixel_poly c wd st msk =
     (case snd (major_ring_pass st (major_ring_only c)
                  (traced c wd st msk (major_ring_only c \<or> no_donuts c))) of
        Inl e \<Rightarrow> (mask_calls c st msk @ [tracer_call c wd st msk (major_ring_only c \<or> no_donuts c)], Inl e)
      | Inr mp \<Rightarrow>
          (mask_calls c st msk @ [tracer_call c wd st msk (major_ring_only c \<or> no_donuts c)] @
             (if bevel_on c mp then [Call_bevel_self_intersections mp (bevel_size c)] else []) @
             (if pinch_on c (bevelled c st mp) then [Call_pinch_excursions2 (bevelled c st mp)] else []),
           Inr (pinched c st (bevelled c st mp))))"
  unfolding pixel_poly_def prepare_eq
  by (simp add: calc_ring_eq traced_def tracer_call_def pinch_pass_eq and_then_Inr and_then_Inl
      split: sum.splits)

lemma process_mask_eq:
  assumes "snd (major_ring_pass st (major_ring_only c)
                  (traced c wd st msk (major_ring_only c \<or> no_donuts c))) = Inr mp"
    and "\<forall>go \<in> set (geom_outputs c). out_cs go \<noteq> CS_UNKNOWN"
  shows "process_mask c wd st class_id msk =
     (mask_calls c st msk @ [tracer_call c wd st msk (major_ring_only c \<or> no_donuts c)] @
      (if bevel_on c mp then [Call_bevel_self_intersections mp (bevel_size c)] else []) @
      (if pinch_on c (bevelled c st mp) then [Call_pinch_excursions2 (bevelled c st mp)] else []) @
      (case mask_out_fn c of
         Some fn \<Rightarrow> [Call_mask_from_mpoly (pinched c st (bevelled c st mp))
                       (georef_w (init_georef wd)) (georef_h (init_georef wd)) fn]
       | None \<Rightarrow> []) @
      (if reduce_on c (pinched c st (bevelled c st mp))
       then [Call_compute_reduced_pointset (pinched c st (bevelled c st mp)) (reduction_tolerance c)]
       else []) @
      output_calls c wd st class_id (reduced c st (pinched c st (bevelled c st mp))),
      Inr (shapes_written c st (reduced c st (pinched c st (bevelled c st mp)))))"
  unfolding process_mask_def pixel_poly_eq assms(1) sum.case
  by (simp add: and_then_Inr mask_out_pass_eq reduce_pass_eq output_pass_eq[OF assms(2)]
      del: append_assoc)

lemma process_mask_abort:
  assumes "snd (major_ring_pass st (major_ring_only c)
                  (traced c wd st msk (major_ring_only c \<or> no_donuts c))) = Inl e"
  shows "process_mask c wd st class_id msk =
     (mask_calls c st msk @ [tracer_call c wd st msk (major_ring_only c \<or> no_donuts c)], Inl e)"
  unfolding process_mask_def pixel_poly_eq assms(1) sum.case
  by (simp add: and_then_Inl)

lemma transform_output_pass [simp]: "transform_stages (fst (output_pass c wd st cid mp)) = []"
  by (rule ranked_no_transform[OF ranked_output_pass])

lemma transform_mask_calls [simp]: "transform_stages (mask_calls c st msk) = []"
  by (simp add: transform_stages_def mask_calls_def stages_of_Cons)

lemma transform_stages_Cons:
  "transform_stages (ev # calls) =
     (case stage_of ev of None \<Rightarrow> [] | Some s \<Rightarrow> if is_transform_stage s then [s] else []) @
     transform_stages calls"
  by (simp add: transform_stages_def stages_of_Cons split: option.splits)

lemma transform_stages_append: "transform_stages (xs @ ys) = transform_stages xs @ transform_stages ys"
  by (simp add: transform_stages_def)

lemma transform_process_mask:
  assumes "snd (major_ring_pass st (major_ring_only c)
                  (traced c wd st msk (major_ring_only c \<or> no_donuts c))) = Inr mp"
  shows "transform_stages (fst (process_mask c wd st class_id msk)) =
     [ContourTracer] @
     (if bevel_on c mp then [Beveler] else []) @
     (if pinch_on c (bevelled c st mp) then [ExcursionPincher] else []) @
     (if reduce_on c (pinched c st (bevelled c st mp)) then [Simplifier] else [])"
  unfolding process_mask_def pixel_poly_eq assms(1) sum.case
  by (simp add: and_then_Inr mask_out_pass_eq reduce_pass_eq tracer_call_def
      transform_stages_Cons transform_stages_append split: option.splits)

lemma stages_export_calls:
  "stages_of (export_calls c wd st cid shape (i, go)) =
     (if out_cs go = CS_EN \<or> out_cs go = CS_LL then [CoordinateMapper] else []) @
     replicate (length (write_geom c wd cid i go (mapped c st go shape))) Writer"
  by (cases "out_cs go")
     (simp_all add: export_calls_def mapper_calls_def write_geom_def stages_of_Cons)

lemma set_last_known:
  assumes "\<forall>go \<in> set gos. out_cs go \<noteq> CS_UNKNOWN" and "\<And>go. out_cs (f go) = out_cs go"
  shows "\<forall>go \<in> set (set_last f gos). out_cs go \<noteq> CS_UNKNOWN"
proof (cases "rev gos")
  case Nil
  then show ?thesis by (simp add: set_last_def)
next
  case (Cons go before)
  then have g: "gos = rev before @ [go]" by (simp add: rev_eq_Cons_iff)
  have "set_last f gos = rev before @ [f go]" by (simp add: set_last_def Cons)
  with assms g show ?thesis by auto
qed

lemma add_geom_output_known:
  "add_geom_output gos cs = Inr gos' \<Longrightarrow> \<forall>go \<in> set gos. out_cs go \<noteq> CS_UNKNOWN \<Longrightarrow>
   \<forall>go \<in> set gos'. out_cs go \<noteq> CS_UNKNOWN"
  by (auto simp: add_geom_output_def split: if_splits)

lemma outputs_known_update:
  "add_geom_output (geom_outputs c) cs = Inr gos' \<Longrightarrow> outputs_known c \<Longrightarrow>
   (\<And>go. out_cs (f go) = out_cs go) \<Longrightarrow>
   outputs_known (c\<lparr>geom_outputs := set_last f gos'\<rparr>)"
  unfolding outputs_known_def
  using set_last_known[OF add_geom_output_known, of "geom_outputs c" cs gos' f] by simp

lemma outputs_known_simps [simp]:
  "outputs_known (c\<lparr>VERBOSE := a1\<rparr>) = outputs_known c"
  "outputs_known (c\<lparr>classify := a2\<rparr>) = outputs_known c"
  "outputs_known (c\<lparr>debug_report := a3\<rparr>) = outputs_known c"
  "outputs_known (c\<lparr>inspect_bandids := a4\<rparr>) = outputs_known c"
  "outputs_known (c\<lparr>do_erosion := a5\<rparr>) = outputs_known c"
  "outputs_known (c\<lparr>do_invert := a6\<rparr>) = outputs_known c"
  "outputs_known (c\<lparr>split_polys := a7\<rparr>) = outputs_known c"
  "outputs_known (c\<lparr>cur_ogr_fmt := a8\<rparr>) = outputs_known c"
  "outputs_known (c\<lparr>cur_out_cs := a9\<rparr>) = outputs_known c"
  "outputs_known (c\<lparr>mask_out_fn := a10\<rparr>) = outputs_known c"
  "outputs_known (c\<lparr>major_ring_only := a11\<rparr>) = outputs_known c"
  "outputs_known (c\<lparr>no_donuts := a12\<rparr>) = outputs_known c"
  "outputs_known (c\<lparr>min_ring_area := a13\<rparr>) = outputs_known c"
  "outputs_known (c\<lparr>reduction_tolerance := a14\<rparr>) = outputs_known c"
  "outputs_known (c\<lparr>bevel_size := a15\<rparr>) = outputs_known c"
  "outputs_known (c\<lparr>do_pinch_excursions := a16\<rparr>) = outputs_known c"
  "outputs_known (c\<lparr>llproj_toler := a17\<rparr>) = outputs_known c"
  "outputs_known (c\<lparr>input_raster_fn := a18\<rparr>) = outputs_known c"
  by (simp_all add: outputs_known_def)

lemma parse_option_known:
  "parse_option lc c arg nxt = Inr (c', took) \<Longrightarrow> outputs_known c \<Longrightarrow> outputs_known c'"
  unfolding parse_option_def
  by (cases nxt; cases "starts_with_dash arg"; cases "input_raster_fn c")
     (auto split: if_splits sum.splits prod.splits intro!: outputs_known_update)

lemma parse_args_known:
  "parse_args lc c args = Inr c' \<Longrightarrow> outputs_known c \<Longrightarrow> outputs_known c'"
proof (induction lc c args rule: parse_args.induct)
  case (1 lc c)
  then show ?case by simp
next
  case (2 lc c arg)
  then show ?case by (auto split: sum.splits dest: parse_option_known)
next
  case (3 lc c arg v rest)
  then show ?case by (auto split: sum.splits if_splits dest: parse_option_known)
qed

lemma outputs_known_initial: "outputs_known initial_config"
  by (simp add: outputs_known_def initial_config_def)

text \<open>
  Claim C1, as the driver has it. In a pass of the class loop the tracer is called on the
  mask, and, unless the choice of the major ring ends the run there, the transforming
  stages that are called are exactly: the tracer; then the beveler, when the bevel size is
  positive and the multipolygon has rings; then the pincher, when it is asked for and the
  multipolygon has rings; then the point reduction, when the tolerance is positive and the
  multipolygon has rings. Each is called once, on the multipolygon that the stage before
  it returned; the whole log of the pass is these calls (with the operations on the mask
  before the tracer and the rasterizer between pincher and point reduction) followed by
  the output stage, where for each shape and each output the mapper of the output's
  coordinate system, if it is not \<open>xy\<close>, is called before the mapped shape is written.
  The option loop only yields outputs with a coordinate system. When the choice of the
  major ring ends the run, the tracer is the last call. The beveler is called inside
  \<^verbatim>\<open>calc_ring_from_mask\<close>, so it comes second, not fourth.
\<close>

theorem stage_order_of_driver:
  "(snd (major_ring_pass st (major_ring_only c)
           (traced c wd st msk (major_ring_only c \<or> no_donuts c))) = Inr mp \<longrightarrow>
      filter is_transform_stage (stages_of (fst (process_mask c wd st class_id msk))) =
        [ContourTracer] @
        (if bevel_on c mp then [Beveler] else []) @
        (if pinch_on c (bevelled c st mp) then [ExcursionPincher] else []) @
        (if reduce_on c (pinched c st (bevelled c st mp)) then [Simplifier] else []) \<and>
      (outputs_known c \<longrightarrow>
         process_mask c wd st class_id msk =
           (mask_calls c st msk @
            [tracer_call c wd st msk (major_ring_only c \<or> no_donuts c)] @
            (if bevel_on c mp then [Call_bevel_self_intersections mp (bevel_size c)] else []) @
            (if pinch_on c (bevelled c st mp) then [Call_pinch_excursions2 (bevelled c st mp)]
             else []) @
            (case mask_out_fn c of
               Some fn \<Rightarrow> [Call_mask_from_mpoly (pinched c st (bevelled c st mp))
                             (georef_w (init_georef wd)) (georef_h (init_georef wd)) fn]
             | None \<Rightarrow> []) @
            (if reduce_on c (pinched c st (bevelled c st mp))
             then [Call_compute_reduced_pointset (pinched c st (bevelled c st mp))
                     (reduction_tolerance c)]
             else []) @
            output_calls c wd st class_id (reduced c st (pinched c st (bevelled c st mp))),
            Inr (shapes_written c st (reduced c st (pinched c st (bevelled c st mp))))))) \<and>
   (snd (major_ring_pass st (major_ring_only c)
           (traced c wd st msk (major_ring_only c \<or> no_donuts c))) = Inl e \<longrightarrow>
      process_mask c wd st class_id msk =
        (mask_calls c st msk @ [tracer_call c wd st msk (major_ring_only c \<or> no_donuts c)],
         Inl e)) \<and>
   stages_of (export_calls c wd st class_id shape (go_idx, go)) =
     (if out_cs go = CS_EN \<or> out_cs go = CS_LL then [CoordinateMapper] else []) @
     replicate (length (write_geom c wd class_id go_idx go (mapped c st go shape))) Writer \<and>
   (parse_args lc initial_config args = Inr c' \<longrightarrow> outputs_known c') \<and>
   sorted_wrt (\<lambda>a b. driver_rank a \<le> driver_rank b)
     (stages_of (fst (process_mask c wd st class_id msk))) \<and>
   sorted_wrt (\<lambda>a b. driver_rank a < driver_rank b)
     (filter is_transform_stage (stages_of (fst (process_mask c wd st class_id msk)))) \<and>
   sorted_wrt (\<lambda>a b. export_rank a \<le> export_rank b)
     (stages_of (fst (export_geom c wd st class_id poly_in go_idx go)))"
proof (intro conjI impI)
  assume s: "snd (major_ring_pass st (major_ring_only c)
           (traced c wd st msk (major_ring_only c \<or> no_donuts c))) = Inr mp"
  from transform_process_mask[OF s]
  show "filter is_transform_stage (stages_of (fst (process_mask c wd st class_id msk))) =
        [ContourTracer] @
        (if bevel_on c mp then [Beveler] else []) @
        (if pinch_on c (bevelled c st mp) then [ExcursionPincher] else []) @
        (if reduce_on c (pinched c st (bevelled c st mp)) then [Simplifier] else [])"
    by (simp only: transform_stages_def)
  assume k: "outputs_known c"
  then have k': "\<forall>go \<in> set (geom_outputs c). out_cs go \<noteq> CS_UNKNOWN"
    by (simp add: outputs_known_def)
  show "process_mask c wd st class_id msk =
           (mask_calls c st msk @
            [tracer_call c wd st msk (major_ring_only c \<or> no_donuts c)] @
            (if bevel_on c mp then [Call_bevel_self_intersections mp (bevel_size c)] else []) @
            (if pinch_on c (bevelled c st mp) then [Call_pinch_excursions2 (bevelled c st mp)]
             else []) @
            (case mask_out_fn c of
               Some fn \<Rightarrow> [Call_mask_from_mpoly (pinched c st (bevelled c st mp))
                             (georef_w (init_georef wd)) (georef_h (init_georef wd)) fn]
             | None \<Rightarrow> []) @
            (if reduce_on c (pinched c st (bevelled c st mp))
             then [Call_compute_reduced_pointset (pinched c st (bevelled c st mp))
                     (reduction_tolerance c)]
             else []) @
            output_calls c wd st class_id (reduced c st (pinched c st (bevelled c st mp))),
            Inr (shapes_written c st (reduced c st (pinched c st (bevelled c st mp)))))"
    by (rule process_mask_eq[OF s k'])
next
  assume "snd (major_ring_pass st (major_ring_only c)
           (traced c wd st msk (major_ring_only c \<or> no_donuts c))) = Inl e"
  then show "process_mask c wd st class_id msk =
        (mask_calls c st msk @ [tracer_call c wd st msk (major_ring_only c \<or> no_donuts c)],
         Inl e)"
    by (rule process_mask_abort)
next
  show "stages_of (export_calls c wd st class_id shape (go_idx, go)) =
     (if out_cs go = CS_EN \<or> out_cs go = CS_LL then [CoordinateMapper] else []) @
     replicate (length (write_geom c wd class_id go_idx go (mapped c st go shape))) Writer"
    by (rule stages_export_calls)
next
  assume "parse_args lc initial_config args = Inr c'"
  then show "outputs_known c'"
    by (rule parse_args_known[OF _ outputs_known_initial])
next
  show "sorted_wrt (\<lambda>a b. driver_rank a \<le> driver_rank b)
     (stages_of (fst (process_mask c wd st class_id msk)))"
    using ranked_process_mask[of c wd st class_id msk] by (simp add: ranked_def)
next
  show "sorted_wrt (\<lambda>a b. driver_rank a < driver_rank b)
     (filter is_transform_stage (stages_of (fst (process_mask c wd st class_id msk))))"
    using strictly_ranked_process_mask[of c wd st class_id msk]
    by (simp add: strictly_ranked_def transform_stages_def)
next
  show "sorted_wrt (\<lambda>a b. export_rank a \<le> export_rank b)
     (stages_of (fst (export_geom c wd st class_id poly_in go_idx go)))"
    using ranked_export_geom[of 0 export_rank 1 c wd st class_id poly_in go_idx go]
    by (simp add: ranked_def)
qed

text \<open>
  On the sample run with every stage enabled the four transforming stages are called in
  this order and one shape is written; with a tracer whose biggest ring is recorded as a
  child, \<^verbatim>\<open>-major-ring\<close> ends the pass after the call of the tracer.
\<close>

theorem stage_order_of_driver_witness:
  "snd (major_ring_pass sample_stages (major_ring_only sample_config)
          (traced sample_config sample_world sample_stages sample_mask
             (major_ring_only sample_config \<or> no_donuts sample_config))) =
     Inr \<lparr>rings = [sample_outer, sample_hole]\<rparr> \<and>
   parse_args sample_libc initial_config
     [''dem.tif'', ''-pinch-excursions'', ''-mask-out'', ''mask.pbm'', ''-out-cs'', ''en'',
      ''-wkt-out'', ''outline.wkt''] = Inr sample_config \<and>
   outputs_known sample_config \<and>
   filter is_transform_stage
     (stages_of (fst (process_mask sample_config sample_world sample_stages 0 sample_mask))) =
     [ContourTracer, Beveler, ExcursionPincher, Simplifier] \<and>
   stages_of (fst (process_mask sample_config sample_world sample_stages 0 sample_mask)) =
     [ContourTracer, Beveler, ExcursionPincher, Rasterizer, Simplifier, CoordinateMapper, Writer] \<and>
   snd (process_mask sample_config sample_world sample_stages 0 sample_mask) = Inr 1 \<and>
   snd (major_ring_pass nested_stages True
          (traced (sample_config\<lparr>major_ring_only := True\<rparr>) sample_world nested_stages
             sample_mask True)) = Inl (Fatal ''largest ring should not have a parent'') \<and>
   process_mask (sample_config\<lparr>major_ring_only := True\<rparr>) sample_world nested_stages 0 sample_mask =
     ([Call_trace_mask sample_mask 4 3 0 True],
      Inl (Fatal ''largest ring should not have a parent''))"
proof -
  let ?mp = "\<lparr>rings = [sample_outer, sample_hole]\<rparr>"
  let ?args = "[''dem.tif'', ''-pinch-excursions'', ''-mask-out'', ''mask.pbm'', ''-out-cs'', ''en'',
      ''-wkt-out'', ''outline.wkt'']"
  let ?cm = "sample_config\<lparr>major_ring_only := True\<rparr>"
  let ?abort = "Fatal ''largest ring should not have a parent''"
  have h: "snd (major_ring_pass sample_stages (major_ring_only sample_config)
          (traced sample_config sample_world sample_stages sample_mask
             (major_ring_only sample_config \<or> no_donuts sample_config))) = Inr ?mp"
    by code_simp
  have p: "parse_args sample_libc initial_config ?args = Inr sample_config"
    by code_simp
  note t = stage_order_of_driver[where st = sample_stages and c = sample_config
      and wd = sample_world and msk = sample_mask and mp = ?mp and class_id = 0
      and lc = sample_libc and args = ?args and c' = sample_config]
  have k: "outputs_known sample_config"
    by (rule t[THEN conjunct2, THEN conjunct2, THEN conjunct2, THEN conjunct1, THEN mp, OF p])
  have a: "filter is_transform_stage
     (stages_of (fst (process_mask sample_config sample_world sample_stages 0 sample_mask))) =
        [ContourTracer] @
        (if bevel_on sample_config ?mp then [Beveler] else []) @
        (if pinch_on sample_config (bevelled sample_config sample_stages ?mp)
         then [ExcursionPincher] else []) @
        (if reduce_on sample_config
              (pinched sample_config sample_stages (bevelled sample_config sample_stages ?mp))
         then [Simplifier] else [])"
    by (rule t[THEN conjunct1, THEN mp, OF h, THEN conjunct1])
  have on: "bevel_on sample_config ?mp"
    "pinch_on sample_config (bevelled sample_config sample_stages ?mp)"
    "reduce_on sample_config
       (pinched sample_config sample_stages (bevelled sample_config sample_stages ?mp))"
    by code_simp+
  have l: "snd (process_mask sample_config sample_world sample_stages 0 sample_mask) =
      Inr (shapes_written sample_config sample_stages
        (reduced sample_config sample_stages
          (pinched sample_config sample_stages (bevelled sample_config sample_stages ?mp))))"
    by (simp only: t[THEN conjunct1, THEN mp, OF h, THEN conjunct2, THEN mp, OF k] snd_conv)
  have n: "shapes_written sample_config sample_stages
        (reduced sample_config sample_stages
          (pinched sample_config sample_stages (bevelled sample_config sample_stages ?mp))) = 1"
    by code_simp
  have s: "stages_of (fst (process_mask sample_config sample_world sample_stages 0 sample_mask)) =
     [ContourTracer, Beveler, ExcursionPincher, Rasterizer, Simplifier, CoordinateMapper, Writer]"
    by code_simp
  have h2: "snd (major_ring_pass nested_stages (major_ring_only ?cm)
          (traced ?cm sample_world nested_stages sample_mask
             (major_ring_only ?cm \<or> no_donuts ?cm))) = Inl ?abort"
    by code_simp
  have m: "major_ring_only ?cm" by simp
  note t2 = stage_order_of_driver[where st = nested_stages and c = ?cm
      and wd = sample_world and msk = sample_mask and e = ?abort and class_id = 0]
  have b: "process_mask ?cm sample_world nested_stages 0 sample_mask =
      (mask_calls ?cm nested_stages sample_mask @
       [tracer_call ?cm sample_world nested_stages sample_mask
          (major_ring_only ?cm \<or> no_donuts ?cm)], Inl ?abort)"
    by (rule t2[THEN conjunct2, THEN conjunct1, THEN mp, OF h2])
  have r: "mask_calls ?cm nested_stages sample_mask @
       [tracer_call ?cm sample_world nested_stages sample_mask
          (major_ring_only ?cm \<or> no_donuts ?cm)] = [Call_trace_mask sample_mask 4 3 0 True]"
    by code_simp
  from h2 m have h2': "snd (major_ring_pass nested_stages True
          (traced ?cm sample_world nested_stages sample_mask True)) = Inl ?abort"
    by simp
  show ?thesis
    using h p k a[unfolded if_P[OF on(1)] if_P[OF on(2)] if_P[OF on(3)]] s l[unfolded n]
      h2' b[unfolded r]
    by (intro conjI) simp_all
qed

text \<open>
  The order of the design overview (tracer, pincher, simplifier, beveler, mapper) does
  not hold on the run of
  \<^verbatim>\<open>dem.tif -pinch-excursions -out-cs en -wkt-out outline.wkt\<close>: the beveler is
  called before the pincher and the simplifier.
\<close>

theorem overview_order_counterexample:
  "\<not> sorted_wrt (\<lambda>a b. overview_rank a \<le> overview_rank b)
      (filter is_pipeline_stage (stages_of (fst (main sample_world sample_stages
         [''dem.tif'', ''-pinch-excursions'', ''-out-cs'', ''en'', ''-wkt-out'', ''outline.wkt'']))))"
  by code_simp

subsection \<open>Major-ring mode and hole suppression\<close>

lemma map_filter_app: "List.map_filter g (xs @ ys) = List.map_filter g xs @ List.map_filter g ys"
  by (simp add: map_filter_def)

lemma flags_and_then:
  "False \<notin> set (List.map_filter no_donuts_arg (fst m)) \<Longrightarrow>
   (\<And>v. False \<notin> set (List.map_filter no_donuts_arg (fst (f v)))) \<Longrightarrow>
   False \<notin> set (List.map_filter no_donuts_arg (fst (and_then m f)))"
  by (simp add: map_filter_and_then split: sum.splits)

lemma flags_process_mask:
  "major_ring_only c \<Longrightarrow>
   False \<notin> set (List.map_filter no_donuts_arg (fst (process_mask c wd st class_id msk)))"
proof (cases "snd (major_ring_pass st (major_ring_only c)
                  (traced c wd st msk (major_ring_only c \<or> no_donuts c)))")
  case (Inl e)
  assume "major_ring_only c"
  then show ?thesis
    by (simp add: process_mask_abort[OF Inl] mask_calls_def tracer_call_def map_filter_simps
        map_filter_app)
next
  case (Inr mp)
  assume m: "major_ring_only c"
  have o: "List.map_filter no_donuts_arg (fst (output_pass c wd st class_id fp)) = []" for fp
    by (rule no_tracer_no_args, rule ranked_avoid[OF ranked_output_pass]) simp
  show ?thesis
    unfolding process_mask_def pixel_poly_eq Inr sum.case
    using m
    by (simp add: and_then_Inr mask_out_pass_eq reduce_pass_eq mask_calls_def tracer_call_def
        map_filter_simps map_filter_app o split: option.splits)
qed

lemma flags_class_loop:
  assumes "major_ring_only c"
  shows "False \<notin> set (List.map_filter no_donuts_arg (fst (class_loop c wd st msk n ids)))"
proof (induction ids arbitrary: msk n)
  case Nil
  show ?case by (simp add: map_filter_simps)
next
  case (Cons class_id ids)
  have p: "False \<notin> set (List.map_filter no_donuts_arg (fst (and_then (process_mask c wd st cid m) (\<lambda>k.
      class_loop c wd st (BitGrid_new 0 0) (j + k) ids))))" for m j cid
    by (intro flags_and_then flags_process_mask[OF assms] Cons.IH)
  show ?case
    using p Cons.IH by (simp add: map_filter_simps)
qed

lemma flags_open_output: "List.map_filter no_donuts_arg (fst (open_output wd go)) = []"
  by (rule no_tracer_no_args) simp

lemma flags_open_outputs: "List.map_filter no_donuts_arg (fst (open_outputs wd gos)) = []"
  by (rule no_tracer_no_args) simp

lemma flags_run_outline:
  assumes "major_ring_only c"
  shows "False \<notin> set (List.map_filter no_donuts_arg (fst (run_outline c wd st fn)))"
  unfolding run_outline_def Let_def
  apply (rule flags_and_then)
   apply (simp add: map_filter_simps)
  subgoal for ds
    apply (cases ds)
     apply (simp only: simp_thms if_False)
     apply (intro flags_and_then flags_class_loop[OF assms])
          apply (simp_all add: map_filter_simps flags_open_outputs split: option.splits list.splits)
    done
  done

lemma flags_main:
  assumes "parse_args (c_lib wd) initial_config
             (snd (init_ndv_options wd (init_geo_options wd argv))) = Inr c"
    and "major_ring_only c"
  shows "False \<notin> set (List.map_filter no_donuts_arg (fst (main wd st argv)))"
proof (cases "argv = []")
  case True
  then show ?thesis by (simp add: main_def map_filter_simps)
next
  case False
  show ?thesis
    unfolding main_unfold[OF False assms(1)]
    by (simp add: flags_run_outline[OF assms(2)] map_filter_simps split: sum.splits)
qed

text \<open>
  Claim C9. With \<^verbatim>\<open>major_ring_only\<close> set, \<^verbatim>\<open>calc_ring_from_mask\<close> traces the
  mask with \<^verbatim>\<open>no_donuts\<close> true, whatever the value of \<^verbatim>\<open>no_donuts\<close> that was
  passed in: it is the computation that calls the tracer with true and works on the
  multipolygon that the tracer returns for true, which is its value as it stands when that
  multipolygon has at most one ring and the bevel size is 0. In a pass of the class loop
  the tracer is called exactly once, with true, and the multipolygon that leaves the pass
  is made from the one traced with true. In a run of \<^verbatim>\<open>main\<close> whose options are
  read as a configuration with \<^verbatim>\<open>major_ring_only\<close>, no call of the tracer has false.
\<close>

theorem major_ring_forces_no_donuts:
  "calc_ring_from_mask st msk w h True nd a b =
     and_then (call (Call_trace_mask msk w h a True) (trace_mask st msk w h a True)) (\<lambda>mp.
     and_then (major_ring_pass st True mp) (\<lambda>mp. bevel_pass st mp b)) \<and>
   (length (rings (trace_mask st msk w h a True)) \<le> 1 \<longrightarrow>
      calc_ring_from_mask st msk w h True nd a (Finite 0) =
        ([Call_trace_mask msk w h a True], Inr (trace_mask st msk w h a True))) \<and>
   List.map_filter no_donuts_arg (fst (calc_ring_from_mask st msk w h True nd a b)) = [True] \<and>
   (major_ring_only c \<longrightarrow>
      List.map_filter no_donuts_arg (fst (process_mask c wd st class_id msk)) = [True] \<and>
      pixel_poly c wd st msk =
        (case snd (major_ring_pass st True (traced c wd st msk True)) of
           Inl e \<Rightarrow> (mask_calls c st msk @ [tracer_call c wd st msk True], Inl e)
         | Inr mp \<Rightarrow>
             (mask_calls c st msk @ [tracer_call c wd st msk True] @
                (if bevel_on c mp then [Call_bevel_self_intersections mp (bevel_size c)] else []) @
                (if pinch_on c (bevelled c st mp) then [Call_pinch_excursions2 (bevelled c st mp)]
                 else []),
              Inr (pinched c st (bevelled c st mp))))) \<and>
   (parse_args (c_lib wd) initial_config
      (snd (init_ndv_options wd (init_geo_options wd argv))) = Inr c' \<and> major_ring_only c' \<longrightarrow>
      False \<notin> set (List.map_filter no_donuts_arg (fst (main wd st argv))))"
proof (intro conjI impI)
  show "calc_ring_from_mask st msk w h True nd a b =
     and_then (call (Call_trace_mask msk w h a True) (trace_mask st msk w h a True)) (\<lambda>mp.
     and_then (major_ring_pass st True mp) (\<lambda>mp. bevel_pass st mp b))"
    by (simp add: calc_ring_from_mask_def)
next
  assume "length (rings (trace_mask st msk w h a True)) \<le> 1"
  then show "calc_ring_from_mask st msk w h True nd a (Finite 0) =
        ([Call_trace_mask msk w h a True], Inr (trace_mask st msk w h a True))"
    by (simp add: calc_ring_from_mask_def major_ring_pass_def bevel_pass_zero)
next
  show "List.map_filter no_donuts_arg (fst (calc_ring_from_mask st msk w h True nd a b)) = [True]"
    by (simp add: no_donuts_calc_ring)
next
  assume m: "major_ring_only c"
  have pre: "List.map_filter no_donuts_arg (fst (if t then call (Call_invert g) g' else ret g)) = []"
    "List.map_filter no_donuts_arg (fst (if t then call (Call_erode g) g' else ret g)) = []"
    for t g g'
    by (simp_all add: map_filter_simps)
  have pin: "List.map_filter no_donuts_arg (fst (pinch_pass c st fp)) = []" for fp
    by (simp add: pinch_pass_def map_filter_simps)
  have pix: "List.map_filter no_donuts_arg (fst (pixel_poly c wd st msk)) =
      [if major_ring_only c then True else no_donuts c]"
    by (simp add: pixel_poly_def map_filter_and_then pre pin no_donuts_calc_ring
        split: sum.splits)
  have mo: "List.map_filter no_donuts_arg (fst (mask_out_pass c wd fp)) = []" for fp
    by (simp add: mask_out_pass_def map_filter_simps split: option.splits)
  have re: "List.map_filter no_donuts_arg (fst (reduce_pass c st fp)) = []" for fp
    by (simp add: reduce_pass_def map_filter_simps)
  have ou: "List.map_filter no_donuts_arg (fst (output_pass c wd st class_id fp)) = []" for fp
    by (rule no_tracer_no_args, rule ranked_avoid[OF ranked_output_pass]) simp
  have "List.map_filter no_donuts_arg (fst (process_mask c wd st class_id msk)) =
      [if major_ring_only c then True else no_donuts c]"
    by (simp add: process_mask_def map_filter_and_then pix mo re ou split: sum.splits)
  with m show "List.map_filter no_donuts_arg (fst (process_mask c wd st class_id msk)) = [True]"
    by simp
  from m show "pixel_poly c wd st msk =
        (case snd (major_ring_pass st True (traced c wd st msk True)) of
           Inl e \<Rightarrow> (mask_calls c st msk @ [tracer_call c wd st msk True], Inl e)
         | Inr mp \<Rightarrow>
             (mask_calls c st msk @ [tracer_call c wd st msk True] @
                (if bevel_on c mp then [Call_bevel_self_intersections mp (bevel_size c)] else []) @
                (if pinch_on c (bevelled c st mp) then [Call_pinch_excursions2 (bevelled c st mp)]
                 else []),
              Inr (pinched c st (bevelled c st mp))))"
    by (simp add: pixel_poly_eq split: sum.splits)
next
  assume "parse_args (c_lib wd) initial_config
      (snd (init_ndv_options wd (init_geo_options wd argv))) = Inr c' \<and> major_ring_only c'"
  then show "False \<notin> set (List.map_filter no_donuts_arg (fst (main wd st argv)))"
    by (elim conjE) (rule flags_main)
qed

text \<open>
  On the sample, where \<^verbatim>\<open>-no-donuts\<close> is not given: the tracer gets true with
  \<^verbatim>\<open>-major-ring\<close> and false without, the sample tracer returns the outer ring alone
  for true and the outer ring with its hole for false, and the pass goes on with the outer
  ring alone.
\<close>

theorem major_ring_forces_no_donuts_witness:
  "major_ring_only (sample_config\<lparr>major_ring_only := True\<rparr>) \<and>
   \<not> no_donuts (sample_config\<lparr>major_ring_only := True\<rparr>) \<and>
   List.map_filter no_donuts_arg (fst (process_mask (sample_config\<lparr>major_ring_only := True\<rparr>)
      sample_world sample_stages 0 sample_mask)) = [True] \<and>
   List.map_filter no_donuts_arg (fst (process_mask sample_config
      sample_world sample_stages 0 sample_mask)) = [False] \<and>
   traced (sample_config\<lparr>major_ring_only := True\<rparr>) sample_world sample_stages sample_mask True =
     \<lparr>rings = [sample_outer]\<rparr> \<and>
   traced (sample_config\<lparr>major_ring_only := True\<rparr>) sample_world sample_stages sample_mask False =
     \<lparr>rings = [sample_outer, sample_hole]\<rparr> \<and>
   snd (pixel_poly (sample_config\<lparr>major_ring_only := True\<rparr>) sample_world sample_stages sample_mask) =
     Inr (pinched sample_config sample_stages
            (bevelled sample_config sample_stages \<lparr>rings = [sample_outer]\<rparr>)) \<and>
   length (rings (trace_mask sample_stages sample_mask 4 3 0 True)) \<le> 1 \<and>
   calc_ring_from_mask sample_stages sample_mask 4 3 True False 0 (Finite 0) =
     ([Call_trace_mask sample_mask 4 3 0 True], Inr \<lparr>rings = [sample_outer]\<rparr>) \<and>
   parse_args (c_lib sample_world) initial_config
     (snd (init_ndv_options sample_world (init_geo_options sample_world
        [''dem.tif'', ''-major-ring'', ''-out-cs'', ''xy'', ''-wkt-out'', ''outline.wkt'']))) =
     Inr (initial_config\<lparr>input_raster_fn := Some ''dem.tif'', major_ring_only := True,
            cur_out_cs := CS_XY,
            geom_outputs := [\<lparr>out_cs = CS_XY, wkt_fn = Some ''outline.wkt'', wkb_fn = None,
                               ogr_fn = None, ogr_fmt = None\<rparr>]\<rparr>) \<and>
   List.map_filter no_donuts_arg (fst (main sample_world sample_stages
     [''dem.tif'', ''-major-ring'', ''-out-cs'', ''xy'', ''-wkt-out'', ''outline.wkt''])) = [True] \<and>
   False \<notin> set (List.map_filter no_donuts_arg (fst (main sample_world sample_stages
     [''dem.tif'', ''-major-ring'', ''-out-cs'', ''xy'', ''-wkt-out'', ''outline.wkt''])))"
proof -
  let ?cm = "sample_config\<lparr>major_ring_only := True\<rparr>"
  let ?argv = "[''dem.tif'', ''-major-ring'', ''-out-cs'', ''xy'', ''-wkt-out'', ''outline.wkt'']"
  let ?cp = "initial_config\<lparr>input_raster_fn := Some ''dem.tif'', major_ring_only := True,
            cur_out_cs := CS_XY,
            geom_outputs := [\<lparr>out_cs = CS_XY, wkt_fn = Some ''outline.wkt'', wkb_fn = None,
                               ogr_fn = None, ogr_fmt = None\<rparr>]\<rparr>"
  note t = major_ring_forces_no_donuts[where c = ?cm and st = sample_stages and wd = sample_world
      and class_id = 0 and msk = sample_mask and w = 4 and h = 3 and a = 0 and nd = False
      and argv = ?argv and c' = ?cp]
  have m: "major_ring_only ?cm" by simp
  have d: "\<not> no_donuts ?cm" by (simp add: sample_config_def initial_config_def)
  have n: "List.map_filter no_donuts_arg (fst (process_mask sample_config
      sample_world sample_stages 0 sample_mask)) = [False]"
    by code_simp
  have f: "List.map_filter no_donuts_arg (fst (process_mask ?cm
      sample_world sample_stages 0 sample_mask)) = [True]"
    by (rule t[THEN conjunct2, THEN conjunct2, THEN conjunct2, THEN conjunct1, THEN mp, OF m,
          THEN conjunct1])
  have tr: "traced ?cm sample_world sample_stages sample_mask True = \<lparr>rings = [sample_outer]\<rparr>"
    "traced ?cm sample_world sample_stages sample_mask False = \<lparr>rings = [sample_outer, sample_hole]\<rparr>"
    by code_simp+
  have sel: "snd (major_ring_pass sample_stages True \<lparr>rings = [sample_outer]\<rparr>) =
      Inr \<lparr>rings = [sample_outer]\<rparr>"
    by code_simp
  have eq: "pinched ?cm = pinched sample_config" "bevelled ?cm = bevelled sample_config"
    by (simp_all add: pinched_def bevelled_def pinch_on_def bevel_on_def fun_eq_iff)
  have v: "snd (pixel_poly ?cm sample_world sample_stages sample_mask) =
     Inr (pinched sample_config sample_stages
            (bevelled sample_config sample_stages \<lparr>rings = [sample_outer]\<rparr>))"
    by (simp only: t[THEN conjunct2, THEN conjunct2, THEN conjunct2, THEN conjunct1, THEN mp, OF m,
          THEN conjunct2] tr sel sum.case snd_conv eq)
  have l: "length (rings (trace_mask sample_stages sample_mask 4 3 0 True)) \<le> 1"
    by code_simp
  have tv: "trace_mask sample_stages sample_mask 4 3 0 True = \<lparr>rings = [sample_outer]\<rparr>"
    by code_simp
  have cr: "calc_ring_from_mask sample_stages sample_mask 4 3 True False 0 (Finite 0) =
     ([Call_trace_mask sample_mask 4 3 0 True], Inr \<lparr>rings = [sample_outer]\<rparr>)"
    using t[THEN conjunct2, THEN conjunct1, THEN mp, OF l] by (simp only: tv)
  have p: "parse_args (c_lib sample_world) initial_config
     (snd (init_ndv_options sample_world (init_geo_options sample_world ?argv))) = Inr ?cp"
    by code_simp
  have mj: "major_ring_only ?cp" by simp
  have fm: "False \<notin> set (List.map_filter no_donuts_arg (fst (main sample_world sample_stages ?argv)))"
    by (rule t[THEN conjunct2, THEN conjunct2, THEN conjunct2, THEN conjunct2, THEN mp,
          OF conjI[OF p mj]])
  have fl: "List.map_filter no_donuts_arg (fst (main sample_world sample_stages ?argv)) = [True]"
    by code_simp
  show ?thesis
    using m d f n tr v l cr p fl fm by (intro conjI) simp_all
qed

subsection \<open>The biggest ring\<close>

lemma dless_trans: "dless a b \<Longrightarrow> dless b c \<Longrightarrow> dless a c"
  by (cases a; cases b; cases c) simp_all

lemma dless_total: "a \<noteq> NaN \<Longrightarrow> b \<noteq> NaN \<Longrightarrow> dless a b \<or> a = b \<or> dless b a"
  by (cases a; cases b) auto

lemma dless_irrefl [simp]: "\<not> dless a a"
  by (cases a) simp_all

lemma dless_asym: "dless a b \<Longrightarrow> \<not> dless b a"
  by (cases a; cases b) simp_all

lemma dless_not_NaN: "dless a b \<Longrightarrow> a \<noteq> NaN \<and> b \<noteq> NaN"
  by (cases a; cases b) simp_all

lemma dgeq_refl: "a \<noteq> NaN \<Longrightarrow> dgeq a a"
  by (simp add: dgeq_def)

lemma dgeq_iff: "dgeq a b \<longleftrightarrow> a \<noteq> NaN \<and> b \<noteq> NaN \<and> (dless b a \<or> a = b)"
  using dless_total[of a b] dless_asym[of a b] by (auto simp: dgeq_def)

lemma dgeq_trans: "dgeq a b \<Longrightarrow> dgeq b c \<Longrightarrow> dgeq a c"
  by (auto simp: dgeq_iff intro: dless_trans)

lemma dgeq_antisym: "dgeq a b \<Longrightarrow> dgeq b a \<Longrightarrow> a = b"
  by (auto simp: dgeq_iff dest: dless_asym)

lemma dless_dgeq_trans: "dless a b \<Longrightarrow> dgeq c b \<Longrightarrow> dless a c"
  by (auto simp: dgeq_iff intro: dless_trans)

lemma dgeq_dless_trans: "dgeq b a \<Longrightarrow> dless b c \<Longrightarrow> dless a c"
  by (auto simp: dgeq_iff intro: dless_trans)

lemma not_dless_dgeq: "a \<noteq> NaN \<Longrightarrow> b \<noteq> NaN \<Longrightarrow> \<not> dless a b \<Longrightarrow> dgeq a b"
  by (simp add: dgeq_def)

lemma biggest_loop_spec:
  assumes "\<forall>r \<in> set rs. area r \<noteq> NaN" and "ba \<noteq> NaN"
  shows "case biggest_loop area rs i (ba, bi) of (ba', bi') \<Rightarrow>
           dgeq ba' ba \<and> (\<forall>r \<in> set rs. dgeq ba' (area r)) \<and>
           (bi' = bi \<and> ba' = ba \<or>
            i \<le> bi' \<and> bi' < i + length rs \<and> area (rs ! (bi' - i)) = ba' \<and> dless ba ba' \<and>
            (\<forall>j < bi' - i. dless (area (rs ! j)) ba'))"
  using assms
proof (induction rs arbitrary: i ba bi)
  case Nil
  then show ?case by (simp add: dgeq_refl)
next
  case (Cons r rs)
  from Cons.prems have nr: "area r \<noteq> NaN" and nrs: "\<forall>r \<in> set rs. area r \<noteq> NaN"
    by simp_all
  show ?case
  proof (cases "dgreater (area r) ba")
    case True
    then have lt: "dless ba (area r)" by (simp add: dgreater_def)
    obtain ba' bi' where res: "biggest_loop area rs (i + 1) (area r, i) = (ba', bi')"
      by (cases "biggest_loop area rs (i + 1) (area r, i)")
    from Cons.IH[where i = "i + 1" and ba = "area r" and bi = i, OF nrs nr] res
    have ih: "dgeq ba' (area r)" "\<forall>r \<in> set rs. dgeq ba' (area r)"
      "bi' = i \<and> ba' = area r \<or>
       i + 1 \<le> bi' \<and> bi' < i + 1 + length rs \<and> area (rs ! (bi' - (i + 1))) = ba' \<and>
       dless (area r) ba' \<and> (\<forall>j < bi' - (i + 1). dless (area (rs ! j)) ba')"
      by simp_all
    have g: "dgeq ba' ba"
      using lt ih(1) by (auto simp: dgeq_iff dest: dless_not_NaN intro: dless_trans)
    have l: "dless ba ba'"
      using lt ih(1) by (rule dless_dgeq_trans)
    from ih(3) have "i \<le> bi' \<and> bi' < i + length (r # rs) \<and> area ((r # rs) ! (bi' - i)) = ba' \<and>
        (\<forall>j < bi' - i. dless (area ((r # rs) ! j)) ba')"
    proof
      assume "bi' = i \<and> ba' = area r"
      then show ?thesis by simp
    next
      assume a: "i + 1 \<le> bi' \<and> bi' < i + 1 + length rs \<and> area (rs ! (bi' - (i + 1))) = ba' \<and>
       dless (area r) ba' \<and> (\<forall>j < bi' - (i + 1). dless (area (rs ! j)) ba')"
      then have "i + 1 \<le> bi'" by (rule conjunct1)
      then have s: "bi' - i = Suc (bi' - (i + 1))" by arith
      have "dless (area ((r # rs) ! j)) ba'" if "j < bi' - i" for j
        using that a s by (cases j) simp_all
      with a s show ?thesis by simp
    qed
    with True res ih g l show ?thesis by simp
  next
    case False
    then have ge: "dgeq ba (area r)"
      using nr Cons.prems(2) by (simp add: dgreater_def not_dless_dgeq)
    obtain ba' bi' where res: "biggest_loop area rs (i + 1) (ba, bi) = (ba', bi')"
      by (cases "biggest_loop area rs (i + 1) (ba, bi)")
    from Cons.IH[where i = "i + 1" and ba = ba and bi = bi, OF nrs Cons.prems(2)] res
    have ih: "dgeq ba' ba" "\<forall>r \<in> set rs. dgeq ba' (area r)"
      "bi' = bi \<and> ba' = ba \<or>
       i + 1 \<le> bi' \<and> bi' < i + 1 + length rs \<and> area (rs ! (bi' - (i + 1))) = ba' \<and>
       dless ba ba' \<and> (\<forall>j < bi' - (i + 1). dless (area (rs ! j)) ba')"
      by simp_all
    have g: "dgeq ba' (area r)" using ih(1) ge by (rule dgeq_trans)
    from ih(3) have "bi' = bi \<and> ba' = ba \<or>
        i \<le> bi' \<and> bi' < i + length (r # rs) \<and> area ((r # rs) ! (bi' - i)) = ba' \<and> dless ba ba' \<and>
        (\<forall>j < bi' - i. dless (area ((r # rs) ! j)) ba')"
    proof
      assume "bi' = bi \<and> ba' = ba"
      then show ?thesis by simp
    next
      assume a: "i + 1 \<le> bi' \<and> bi' < i + 1 + length rs \<and> area (rs ! (bi' - (i + 1))) = ba' \<and>
       dless ba ba' \<and> (\<forall>j < bi' - (i + 1). dless (area (rs ! j)) ba')"
      then have "i + 1 \<le> bi'" by (rule conjunct1)
      then have s: "bi' - i = Suc (bi' - (i + 1))" by arith
      have r0: "dless (area r) ba'" using ge a by (auto intro: dgeq_dless_trans)
      have "dless (area ((r # rs) ! j)) ba'" if "j < bi' - i" for j
        using that a s r0 by (cases j) simp_all
      with a s show ?thesis by simp
    qed
    with False res ih g show ?thesis by simp
  qed
qed

lemma biggest_loop_first_largest:
  assumes "rs \<noteq> []" and "\<forall>r \<in> set rs. dgeq (area r) (Finite 0)"
  shows "is_first_largest area rs (snd (biggest_loop area rs 0 (Finite 0, 0)))"
proof -
  from assms(2) have nn: "\<forall>r \<in> set rs. area r \<noteq> NaN" by (simp add: dgeq_def)
  obtain ba' bi' where res: "biggest_loop area rs 0 (Finite 0, 0) = (ba', bi')"
    by (cases "biggest_loop area rs 0 (Finite 0, 0)")
  from biggest_loop_spec[OF nn, of "Finite 0" 0 0] res
  have s: "\<forall>r \<in> set rs. dgeq ba' (area r)"
    "bi' = 0 \<and> ba' = Finite 0 \<or>
     bi' < length rs \<and> area (rs ! bi') = ba' \<and> (\<forall>j < bi'. dless (area (rs ! j)) ba')"
    by auto
  from s(2) have "is_first_largest area rs bi'"
  proof
    assume z: "bi' = 0 \<and> ba' = Finite 0"
    have "area r = Finite 0" if "r \<in> set rs" for r
      using that s(1) assms(2) z by (auto intro: dgeq_antisym)
    with assms(1) z show ?thesis
      by (simp add: is_first_largest_def dgeq_refl)
  next
    assume "bi' < length rs \<and> area (rs ! bi') = ba' \<and> (\<forall>j < bi'. dless (area (rs ! j)) ba')"
    with s(1) show ?thesis by (auto simp: is_first_largest_def)
  qed
  with res show ?thesis by simp
qed


lemma take_major_ring_first_largest:
  assumes "rings mp \<noteq> []" and "\<forall>r \<in> set (rings mp). dgeq (ring_area st r) (Finite 0)"
  shows "\<exists>i. is_first_largest (ring_area st) (rings mp) i \<and>
    take_major_ring st mp =
      (if 0 \<le> parent_id (rings mp ! i) then fatal_error ''largest ring should not have a parent''
       else ret \<lparr>rings = [rings mp ! i]\<rparr>)"
proof -
  let ?i = "snd (biggest_loop (ring_area st) (rings mp) 0 (Finite 0, 0))"
  have "is_first_largest (ring_area st) (rings mp) ?i"
    using assms by (rule biggest_loop_first_largest)
  moreover have "take_major_ring st mp =
      (if 0 \<le> parent_id (rings mp ! ?i) then fatal_error ''largest ring should not have a parent''
       else ret \<lparr>rings = [rings mp ! ?i]\<rparr>)"
    by (simp add: take_major_ring_def split: prod.splits)
  ultimately show ?thesis by blast
qed

lemma calc_ring_major_abort:
  "snd (major_ring_pass st True (trace_mask st msk w h a True)) = Inl e \<Longrightarrow>
   calc_ring_from_mask st msk w h True nd a b = ([Call_trace_mask msk w h a True], Inl e)"
  by (simp add: calc_ring_from_mask_def prod_eq_iff fst_and_then snd_and_then)

text \<open>
  Claim C6, as the driver has it. Let the areas of the traced rings be numbers that are
  not negative. In major-ring-only mode, when there is more than one ring, the block
  looks at the first ring of largest area: if it has a parent the run ends with the error
  \<^verbatim>\<open>largest ring should not have a parent\<close>, otherwise the block yields the
  multipolygon made of that ring alone. When there is at most one ring the block is
  skipped: the multipolygon is passed on as it is, and no parent is looked at. An error of
  the block ends \<^verbatim>\<open>calc_ring_from_mask\<close> right after the call of the tracer.
\<close>

theorem major_ring_selection:
  assumes "\<forall>r \<in> set (rings mp). dgeq (ring_area st r) (Finite 0)"
  shows "(1 < length (rings mp) \<longrightarrow>
           (\<exists>i. is_first_largest (ring_area st) (rings mp) i \<and>
                major_ring_pass st True mp =
                  (if 0 \<le> parent_id (rings mp ! i) then
                     fatal_error ''largest ring should not have a parent''
                   else ret \<lparr>rings = [rings mp ! i]\<rparr>))) \<and>
         (length (rings mp) \<le> 1 \<longrightarrow> major_ring_pass st True mp = ret mp) \<and>
         (mp = trace_mask st msk w h min_area True \<and> snd (major_ring_pass st True mp) = Inl e \<longrightarrow>
            calc_ring_from_mask st msk w h True nd min_area b =
              ([Call_trace_mask msk w h min_area True], Inl e))"
proof (intro conjI impI)
  assume l: "1 < length (rings mp)"
  then have "rings mp \<noteq> []" by auto
  from take_major_ring_first_largest[OF this assms] l
  show "\<exists>i. is_first_largest (ring_area st) (rings mp) i \<and>
      major_ring_pass st True mp =
        (if 0 \<le> parent_id (rings mp ! i) then
           fatal_error ''largest ring should not have a parent''
         else ret \<lparr>rings = [rings mp ! i]\<rparr>)"
    by (simp add: major_ring_pass_def)
next
  assume "length (rings mp) \<le> 1"
  then show "major_ring_pass st True mp = ret mp"
    by (simp add: major_ring_pass_def)
next
  assume "mp = trace_mask st msk w h min_area True \<and> snd (major_ring_pass st True mp) = Inl e"
  then have "snd (major_ring_pass st True (trace_mask st msk w h min_area True)) = Inl e"
    by blast
  then show "calc_ring_from_mask st msk w h True nd min_area b =
      ([Call_trace_mask msk w h min_area True], Inl e)"
    by (rule calc_ring_major_abort)
qed

text \<open>
  On the sample rings: of the outer ring and its hole the outer ring is kept; when the
  biggest ring is recorded as a child the block fails; a ring alone is passed on.
\<close>

theorem major_ring_selection_witness:
  "1 < length (rings \<lparr>rings = [sample_outer, sample_hole]\<rparr>) \<and>
   (\<exists>i. is_first_largest sample_area [sample_outer, sample_hole] i \<and>
        major_ring_pass sample_stages True \<lparr>rings = [sample_outer, sample_hole]\<rparr> =
          (if 0 \<le> parent_id ([sample_outer, sample_hole] ! i) then
             fatal_error ''largest ring should not have a parent''
           else ret \<lparr>rings = [[sample_outer, sample_hole] ! i]\<rparr>)) \<and>
   major_ring_pass sample_stages True \<lparr>rings = [sample_outer, sample_hole]\<rparr> =
     ([], Inr \<lparr>rings = [sample_outer]\<rparr>) \<and>
   major_ring_pass sample_stages True \<lparr>rings = [sample_hole, nested_outer]\<rparr> =
     ([], Inl (Fatal ''largest ring should not have a parent'')) \<and>
   length (rings \<lparr>rings = [sample_outer]\<rparr>) \<le> 1 \<and>
   major_ring_pass sample_stages True \<lparr>rings = [sample_outer]\<rparr> = ret \<lparr>rings = [sample_outer]\<rparr>"
proof -
  have a: "dgeq (sample_area sample_outer) (Finite 0)" "dgeq (sample_area sample_hole) (Finite 0)"
    by (simp_all add: sample_area_def sample_outer_def sample_hole_def dgeq_def)
  have h1: "\<forall>r \<in> set (rings \<lparr>rings = [sample_outer, sample_hole]\<rparr>).
      dgeq (ring_area sample_stages r) (Finite 0)"
    using a by (simp add: sample_stages_def)
  have h2: "\<forall>r \<in> set (rings \<lparr>rings = [sample_outer]\<rparr>).
      dgeq (ring_area sample_stages r) (Finite 0)"
    using a by (simp add: sample_stages_def)
  have r: "ring_area sample_stages = sample_area" by (simp add: sample_stages_def)
  have e1: "major_ring_pass sample_stages True \<lparr>rings = [sample_outer, sample_hole]\<rparr> =
     ([], Inr \<lparr>rings = [sample_outer]\<rparr>)"
    by code_simp
  have e2: "major_ring_pass sample_stages True \<lparr>rings = [sample_hole, nested_outer]\<rparr> =
     ([], Inl (Fatal ''largest ring should not have a parent''))"
    by code_simp
  note t1 = major_ring_selection[OF h1, of sample_mask 4 3 0 "Fatal []" False "Finite 0"]
  note t2 = major_ring_selection[OF h2, of sample_mask 4 3 0 "Fatal []" False "Finite 0"]
  from t1 have c1: "\<exists>i. is_first_largest sample_area [sample_outer, sample_hole] i \<and>
        major_ring_pass sample_stages True \<lparr>rings = [sample_outer, sample_hole]\<rparr> =
          (if 0 \<le> parent_id ([sample_outer, sample_hole] ! i) then
             fatal_error ''largest ring should not have a parent''
           else ret \<lparr>rings = [[sample_outer, sample_hole] ! i]\<rparr>)"
    by (simp add: r split del: if_split cong: if_cong)
  from t2 have c2: "major_ring_pass sample_stages True \<lparr>rings = [sample_outer]\<rparr> =
      ret \<lparr>rings = [sample_outer]\<rparr>"
    by simp
  from c1 c2 e1 e2 show ?thesis by simp
qed

text \<open>
  A ring alone, and so the ring of largest area, that has a parent: the block is skipped,
  and nothing aborts.
\<close>

theorem single_ring_with_parent_counterexample:
  "0 \<le> parent_id sample_hole \<and>
   major_ring_pass sample_stages True \<lparr>rings = [sample_hole]\<rparr> = ([], Inr \<lparr>rings = [sample_hole]\<rparr>)"
  by (simp add: sample_hole_def major_ring_pass_def ret_def)

subsection \<open>The round trip of a mask\<close>

lemma next_edge_start: "fst (next_edge g e) = edge_end e"
  by (simp add: next_edge_def Let_def)

lemma next_edge_boundary: "is_boundary g e \<Longrightarrow> is_boundary g (next_edge g e)"
proof -
  assume b: "is_boundary g e"
  obtain a c d where e: "e = ((a, c), d)" by (cases e) auto
  show ?thesis
    using b unfolding e by (cases d) (auto simp: next_edge_def Let_def)
qed

lemma next_edge_inj:
  assumes "is_boundary g e1" and "is_boundary g e2" and "next_edge g e1 = next_edge g e2"
  shows "e1 = e2"
proof -
  obtain a1 b1 d1 where e1: "e1 = ((a1, b1), d1)" by (cases e1) auto
  obtain a2 b2 d2 where e2: "e2 = ((a2, b2), d2)" by (cases e2) auto
  show ?thesis
    using assms unfolding e1 e2
    by (cases d1; cases d2) (auto simp: next_edge_def Let_def add.commute split: if_splits)
qed

lemma set_all_headings: "set all_headings = UNIV"
proof -
  have "d \<in> set all_headings" for d
    by (cases d) (simp_all add: all_headings_def)
  then show ?thesis by blast
qed

lemma set_grid_edges:
  "set (grid_edges g) = {((a, b), d) | a b d. 0 \<le> a \<and> a \<le> int (grid_w g) \<and> 0 \<le> b \<and> b \<le> int (grid_h g)}"
  unfolding grid_edges_def by (auto simp: set_all_headings image_iff)

lemma distinct_grid_edges: "distinct (grid_edges g)"
  unfolding grid_edges_def
  by (auto simp: distinct_map distinct_product all_headings_def inj_on_def)

lemma boundary_in_grid: "is_boundary g e \<Longrightarrow> e \<in> set (grid_edges g)"
proof -
  assume b: "is_boundary g e"
  obtain a c d where e: "e = ((a, c), d)" by (cases e) auto
  from b show ?thesis unfolding e set_grid_edges
    by (cases d) (auto simp: is_fg_def)
qed

lemma set_boundary_edges: "set (boundary_edges g) = {e. is_boundary g e}"
  unfolding boundary_edges_def using boundary_in_grid by auto

lemma distinct_boundary_edges: "distinct (boundary_edges g)"
  unfolding boundary_edges_def by (simp add: distinct_grid_edges)

lemma finite_boundary: "finite {e. is_boundary g e}"
  using set_boundary_edges[of g, symmetric] by simp

lemma walk_closes:
  assumes inv: "walk_inv g cur loop unused" and n: "next_edge g cur \<notin> set unused"
  shows "next_edge g cur = hd loop"
proof -
  let ?D = "{e. is_boundary g e \<and> e \<notin> set (loop @ unused)}"
  from inv have ne: "loop \<noteq> []" and la: "last loop = cur"
    and su: "successively (\<lambda>a b. b = next_edge g a) loop"
    and di: "distinct (loop @ unused)"
    and bo: "\<forall>e \<in> set (loop @ unused). is_boundary g e"
    and cl: "\<forall>e. is_boundary g e \<and> e \<notin> set (loop @ unused) \<longrightarrow> next_edge g e \<notin> set (loop @ unused)"
    by (simp_all add: walk_inv_def)
  have cur: "cur \<in> set loop" using ne la by auto
  then have bcur: "is_boundary g cur" using bo by simp
  have fin: "finite ?D" using finite_boundary[of g] by simp
  have sub: "next_edge g ` ?D \<subseteq> ?D"
    using cl next_edge_boundary by auto
  have inj: "inj_on (next_edge g) ?D"
  proof (rule inj_onI)
    fix x y assume "x \<in> ?D" "y \<in> ?D" "next_edge g x = next_edge g y"
    then show "x = y" using next_edge_inj[of g x y] by simp
  qed
  have img: "next_edge g ` ?D = ?D"
    by (rule card_subset_eq[OF fin sub card_image[OF inj]])
  have "next_edge g cur \<notin> ?D"
  proof
    assume "next_edge g cur \<in> ?D"
    with img have "next_edge g cur \<in> next_edge g ` ?D" by simp
    then obtain d where d: "d \<in> ?D" "next_edge g d = next_edge g cur" by (auto simp: image_iff)
    then have "d = cur" using bcur next_edge_inj[of g d cur] by simp
    with d(1) cur show False by simp
  qed
  moreover have "is_boundary g (next_edge g cur)"
    using bcur by (rule next_edge_boundary)
  ultimately have "next_edge g cur \<in> set loop" using n by auto
  then obtain j where j: "j < length loop" "loop ! j = next_edge g cur"
    by (auto simp: in_set_conv_nth)
  show ?thesis
  proof (cases j)
    case 0
    with j ne show ?thesis by (simp add: hd_conv_nth)
  next
    case (Suc k)
    with j su have "next_edge g (loop ! k) = next_edge g cur"
      using successively_nth[of "\<lambda>a b. b = next_edge g a" loop k] by simp
    moreover have "is_boundary g (loop ! k)" using bo j Suc by simp
    ultimately have "loop ! k = cur" using bcur next_edge_inj[of g "loop ! k" cur] by simp
    moreover have "cur = loop ! (length loop - 1)" using la ne by (simp add: last_conv_nth)
    moreover have "distinct loop" using di by simp
    ultimately have "k = length loop - 1"
      using j Suc ne by (simp add: nth_eq_iff_index_eq)
    with j Suc show ?thesis by simp
  qed
qed

lemma walk_inv_extend:
  assumes inv: "walk_inv g cur loop unused" and n: "next_edge g cur \<in> set unused"
  shows "walk_inv g (next_edge g cur) (loop @ [next_edge g cur]) (remove1 (next_edge g cur) unused)"
proof -
  from inv have ne: "loop \<noteq> []" and la: "last loop = cur"
    and su: "successively (\<lambda>a b. b = next_edge g a) loop"
    and di: "distinct (loop @ unused)"
    and bo: "\<forall>e \<in> set (loop @ unused). is_boundary g e"
    and cl: "\<forall>e. is_boundary g e \<and> e \<notin> set (loop @ unused) \<longrightarrow> next_edge g e \<notin> set (loop @ unused)"
    by (simp_all add: walk_inv_def)
  have s: "set ((loop @ [next_edge g cur]) @ remove1 (next_edge g cur) unused) = set (loop @ unused)"
    using n di by auto
  have "successively (\<lambda>a b. b = next_edge g a) (loop @ [next_edge g cur])"
    using su ne la by (simp add: successively_append_iff)
  moreover have "distinct ((loop @ [next_edge g cur]) @ remove1 (next_edge g cur) unused)"
    using di n by auto
  ultimately show ?thesis
    unfolding walk_inv_def s using bo cl by simp
qed

lemma closed_loop_next_in:
  assumes "closed_loop g loop" and "x \<in> set loop"
  shows "next_edge g x \<in> set loop"
proof -
  from assms(2) obtain i where i: "i < length loop" "loop ! i = x"
    by (auto simp: in_set_conv_nth)
  from assms(1) have ne: "loop \<noteq> []" and su: "successively (\<lambda>a b. b = next_edge g a) loop"
    and cy: "next_edge g (last loop) = hd loop"
    by (simp_all add: closed_loop_def)
  show ?thesis
  proof (cases "Suc i < length loop")
    case True
    with su i have "loop ! Suc i = next_edge g x"
      using successively_nth[of "\<lambda>a b. b = next_edge g a" loop i] by simp
    with True show ?thesis using nth_mem[of "Suc i" loop] by simp
  next
    case False
    with i have "i = length loop - 1" by arith
    with i have "x = last loop" using ne by (simp add: last_conv_nth)
    with cy ne show ?thesis by simp
  qed
qed

lemma walk_inv_restart:
  assumes inv: "walk_inv g cur loop (e # rest)" and n: "next_edge g cur \<notin> set (e # rest)"
  shows "walk_inv g e [e] rest"
proof -
  from inv have ne: "loop \<noteq> []" and la: "last loop = cur"
    and su: "successively (\<lambda>a b. b = next_edge g a) loop"
    and di: "distinct (loop @ e # rest)"
    and bo: "\<forall>x \<in> set (loop @ e # rest). is_boundary g x"
    and cl: "\<forall>x. is_boundary g x \<and> x \<notin> set (loop @ e # rest) \<longrightarrow> next_edge g x \<notin> set (loop @ e # rest)"
    by (simp_all add: walk_inv_def)
  have c: "closed_loop g loop"
    using walk_closes[OF inv n] ne su la by (simp add: closed_loop_def)
  have "next_edge g x \<notin> set ([e] @ rest)" if "is_boundary g x" "x \<notin> set ([e] @ rest)" for x
  proof (cases "x \<in> set loop")
    case True
    then have "next_edge g x \<in> set loop" by (rule closed_loop_next_in[OF c])
    with di show ?thesis by auto
  next
    case False
    with that have "x \<notin> set (loop @ e # rest)" by simp
    with cl that(1) have "next_edge g x \<notin> set (loop @ e # rest)" by blast
    then show ?thesis by simp
  qed
  then have "\<forall>x. is_boundary g x \<and> x \<notin> set ([e] @ rest) \<longrightarrow> next_edge g x \<notin> set ([e] @ rest)"
    by blast
  moreover have "distinct ([e] @ rest)" using di by simp
  moreover have "\<forall>x \<in> set ([e] @ rest). is_boundary g x" using bo by simp
  ultimately show ?thesis
    unfolding walk_inv_def by simp
qed

lemma walk_loops_correct:
  "walk_inv g cur loop unused \<Longrightarrow>
   (\<forall>l \<in> set (walk_loops g cur loop unused). closed_loop g l) \<and>
   distinct (concat (walk_loops g cur loop unused)) \<and>
   set (concat (walk_loops g cur loop unused)) = set loop \<union> set unused"
proof (induction g cur loop unused rule: walk_loops.induct)
  case (1 g cur loop unused)
  from "1.prems" have ne: "loop \<noteq> []" and la: "last loop = cur"
    and su: "successively (\<lambda>a b. b = next_edge g a) loop"
    and di: "distinct (loop @ unused)"
    by (simp_all add: walk_inv_def)
  show ?case
  proof (cases "next_edge g cur \<in> set unused")
    case True
    have eq: "walk_loops g cur loop unused =
        walk_loops g (next_edge g cur) (loop @ [next_edge g cur]) (remove1 (next_edge g cur) unused)"
      using True by (subst walk_loops.simps) simp
    have s: "set (loop @ [next_edge g cur]) \<union> set (remove1 (next_edge g cur) unused) =
        set loop \<union> set unused"
      using True di by auto
    from "1.IH"(1)[OF True walk_inv_extend[OF "1.prems" True]]
    show ?thesis unfolding eq s .
  next
    case False
    have c: "closed_loop g loop"
      using walk_closes[OF "1.prems" False] ne su la by (simp add: closed_loop_def)
    show ?thesis
    proof (cases unused)
      case Nil
      have eq: "walk_loops g cur loop unused = [loop]"
        using False Nil by (subst walk_loops.simps) simp
      show ?thesis unfolding eq using c di Nil by simp
    next
      case (Cons e rest)
      have eq: "walk_loops g cur loop unused = loop # walk_loops g e [e] rest"
        using False Cons by (subst walk_loops.simps) simp
      from "1.prems" False have "walk_inv g e [e] rest"
        unfolding Cons by (rule walk_inv_restart)
      from "1.IH"(2)[OF False Cons this]
      have ih: "\<forall>l \<in> set (walk_loops g e [e] rest). closed_loop g l"
        "distinct (concat (walk_loops g e [e] rest))"
        "set (concat (walk_loops g e [e] rest)) = set [e] \<union> set rest"
        by blast+
      have "set loop \<inter> set (concat (walk_loops g e [e] rest)) = {}"
        unfolding ih(3) using di Cons by auto
      with ih c di Cons show ?thesis unfolding eq by auto
    qed
  qed
qed

lemma trace_loops_correct:
  "(\<forall>l \<in> set (trace_loops g). closed_loop g l) \<and> distinct (concat (trace_loops g)) \<and>
   set (concat (trace_loops g)) = {e. is_boundary g e}"
proof (cases "boundary_edges g")
  case Nil
  with set_boundary_edges[of g] show ?thesis by (simp add: trace_loops_def)
next
  case (Cons e rest)
  have "walk_inv g e [e] rest"
    using distinct_boundary_edges[of g] set_boundary_edges[of g] next_edge_boundary
    unfolding Cons walk_inv_def by auto
  from walk_loops_correct[OF this] set_boundary_edges[of g] show ?thesis
    by (simp add: trace_loops_def Cons)
qed

lemma keep_ring_all: "keep_ring rs 0 False i"
  by (simp add: keep_ring_def area2_def)

lemma pts_filter_rings: "map pts (filter_rings rs 0 False) = map pts rs"
proof -
  have "map pts (filter_rings rs 0 False) = map (\<lambda>i. pts (rs ! i)) [0..<length rs]"
    by (simp add: filter_rings_def keep_ring_all Let_def comp_def)
  also have "\<dots> = map pts (map (\<lambda>i. rs ! i) [0..<length rs])"
    by (simp add: comp_def)
  also have "\<dots> = map pts rs"
    by (simp only: map_nth)
  finally show ?thesis .
qed

lemma pts_assemble_rings: "map pts (assemble_rings loops) = map (map fst) loops"
  by (simp add: assemble_rings_def loop_ring_def comp_def)

lemma pts_trace: "map pts (rings (trace g 0 False)) = map (map fst) (trace_loops g)"
  by (simp add: trace_def pts_filter_rings pts_assemble_rings)

lemma rotate1_loop:
  assumes "closed_loop g loop"
  shows "rotate1 (map fst loop) = map edge_end loop"
proof (rule nth_equalityI)
  show "length (rotate1 (map fst loop)) = length (map edge_end loop)" by simp
next
  fix i assume "i < length (rotate1 (map fst loop))"
  then have i: "i < length loop" by simp
  from assms have ne: "loop \<noteq> []" and su: "successively (\<lambda>a b. b = next_edge g a) loop"
    and cy: "next_edge g (last loop) = hd loop"
    by (simp_all add: closed_loop_def)
  have r: "rotate1 (map fst loop) ! i = map fst loop ! (Suc i mod length loop)"
    using i by (simp add: nth_rotate1)
  show "rotate1 (map fst loop) ! i = map edge_end loop ! i"
  proof (cases "Suc i < length loop")
    case True
    with su have "loop ! Suc i = next_edge g (loop ! i)"
      using successively_nth[of "\<lambda>a b. b = next_edge g a" loop i] by simp
    with True i r show ?thesis by (simp add: next_edge_start)
  next
    case False
    with i have e: "Suc i = length loop" by arith
    then have "i = length loop - 1" by arith
    then have "loop ! i = last loop" using ne by (simp add: last_conv_nth)
    moreover have "map fst loop ! (Suc i mod length loop) = fst (hd loop)"
      using e ne by (simp add: hd_conv_nth)
    ultimately show ?thesis using r i cy[symmetric] by (simp add: next_edge_start)
  qed
qed

lemma segments_loop:
  "closed_loop g loop \<Longrightarrow> ring_segments (map fst loop) = map (\<lambda>e. (fst e, edge_end e)) loop"
  by (simp add: ring_segments_def rotate1_loop zip_map_map zip_same_conv_map)

lemma crossings_loop:
  "closed_loop g loop \<Longrightarrow> crossings (map fst loop) x y = length (filter (crosses_edge x y) loop)"
proof -
  have c: "crosses_edge x y = (\<lambda>e. crosses (fst e) (edge_end e) x y)"
    by (rule ext) (simp add: crosses_edge_def)
  assume "closed_loop g loop"
  then show ?thesis
    by (simp add: crossings_def segments_loop filter_map comp_def c)
qed

lemma crosses_edge_South: "crosses_edge x y ((a, b), South) \<longleftrightarrow> b = y \<and> x < a"
  by (auto simp: crosses_edge_def crosses_def)

lemma crosses_edge_North: "crosses_edge x y ((a, b), North) \<longleftrightarrow> b = y + 1 \<and> x < a"
  by (auto simp: crosses_edge_def crosses_def)

lemma crosses_edge_East: "\<not> crosses_edge x y ((a, b), East)"
  by (simp add: crosses_edge_def crosses_def)

lemma crosses_edge_West: "\<not> crosses_edge x y ((a, b), West)"
  by (simp add: crosses_edge_def crosses_def)

lemma odd_count_odd: "odd (length (filter (\<lambda>r. odd (f r)) rs)) = odd (sum_list (map f rs))"
  for f :: "'a \<Rightarrow> nat"
  by (induction rs) simp_all

lemma count_concat: "sum_list (map (\<lambda>l. length (filter P l)) ls) = length (filter P (concat ls))"
  by (induction ls) simp_all

lemma crossing_boundary_edges:
  "{e. is_boundary g e \<and> crosses_edge x y e} = change_edge g y ` changes_right g y x"
proof (rule set_eqI)
  fix e :: edge
  obtain a b d where e: "e = ((a, b), d)" by (cases e) auto
  show "e \<in> {e. is_boundary g e \<and> crosses_edge x y e} \<longleftrightarrow> e \<in> change_edge g y ` changes_right g y x"
    unfolding e
    by (cases d)
       (auto simp: crosses_edge_South crosses_edge_North crosses_edge_East crosses_edge_West
          change_edge_def changes_right_def image_iff)
qed

lemma inj_change_edge: "inj_on (change_edge g y) A"
proof (rule inj_onI)
  fix a b assume "change_edge g y a = change_edge g y b"
  then have "fst (fst (change_edge g y a)) = fst (fst (change_edge g y b))" by simp
  then show "a = b" by (simp add: change_edge_def split: if_splits)
qed

lemma changes_right_bounded: "changes_right g y x \<subseteq> {x <.. int (grid_w g)}"
  by (auto simp: changes_right_def is_fg_def)

lemma finite_changes_right: "finite (changes_right g y x)"
  by (rule finite_subset[OF changes_right_bounded]) simp

lemma changes_right_step:
  "changes_right g y (x - 1) =
     (if is_fg g (x - 1) y \<noteq> is_fg g x y then insert x (changes_right g y x) else changes_right g y x)"
proof -
  have "x - 1 < a \<longleftrightarrow> a = x \<or> x < a" for a :: int by arith
  then show ?thesis by (auto simp: changes_right_def)
qed

lemma parity_changes_right: "odd (card (changes_right g y x)) = is_fg g x y"
proof (cases "x \<le> int (grid_w g)")
  case False
  then have "changes_right g y x = {}"
    using changes_right_bounded[of g y x] by auto
  with False show ?thesis by (simp add: is_fg_def)
next
  case True
  then show ?thesis
  proof (induction x rule: int_le_induct)
    case base
    have "changes_right g y (int (grid_w g)) = {}"
      using changes_right_bounded[of g y "int (grid_w g)"] by auto
    then show ?case by (simp add: is_fg_def)
  next
    case (step i)
    have "i \<notin> changes_right g y i" by (simp add: changes_right_def)
    with step.IH finite_changes_right[of g y i] show ?case
      by (auto simp: changes_right_step)
  qed
qed

lemma cell_value:
  "odd (length (filter (\<lambda>r. inside_ring r x y) (rings (trace g 0 False)))) = is_fg g x y"
proof -
  let ?loops = "trace_loops g"
  note t = trace_loops_correct[of g]
  have "odd (length (filter (\<lambda>r. inside_ring r x y) (rings (trace g 0 False)))) =
      odd (sum_list (map (\<lambda>r. crossings (pts r) x y) (rings (trace g 0 False))))"
    unfolding inside_ring_def by (rule odd_count_odd)
  also have "map (\<lambda>r. crossings (pts r) x y) (rings (trace g 0 False)) =
      map (\<lambda>ps. crossings ps x y) (map pts (rings (trace g 0 False)))"
    by (simp add: comp_def)
  also have "\<dots> = map (\<lambda>loop. crossings (map fst loop) x y) ?loops"
    by (simp add: pts_trace comp_def)
  also have "\<dots> = map (\<lambda>loop. length (filter (crosses_edge x y) loop)) ?loops"
    using t by (intro map_cong refl crossings_loop) blast
  also have "sum_list \<dots> = length (filter (crosses_edge x y) (concat ?loops))"
    by (rule count_concat)
  also have "\<dots> = card ({e. crosses_edge x y e} \<inter> set (concat ?loops))"
    using t by (intro distinct_length_filter) blast
  also have "{e. crosses_edge x y e} \<inter> set (concat ?loops) = {e. is_boundary g e \<and> crosses_edge x y e}"
    using t by auto
  also have "card \<dots> = card (changes_right g y x)"
    unfolding crossing_boundary_edges by (rule card_image[OF inj_change_edge])
  finally show ?thesis by (simp add: parity_changes_right)
qed

lemma fill_trace_round_trip:
  assumes "has_dims g w h"
  shows "fill (trace g 0 False) w h = g"
proof -
  from assms have w: "grid_w g = w" and h: "grid_h g = h" and l: "length (grid_rows g) = h"
    and r: "\<forall>row \<in> set (grid_rows g). length row = w"
    by (simp_all add: has_dims_def)
  have "map (\<lambda>y. map (\<lambda>x.
        odd (length (filter (\<lambda>r. inside_ring r (int x) (int y)) (rings (trace g 0 False))))) [0..<w])
        [0..<h] = grid_rows g"
  proof (rule nth_equalityI)
    show "length (map (\<lambda>y. map (\<lambda>x.
        odd (length (filter (\<lambda>r. inside_ring r (int x) (int y)) (rings (trace g 0 False))))) [0..<w])
        [0..<h]) = length (grid_rows g)"
      using l by simp
  next
    fix i assume "i < length (map (\<lambda>y. map (\<lambda>x.
        odd (length (filter (\<lambda>r. inside_ring r (int x) (int y)) (rings (trace g 0 False))))) [0..<w])
        [0..<h])"
    then have i: "i < h" by simp
    then have lw: "length (grid_rows g ! i) = w" using r l by simp
    have "map (\<lambda>x. odd (length (filter (\<lambda>r. inside_ring r (int x) (int i))
        (rings (trace g 0 False))))) [0..<w] = grid_rows g ! i"
    proof (rule nth_equalityI)
      show "length (map (\<lambda>x. odd (length (filter (\<lambda>r. inside_ring r (int x) (int i))
        (rings (trace g 0 False))))) [0..<w]) = length (grid_rows g ! i)"
        using lw by simp
    next
      fix j assume "j < length (map (\<lambda>x. odd (length (filter (\<lambda>r. inside_ring r (int x) (int i))
        (rings (trace g 0 False))))) [0..<w])"
      then have j: "j < w" by simp
      with i w h show "map (\<lambda>x. odd (length (filter (\<lambda>r. inside_ring r (int x) (int i))
        (rings (trace g 0 False))))) [0..<w] ! j = grid_rows g ! i ! j"
        by (simp add: cell_value is_fg_def)
    qed
    with i show "map (\<lambda>y. map (\<lambda>x.
        odd (length (filter (\<lambda>r. inside_ring r (int x) (int y)) (rings (trace g 0 False))))) [0..<w])
        [0..<h] ! i = grid_rows g ! i"
      by simp
  qed
  with w h show ?thesis by (simp add: fill_def)
qed

lemma pixel_poly_plain:
  assumes "\<not> do_invert c" "\<not> do_erosion c" "\<not> do_pinch_excursions c" "bevel_size c = Finite 0"
    "\<not> major_ring_only c" "\<not> no_donuts c" "min_ring_area c = 0"
  shows "pixel_poly c wd st msk =
    ([Call_trace_mask msk (georef_w (init_georef wd)) (georef_h (init_georef wd)) 0 False],
     Inr (trace_mask st msk (georef_w (init_georef wd)) (georef_h (init_georef wd)) 0 False))"
  using assms
  by (simp add: pixel_poly_def calc_ring_from_mask_def major_ring_pass_def bevel_pass_zero
      pinch_pass_def and_then_Inr ret_def)

text \<open>
  Claim C2, on the tracer and the rasterizer of the design. For every mask of dimensions
  \<open>w\<close> by \<open>h\<close>, filling the multipolygon traced with minimum area 0 and holes kept
  gives the mask back. And when inversion, erosion, beveling and pinching are off and the
  rings are not filtered, the driver calls the tracer on the mask with these arguments and
  the rasterizer on the multipolygon that the tracer returns.
\<close>

theorem mask_round_trip:
  assumes "has_dims msk w h"
  shows "fill (trace msk 0 False) w h = msk \<and>
    (\<not> do_invert c \<and> \<not> do_erosion c \<and> \<not> do_pinch_excursions c \<and> bevel_size c = Finite 0 \<and>
     \<not> major_ring_only c \<and> \<not> no_donuts c \<and> min_ring_area c = 0 \<and> mask_out_fn c = Some fn \<and>
     georef_w (init_georef wd) = w \<and> georef_h (init_georef wd) = h \<and>
     trace_mask st msk w h 0 False = trace msk 0 False \<longrightarrow>
     (\<exists>post. fst (process_mask c wd st class_id msk) =
        Call_trace_mask msk w h 0 False # Call_mask_from_mpoly (trace msk 0 False) w h fn # post))"
proof (intro conjI impI)
  show "fill (trace msk 0 False) w h = msk"
    using assms by (rule fill_trace_round_trip)
next
  assume a: "\<not> do_invert c \<and> \<not> do_erosion c \<and> \<not> do_pinch_excursions c \<and> bevel_size c = Finite 0 \<and>
     \<not> major_ring_only c \<and> \<not> no_donuts c \<and> min_ring_area c = 0 \<and> mask_out_fn c = Some fn \<and>
     georef_w (init_georef wd) = w \<and> georef_h (init_georef wd) = h \<and>
     trace_mask st msk w h 0 False = trace msk 0 False"
  then have p: "pixel_poly c wd st msk = ([Call_trace_mask msk w h 0 False], Inr (trace msk 0 False))"
    using pixel_poly_plain[of c wd st msk] by simp
  from a have m: "mask_out_fn c = Some fn" by blast
  from process_mask_rasterizer_call[OF m p, of class_id] a
  show "\<exists>post. fst (process_mask c wd st class_id msk) =
        Call_trace_mask msk w h 0 False # Call_mask_from_mpoly (trace msk 0 False) w h fn # post"
    by auto
qed

text \<open>
  On the sample mask, which has a hole, and on the mask whose pixels touch only
  diagonally, traced as one ring that passes twice through the points \<open>(1, 1)\<close> and
  \<open>(2, 1)\<close>.
\<close>

theorem mask_round_trip_witness:
  "has_dims sample_mask 4 3 \<and> fill (trace sample_mask 0 False) 4 3 = sample_mask \<and>
   has_dims diagonal_mask 3 2 \<and> fill (trace diagonal_mask 0 False) 3 2 = diagonal_mask \<and>
   map pts (rings (trace diagonal_mask 0 False)) =
     [[(0, 0), (1, 0), (1, 1), (2, 1), (2, 0), (3, 0), (3, 1), (2, 1), (2, 2), (1, 2), (1, 1), (0, 1)]] \<and>
   (\<exists>post. fst (process_mask round_trip_config sample_world design_stages 0 sample_mask) =
      Call_trace_mask sample_mask 4 3 0 False #
      Call_mask_from_mpoly (trace sample_mask 0 False) 4 3 ''mask.pbm'' # post)"
proof -
  have d1: "has_dims sample_mask 4 3"
    by (simp add: has_dims_def sample_mask_def)
  have d2: "has_dims diagonal_mask 3 2"
    by (simp add: has_dims_def diagonal_mask_def)
  have r: "map pts (rings (trace diagonal_mask 0 False)) =
     [[(0, 0), (1, 0), (1, 1), (2, 1), (2, 0), (3, 0), (3, 1), (2, 1), (2, 2), (1, 2), (1, 1), (0, 1)]]"
    by code_simp
  have c: "\<not> do_invert round_trip_config \<and> \<not> do_erosion round_trip_config \<and>
     \<not> do_pinch_excursions round_trip_config \<and> bevel_size round_trip_config = Finite 0 \<and>
     \<not> major_ring_only round_trip_config \<and> \<not> no_donuts round_trip_config \<and>
     min_ring_area round_trip_config = 0 \<and> mask_out_fn round_trip_config = Some ''mask.pbm'' \<and>
     georef_w (init_georef sample_world) = 4 \<and> georef_h (init_georef sample_world) = 3 \<and>
     trace_mask design_stages sample_mask 4 3 0 False = trace sample_mask 0 False"
    by (simp add: round_trip_config_def initial_config_def sample_world_def design_stages_def)
  note t1 = mask_round_trip[OF d1, where c = round_trip_config and wd = sample_world
      and st = design_stages and fn = "''mask.pbm''" and class_id = 0]
  note t2 = mask_round_trip[OF d2, where c = round_trip_config and wd = sample_world
      and st = design_stages and fn = "''mask.pbm''" and class_id = 0]
  from t1 have a1: "fill (trace sample_mask 0 False) 4 3 = sample_mask" by (rule conjunct1)
  from t2 have a2: "fill (trace diagonal_mask 0 False) 3 2 = diagonal_mask" by (rule conjunct1)
  from t1 c have a3: "\<exists>post. fst (process_mask round_trip_config sample_world design_stages 0 sample_mask) =
      Call_trace_mask sample_mask 4 3 0 False #
      Call_mask_from_mpoly (trace sample_mask 0 False) 4 3 ''mask.pbm'' # post"
    by blast
  from d1 a1 d2 a2 r a3 show ?thesis by (intro conjI)
qed

end
